(* ===== verification/Js_Prelude.thy ===== *)
theory Js_Prelude
  imports Complex_Main "HOL-Library.Multiset" "HOL-Library.AList"
begin

text \<open>
  The shared ground of the development: the pieces of the JavaScript language and its standard
  library that several components of LeetPlus use.

  \<^item> Strings are HOL strings and stand for ASCII strings: \<open>js_trim\<close>, \<open>js_upper\<close>, \<open>js_lower\<close>.
  \<^item> \<open>null\<close> and \<open>undefined\<close> are \<open>None\<close>; \<open>or_else\<close> is the operator \<open>??\<close>.
  \<^item> \<open>Math.round\<close> and \<open>Math.ceil\<close> of a quotient of integers are \<open>round_div\<close> and \<open>ceil_div\<close>.
  \<^item> An insertion ordered \<open>Map\<close> is an association list written with \<open>AList.update\<close>; \<open>js_group\<close>
    is the loop "get the entry or a fresh one, change it, set it".
  \<^item> \<open>js_sort\<close> is the stable \<open>Array.prototype.sort\<close> with a comparison function; the locales
    \<open>js_comparator\<close> and \<open>js_total_comparator\<close> state what a comparison function owes to it.
\<close>

section \<open>Strings\<close>

definition is_ws :: "char \<Rightarrow> bool" where
  "is_ws c \<longleftrightarrow> c \<in> set [CHR '' '', CHR 0x09, CHR 0x0A, CHR 0x0B, CHR 0x0C, CHR 0x0D]"

definition js_trim :: "string \<Rightarrow> string" where
  "js_trim s = rev (dropWhile is_ws (rev (dropWhile is_ws s)))"

definition upper_char :: "char \<Rightarrow> char" where
  "upper_char c =
     (let n = (of_char c :: nat) in if 97 \<le> n \<and> n \<le> 122 then char_of (n - 32) else c)"

definition lower_char :: "char \<Rightarrow> char" where
  "lower_char c =
     (let n = (of_char c :: nat) in if 65 \<le> n \<and> n \<le> 90 then char_of (n + 32) else c)"

definition js_upper :: "string \<Rightarrow> string" where
  "js_upper s = map upper_char s"

definition js_lower :: "string \<Rightarrow> string" where
  "js_lower s = map lower_char s"

text \<open>\<open>value?.trim() || null\<close>: the trimmed text, or null when there is none.\<close>

definition trim_or_none :: "string option \<Rightarrow> string option" where
  "trim_or_none v =
     (case v of None \<Rightarrow> None | Some s \<Rightarrow> (let t = js_trim s in if t = [] then None else Some t))"

lemma js_trim_Nil [simp]: "js_trim [] = []"
  by (simp add: js_trim_def)

lemma dropWhile_head_fails: "dropWhile P xs = y # ys \<Longrightarrow> \<not> P y"
  by (induction xs) (auto split: if_splits)

lemma dropWhile_fixpoint: "dropWhile P (dropWhile P xs) = dropWhile P xs"
  by (induction xs) auto

lemma dropWhile_rev_trim:
  "dropWhile P (rev (dropWhile P (rev (dropWhile P xs)))) = rev (dropWhile P (rev (dropWhile P xs)))"
proof (cases "rev (dropWhile P (rev (dropWhile P xs)))")
  case Nil
  then show ?thesis by (metis dropWhile.simps(1))
next
  case (Cons y ys)
  define zs where "zs = dropWhile P xs"
  have "dropWhile P (rev zs) = rev ys @ [y]"
    using Cons unfolding zs_def by (metis rev.simps(2) rev_rev_ident)
  then obtain us where "rev zs = us @ rev ys @ [y]"
    by (metis takeWhile_dropWhile_id)
  then have "zs = y # ys @ rev us"
    by (metis append.assoc append_Cons append_Nil rev.simps(2) rev_append rev_rev_ident)
  then have "\<not> P y"
    unfolding zs_def by (rule dropWhile_head_fails)
  then show ?thesis using Cons by simp
qed

lemma js_trim_idem [simp]: "js_trim (js_trim s) = js_trim s"
  unfolding js_trim_def by (simp add: dropWhile_rev_trim dropWhile_fixpoint)

lemma length_js_trim_le: "length (js_trim s) \<le> length s"
  unfolding js_trim_def
  by (metis length_dropWhile_le length_rev order_trans)

lemma trim_or_none_Some: "trim_or_none v = Some t \<Longrightarrow> t \<noteq> [] \<and> js_trim t = t"
  by (auto simp: trim_or_none_def Let_def split: option.splits if_splits)

lemma trim_or_none_idem [simp]: "trim_or_none (trim_or_none v) = trim_or_none v"
  by (auto simp: trim_or_none_def Let_def split: option.splits)

section \<open>Null, truth and arithmetic\<close>

fun or_else :: "'a option \<Rightarrow> 'a option \<Rightarrow> 'a option" where
  "or_else (Some x) y = Some x"
| "or_else None y = y"

fun get_or :: "'a option \<Rightarrow> 'a \<Rightarrow> 'a" where
  "get_or (Some x) d = x"
| "get_or None d = d"

text \<open>\<open>Math.round(a / b)\<close>, \<open>Math.ceil(a / b)\<close> for integers \<open>a\<close> and \<open>b > 0\<close>.\<close>

definition round_div :: "int \<Rightarrow> int \<Rightarrow> int" where
  "round_div a b = (2 * a + b) div (2 * b)"

definition ceil_div :: "int \<Rightarrow> int \<Rightarrow> int" where
  "ceil_div a b = - ((- a) div b)"

definition js_round :: "rat \<Rightarrow> int" where
  "js_round x = \<lfloor>x + 1 / 2\<rfloor>"

lemma round_div_0 [simp]: "0 < b \<Longrightarrow> round_div 0 b = 0"
  by (simp add: round_div_def)

lemma round_div_nonneg: "0 \<le> a \<Longrightarrow> 0 < b \<Longrightarrow> 0 \<le> round_div a b"
  by (simp add: round_div_def pos_imp_zdiv_nonneg_iff)

lemma round_div_mono: "a \<le> a' \<Longrightarrow> 0 < b \<Longrightarrow> round_div a b \<le> round_div a' b"
  by (simp add: round_div_def zdiv_mono1)

lemma round_div_exact [simp]: "0 < b \<Longrightarrow> round_div (k * b) b = k"
proof -
  assume b: "0 < b"
  have "(2 * (k * b) + b) div (2 * b) = (b + k * (2 * b)) div (2 * b)"
    by (simp add: algebra_simps)
  also have "\<dots> = k + b div (2 * b)"
    using b by (subst div_mult_self1) auto
  also have "b div (2 * b) = 0"
    using b by simp
  finally show ?thesis
    by (simp add: round_div_def)
qed

lemma ceil_div_ge: "0 < b \<Longrightarrow> a \<le> ceil_div a b * b"
proof -
  assume b: "0 < b"
  have "(- a) div b * b \<le> - a"
    using b by (metis div_mult_mod_eq le_add_same_cancel1 pos_mod_sign)
  then show ?thesis by (simp add: ceil_div_def)
qed

lemma ceil_div_less: "0 < b \<Longrightarrow> (ceil_div a b - 1) * b < a"
proof -
  assume b: "0 < b"
  have "(- a) mod b < b"
    using b by simp
  moreover have "- a = (- a) div b * b + (- a) mod b"
    by simp
  ultimately have "- a < (- a) div b * b + b"
    by linarith
  then show ?thesis by (simp add: ceil_div_def algebra_simps)
qed

lemma ceil_div_le_iff: "0 < b \<Longrightarrow> ceil_div a b \<le> k \<longleftrightarrow> a \<le> k * b"
proof
  assume b: "0 < b" and "ceil_div a b \<le> k"
  then have "ceil_div a b * b \<le> k * b" by simp
  with ceil_div_ge [OF b, of a] show "a \<le> k * b" by linarith
next
  assume b: "0 < b" and "a \<le> k * b"
  with ceil_div_less [OF b, of a] have "(ceil_div a b - 1) * b < k * b" by linarith
  with b show "ceil_div a b \<le> k" by simp
qed

lemma find_SomeD: "find P xs = Some x \<Longrightarrow> x \<in> set xs \<and> P x"
  by (induction xs) (auto split: if_splits)

section \<open>Insertion ordered sets and maps\<close>

text \<open>\<open>[...new Set(xs)]\<close>: the distinct elements in the order of their first occurrence.\<close>

definition js_uniq :: "'a list \<Rightarrow> 'a list" where
  "js_uniq xs = rev (remdups (rev xs))"

lemma set_js_uniq [simp]: "set (js_uniq xs) = set xs"
  by (simp add: js_uniq_def)

lemma distinct_js_uniq [simp]: "distinct (js_uniq xs)"
  by (simp add: js_uniq_def)

lemma js_uniq_distinct: "distinct xs \<Longrightarrow> js_uniq xs = xs"
  by (simp add: js_uniq_def distinct_remdups_id)

lemma length_js_uniq_le: "length (js_uniq xs) \<le> length xs"
  by (simp add: js_uniq_def) (metis length_remdups_leq length_rev)

text \<open>
  The loop \<open>for (const row of rows) { const v = map.get(key(row)) ?? fresh; ...; map.set(...) }\<close>.
\<close>

definition js_group_step ::
  "('r \<Rightarrow> 'k) \<Rightarrow> 'v \<Rightarrow> ('r \<Rightarrow> 'v \<Rightarrow> 'v) \<Rightarrow> 'r \<Rightarrow> ('k \<times> 'v) list \<Rightarrow> ('k \<times> 'v) list" where
  "js_group_step key fresh upd r m = AList.update (key r) (upd r (get_or (map_of m (key r)) fresh)) m"

fun js_group_into ::
  "('r \<Rightarrow> 'k) \<Rightarrow> 'v \<Rightarrow> ('r \<Rightarrow> 'v \<Rightarrow> 'v) \<Rightarrow> ('k \<times> 'v) list \<Rightarrow> 'r list \<Rightarrow> ('k \<times> 'v) list" where
  "js_group_into key fresh upd m [] = m"
| "js_group_into key fresh upd m (r # rs) =
     js_group_into key fresh upd (js_group_step key fresh upd r m) rs"

definition js_group ::
  "('r \<Rightarrow> 'k) \<Rightarrow> 'v \<Rightarrow> ('r \<Rightarrow> 'v \<Rightarrow> 'v) \<Rightarrow> 'r list \<Rightarrow> ('k \<times> 'v) list" where
  "js_group key fresh upd rows = js_group_into key fresh upd [] rows"

lemma map_of_js_group_into:
  "map_of (js_group_into key fresh upd m rows) k =
     (if \<exists>r\<in>set rows. key r = k
      then Some (fold upd (filter (\<lambda>r. key r = k) rows) (get_or (map_of m k) fresh))
      else map_of m k)"
proof (induction rows arbitrary: m)
  case Nil
  then show ?case by simp
next
  case (Cons r rs)
  show ?case
    by (simp add: Cons.IH js_group_step_def update_conv')
qed

lemma map_of_js_group:
  "map_of (js_group key fresh upd rows) k =
     (if \<exists>r\<in>set rows. key r = k
      then Some (fold upd (filter (\<lambda>r. key r = k) rows) fresh) else None)"
  by (simp add: js_group_def map_of_js_group_into)

lemma distinct_js_group_into:
  "distinct (map fst m) \<Longrightarrow> distinct (map fst (js_group_into key fresh upd m rows))"
  by (induction rows arbitrary: m) (simp_all add: js_group_step_def distinct_update)

lemma distinct_js_group [simp]: "distinct (map fst (js_group key fresh upd rows))"
  by (simp add: js_group_def distinct_js_group_into)

lemma keys_js_group [simp]: "fst ` set (js_group key fresh upd rows) = key ` set rows"
proof -
  have "k \<in> fst ` set (js_group key fresh upd rows) \<longleftrightarrow> k \<in> key ` set rows" for k
    using map_of_js_group [of key fresh upd rows k]
    by (metis (mono_tags, lifting) image_iff map_of_eq_None_iff option.distinct(1))
  then show ?thesis by blast
qed

lemma js_group_entry:
  assumes "(k, v) \<in> set (js_group key fresh upd rows)"
  shows "v = fold upd (filter (\<lambda>r. key r = k) rows) fresh"
proof -
  have "map_of (js_group key fresh upd rows) k = Some v"
    using assms by (simp add: map_of_is_SomeI)
  then show ?thesis
    by (simp add: map_of_js_group split: if_splits)
qed

text \<open>A sum over the groups is the sum over the rows.\<close>

lemma sum_list_update:
  fixes g :: "'k \<Rightarrow> 'v \<Rightarrow> int"
  assumes "distinct (map fst m)"
  shows "(\<Sum>(k', v')\<leftarrow>AList.update k v m. g k' v') =
    (\<Sum>(k', v')\<leftarrow>m. g k' v') + g k v - (case map_of m k of None \<Rightarrow> 0 | Some v' \<Rightarrow> g k v')"
  using assms
proof (induction m)
  case (Cons x m)
  obtain k0 v0 where x: "x = (k0, v0)" by (cases x)
  then show ?case using Cons by (simp split: option.splits)
qed simp

lemma sum_js_group_into:
  fixes h :: "'v \<Rightarrow> int"
  assumes upd: "\<And>r v. h (upd r v) = h v + w r" and fresh: "h fresh = 0" and "distinct (map fst m)"
  shows "(\<Sum>(k, v)\<leftarrow>js_group_into key fresh upd m rows. if P k then h v else 0) =
    (\<Sum>(k, v)\<leftarrow>m. if P k then h v else 0) + (\<Sum>r\<leftarrow>rows. if P (key r) then w r else 0)"
  using assms(3)
proof (induction rows arbitrary: m)
  case (Cons r rows)
  let ?m = "js_group_step key fresh upd r m"
  have distinct: "distinct (map fst ?m)"
    using Cons.prems by (simp add: js_group_step_def distinct_update)
  have "(\<Sum>(k, v)\<leftarrow>?m. if P k then h v else 0) =
      (\<Sum>(k, v)\<leftarrow>m. if P k then h v else 0) + (if P (key r) then w r else 0)"
    using sum_list_update [OF Cons.prems, of "\<lambda>k v. if P k then h v else 0" "key r"]
    by (simp add: js_group_step_def upd fresh split: option.splits)
  then show ?case by (simp add: Cons.IH [OF distinct])
qed simp

lemma sum_js_group:
  fixes h :: "'v \<Rightarrow> int"
  assumes "\<And>r v. h (upd r v) = h v + w r" and "h fresh = 0"
  shows "(\<Sum>(k, v)\<leftarrow>js_group key fresh upd rows. if P k then h v else 0) =
    (\<Sum>r\<leftarrow>rows. if P (key r) then w r else 0)"
  using sum_js_group_into [of h upd w fresh "[]" P key rows] assms by (simp add: js_group_def)

section \<open>Results that may be errors\<close>

text \<open>A call that may throw, followed by the rest of the block; a guarded throw.\<close>

fun and_then :: "'e + 'a \<Rightarrow> ('a \<Rightarrow> 'e + 'b) \<Rightarrow> 'e + 'b" where
  "and_then (Inl e) f = Inl e"
| "and_then (Inr a) f = f a"

definition throw_if :: "bool \<Rightarrow> 'e \<Rightarrow> 'e + unit" where
  "throw_if b e = (if b then Inl e else Inr ())"

lemma and_then_Inr [simp]: "and_then m f = Inr b \<longleftrightarrow> (\<exists>a. m = Inr a \<and> f a = Inr b)"
  by (cases m) auto

lemma and_then_Inl: "and_then m f = Inl e \<longleftrightarrow> m = Inl e \<or> (\<exists>a. m = Inr a \<and> f a = Inl e)"
  by (cases m) auto

lemma throw_if_Inr [simp]: "throw_if b e = Inr u \<longleftrightarrow> \<not> b"
  by (simp add: throw_if_def)

lemma throw_if_simps: "throw_if True e = Inl e" "throw_if False e = Inr ()"
  by (simp_all add: throw_if_def)

text \<open>\<open>xs.map((x, index) => f(index, x))\<close> where \<open>f\<close> may throw.\<close>

fun map_results :: "(nat \<Rightarrow> 'a \<Rightarrow> 'e + 'b) \<Rightarrow> nat \<Rightarrow> 'a list \<Rightarrow> 'e + 'b list" where
  "map_results f i [] = Inr []"
| "map_results f i (x # xs) = and_then (f i x) (\<lambda>y. and_then (map_results f (Suc i) xs) (\<lambda>ys. Inr (y # ys)))"

lemma map_results_all:
  "map_results f i xs = Inr ys \<Longrightarrow> y \<in> set ys \<Longrightarrow> \<exists>x\<in>set xs. \<exists>j. f j x = Inr y"
  by (induction xs arbitrary: i ys) (auto, blast+)

lemma map_results_length: "map_results f i xs = Inr ys \<Longrightarrow> length ys = length xs"
  by (induction xs arbitrary: i ys) auto

lemma map_results_map:
  "(\<And>j x. x \<in> set xs \<Longrightarrow> f j (g x) = Inr x) \<Longrightarrow> map_results f i (map g xs) = Inr xs"
  by (induction xs arbitrary: i) auto

section \<open>Values of unknown type\<close>

text \<open>
  What the program declares as \<open>unknown\<close> or \<open>JsonValue\<close>: a decoded JSON document, and
  \<open>undefined\<close> for what is absent. JSON has no \<open>NaN\<close> and no infinity, so a number is a rational.
\<close>

datatype js_value =
  JUndef | JNull | JBool bool | JNum rat | JStr string
| JArr "js_value list" | JObj "(string \<times> js_value) list"

text \<open>The property of an object; absent properties are \<open>undefined\<close>.\<close>

definition js_prop :: "(string \<times> js_value) list \<Rightarrow> string \<Rightarrow> js_value" where
  "js_prop obj k = get_or (map_of obj k) JUndef"

text \<open>An enumeration is a table of names; a value is a member when it is one of the names.\<close>

fun parse_enum :: "(string \<times> 'a) list \<Rightarrow> js_value \<Rightarrow> 'a option" where
  "parse_enum table (JStr s) = map_of table s"
| "parse_enum table _ = None"

fun js_missing :: "js_value \<Rightarrow> bool" where
  "js_missing JUndef = True"
| "js_missing JNull = True"
| "js_missing (JStr s) = (s = [])"
| "js_missing _ = False"

text \<open>The value of a numeric field that is a safe integer.\<close>

fun js_safe_int :: "js_value \<Rightarrow> int option" where
  "js_safe_int (JNum q) =
     (if q = of_int \<lfloor>q\<rfloor> \<and> \<bar>\<lfloor>q\<rfloor>\<bar> \<le> 9007199254740991 then Some \<lfloor>q\<rfloor> else None)"
| "js_safe_int _ = None"

lemma js_safe_int_of_int [simp]:
  "js_safe_int (JNum (of_int n)) = (if \<bar>n\<bar> \<le> 9007199254740991 then Some n else None)"
  by simp

lemma js_prop_Cons [simp]: "js_prop ((k, v) # obj) k' = (if k = k' then v else js_prop obj k')"
  by (simp add: js_prop_def)

lemma js_prop_Nil [simp]: "js_prop [] k = JUndef"
  by (simp add: js_prop_def)

end
