(* ===== verification/Js_Sort.thy ===== *)
theory Js_Sort
  imports Js_Prelude
begin

text \<open>
  \<open>Array.prototype.sort\<close> with a comparison function, and the interface a comparison function has to
  satisfy. The language requires the sort to be stable, so for a consistent comparison function the
  result is determined; \<open>js_sort\<close> computes it by stable insertion.

  \<^item> \<open>js_comparator\<close>: the comparison is consistent; then the result is ordered.
  \<^item> \<open>js_total_comparator\<close>: moreover only equal elements compare as equal; then the result does not
    depend on the order of the input.

  The last section is the comparison of strings by code units, which is what the model uses for a
  concrete \<open>localeCompare\<close>: on the lower case identifiers the program sorts, the collation of the
  platform orders digits before letters and letters alphabetically, as the code units do.
\<close>

section \<open>Stable sort\<close>

fun js_insert :: "('a \<Rightarrow> 'a \<Rightarrow> int) \<Rightarrow> 'a \<Rightarrow> 'a list \<Rightarrow> 'a list" where
  "js_insert cmp x [] = [x]"
| "js_insert cmp x (y # ys) = (if cmp x y \<le> 0 then x # y # ys else y # js_insert cmp x ys)"

fun js_sort :: "('a \<Rightarrow> 'a \<Rightarrow> int) \<Rightarrow> 'a list \<Rightarrow> 'a list" where
  "js_sort cmp [] = []"
| "js_sort cmp (x # xs) = js_insert cmp x (js_sort cmp xs)"

lemma mset_js_insert [simp]: "mset (js_insert cmp x xs) = add_mset x (mset xs)"
  by (induction xs) auto

lemma mset_js_sort [simp]: "mset (js_sort cmp xs) = mset xs"
  by (induction xs) auto

lemma set_js_sort [simp]: "set (js_sort cmp xs) = set xs"
  by (metis mset_js_sort set_mset_mset)

lemma length_js_sort [simp]: "length (js_sort cmp xs) = length xs"
  by (metis mset_js_sort size_mset)

lemma distinct_js_sort [simp]: "distinct (js_sort cmp xs) = distinct xs"
  by (metis mset_eq_imp_distinct_iff mset_js_sort)

lemma js_sort_eq_Nil [simp]: "js_sort cmp xs = [] \<longleftrightarrow> xs = []"
  by (metis length_0_conv length_js_sort)

text \<open>Sorting by a key.\<close>

lemma map_js_insert:
  "map f (js_insert (\<lambda>a b. cmp (f a) (f b)) x xs) = js_insert cmp (f x) (map f xs)"
  by (induction xs) auto

lemma map_js_sort: "map f (js_sort (\<lambda>a b. cmp (f a) (f b)) xs) = js_sort cmp (map f xs)"
  by (induction xs) (auto simp: map_js_insert)

section \<open>Comparison functions\<close>

locale js_comparator =
  fixes cmp :: "'a \<Rightarrow> 'a \<Rightarrow> int"
  assumes cmp_flip: "sgn (cmp b a) = - sgn (cmp a b)"
    and cmp_trans: "cmp a b \<le> 0 \<Longrightarrow> cmp b c \<le> 0 \<Longrightarrow> cmp a c \<le> 0"
begin

lemma cmp_self: "cmp a a = 0"
  using cmp_flip [of a a] by (simp add: sgn_if split: if_splits)

lemma cmp_total: "\<not> cmp a b \<le> 0 \<Longrightarrow> cmp b a \<le> 0"
  using cmp_flip [of a b] by (simp add: sgn_if split: if_splits)

lemma cmp_less_flip: "cmp a b < 0 \<longleftrightarrow> 0 < cmp b a"
  using cmp_flip [of a b] by (simp add: sgn_if split: if_splits)

lemma sorted_insert:
  "sorted_wrt (\<lambda>a b. cmp a b \<le> 0) xs \<Longrightarrow> sorted_wrt (\<lambda>a b. cmp a b \<le> 0) (js_insert cmp x xs)"
proof (induction xs)
  case Nil
  then show ?case by simp
next
  case (Cons y ys)
  show ?case
  proof (cases "cmp x y \<le> 0")
    case True
    then show ?thesis using Cons.prems by (auto intro: cmp_trans)
  next
    case False
    have "set (js_insert cmp x ys) = insert x (set ys)"
      by (metis mset_js_insert set_mset_add_mset_insert set_mset_mset)
    then show ?thesis
      using False Cons cmp_total by auto
  qed
qed

lemma sorted_sort: "sorted_wrt (\<lambda>a b. cmp a b \<le> 0) (js_sort cmp xs)"
  by (induction xs) (auto intro: sorted_insert)

lemma sort_sorted: "sorted_wrt (\<lambda>a b. cmp a b \<le> 0) xs \<Longrightarrow> js_sort cmp xs = xs"
proof (induction xs)
  case Nil
  then show ?case by simp
next
  case (Cons x xs)
  then show ?case by (cases xs) auto
qed

end

locale js_total_comparator = js_comparator cmp for cmp :: "'a \<Rightarrow> 'a \<Rightarrow> int" +
  assumes cmp_eq: "cmp a b = 0 \<Longrightarrow> a = b"
begin

lemma sorted_unique:
  assumes "mset xs = mset ys"
    and "sorted_wrt (\<lambda>a b. cmp a b \<le> 0) xs" and "sorted_wrt (\<lambda>a b. cmp a b \<le> 0) ys"
  shows "xs = ys"
  using assms
proof (induction xs arbitrary: ys)
  case Nil
  then show ?case by simp
next
  case (Cons x xs)
  then obtain y zs where ys: "ys = y # zs"
    by (metis list.exhaust mset_zero_iff_right mset.simps(1) list.distinct(1))
  have "x = y"
  proof (rule ccontr)
    assume "x \<noteq> y"
    moreover have "x \<in> set ys" and "y \<in> set (x # xs)"
      using Cons.prems(1) ys by (metis list.set_intros(1) mset_eq_setD)+
    ultimately have "cmp y x \<le> 0" and "cmp x y \<le> 0"
      using Cons.prems(2,3) ys by auto
    then have "cmp x y = 0"
      using cmp_less_flip [of x y] by linarith
    then show False using \<open>x \<noteq> y\<close> cmp_eq by blast
  qed
  moreover have "xs = zs"
    using Cons.prems ys \<open>x = y\<close> by (intro Cons.IH) auto
  ultimately show ?case using ys by simp
qed

lemma sort_cong_mset: "mset xs = mset ys \<Longrightarrow> js_sort cmp xs = js_sort cmp ys"
  by (rule sorted_unique) (simp_all add: sorted_sort)

end

section \<open>Comparison of strings by code units\<close>

fun code_unit_compare :: "string \<Rightarrow> string \<Rightarrow> int" where
  "code_unit_compare [] [] = 0"
| "code_unit_compare [] (b # bs) = -1"
| "code_unit_compare (a # as) [] = 1"
| "code_unit_compare (a # as) (b # bs) =
     (if (of_char a :: nat) < of_char b then -1
      else if (of_char b :: nat) < of_char a then 1
      else code_unit_compare as bs)"

lemma code_unit_compare_range: "code_unit_compare a b \<in> {-1, 0, 1}"
  by (induction a b rule: code_unit_compare.induct) auto

lemma code_unit_compare_flip: "code_unit_compare b a = - code_unit_compare a b"
  by (induction a b rule: code_unit_compare.induct) auto

lemma of_char_nat_eq: "(of_char a :: nat) = of_char b \<longleftrightarrow> a = b"
  by (metis char_of_char)

lemma code_unit_compare_eq: "code_unit_compare a b = 0 \<Longrightarrow> a = b"
  by (induction a b rule: code_unit_compare.induct)
    (auto simp: not_less of_char_nat_eq split: if_splits dest: antisym)

lemma code_unit_compare_Nil: "code_unit_compare a [] \<le> 0 \<longleftrightarrow> a = []"
  by (cases a) simp_all

lemma code_unit_compare_trans:
  "code_unit_compare a b \<le> 0 \<Longrightarrow> code_unit_compare b c \<le> 0 \<Longrightarrow> code_unit_compare a c \<le> 0"
proof (induction a b arbitrary: c rule: code_unit_compare.induct)
  case 1
  then show ?case by simp
next
  case (2 b bs)
  then show ?case by (cases c) simp_all
next
  case (3 a as)
  then show ?case by (simp add: code_unit_compare_Nil)
next
  case (4 a as b bs)
  then obtain d ds where c: "c = d # ds"
    by (cases c) (simp_all add: code_unit_compare_Nil)
  show ?case
  proof (cases "(of_char a :: nat) = of_char b \<and> (of_char b :: nat) = of_char d")
    case True
    then show ?thesis
      using "4.IH" [of ds] "4.prems" c by simp
  next
    case False
    have "(of_char a :: nat) \<le> of_char b" and "(of_char b :: nat) \<le> of_char d"
      using "4.prems" c by (auto split: if_splits)
    with False have "(of_char a :: nat) < of_char d" by linarith
    then show ?thesis using c by simp
  qed
qed

interpretation code_units: js_total_comparator code_unit_compare
proof
  show "sgn (code_unit_compare b a) = - sgn (code_unit_compare a b)" for a b
    by (simp only: code_unit_compare_flip [of b a] Rings.sgn_minus)
  show "code_unit_compare a b \<le> 0 \<Longrightarrow> code_unit_compare b c \<le> 0 \<Longrightarrow> code_unit_compare a c \<le> 0" for a b c
    by (rule code_unit_compare_trans)
  show "code_unit_compare a b = 0 \<Longrightarrow> a = b" for a b
    by (rule code_unit_compare_eq)
qed

end
