(* ===== verification/Tenant_Model.thy ===== *)
theory Tenant_Model
  imports Js_Sort
begin

text \<open>
  The tenant of the SaaS: its row, its module entitlements, and the database trigger that fences
  every change of the execution relevant columns with \<open>executionRevision\<close>.

  \<^item> the enumerations and the row follow \<open>packages/database/prisma/schema.prisma\<close>;
  \<^item> \<open>tenant_fence_trigger\<close> is the trigger function \<open>tenant_execution_revision_fence\<close> of the
    migration \<open>20260728150000_tenant_execution_revision_fence\<close>;
  \<^item> a JavaScript \<open>Date\<close> is a \<open>jsdate\<close>: an instant in milliseconds, or an invalid date, with
    which every comparison is false.

  The lemmas show that a run of updates through the trigger never decreases the revision, and that
  an unchanged revision means that no execution relevant column was touched on the way.
\<close>

section \<open>Dates\<close>

datatype jsdate = At int | Invalid_Date

fun date_less :: "jsdate \<Rightarrow> jsdate \<Rightarrow> bool" where
  "date_less (At a) (At b) = (a < b)"
| "date_less _ _ = False"

fun date_ge :: "jsdate \<Rightarrow> jsdate \<Rightarrow> bool" where
  "date_ge (At a) (At b) = (b \<le> a)"
| "date_ge _ _ = False"

fun valid_date :: "jsdate \<Rightarrow> bool" where
  "valid_date (At _) = True"
| "valid_date Invalid_Date = False"

lemma valid_date_iff: "valid_date d \<longleftrightarrow> (\<exists>t. d = At t)"
  by (cases d) auto

lemma date_less_At [simp]: "date_less (At a) d \<longleftrightarrow> (\<exists>b. d = At b \<and> a < b)"
  by (cases d) auto

lemma date_ge_At [simp]: "date_ge (At a) d \<longleftrightarrow> (\<exists>b. d = At b \<and> b \<le> a)"
  by (cases d) auto

section \<open>Enumerations of the schema\<close>

datatype lifecycle_status = LC_ACTIVE | SUSPENDED | ARCHIVED

datatype customer_stage = INTERNAL | PILOT | BETA | LIVE

datatype onboarding_status =
  PROVISIONING | OWNER_INVITED | ONBOARDING | READY | OB_ACTIVE | OFFBOARDING

datatype tenant_module =
  GAMIFICATION | ASSORTMENT | STAFF | COMMUNICATIONS | USERS_ROLES | INTEGRATIONS

text \<open>\<open>COMPLETE_TENANT_MODULE_PROFILE\<close>, and the position of a module in it.\<close>

definition complete_module_profile :: "tenant_module list" where
  "complete_module_profile =
     [GAMIFICATION, ASSORTMENT, STAFF, COMMUNICATIONS, USERS_ROLES, INTEGRATIONS]"

fun module_index :: "tenant_module \<Rightarrow> nat" where
  "module_index GAMIFICATION = 0"
| "module_index ASSORTMENT = 1"
| "module_index STAFF = 2"
| "module_index COMMUNICATIONS = 3"
| "module_index USERS_ROLES = 4"
| "module_index INTEGRATIONS = 5"

lemma module_index_inj: "module_index m = module_index n \<Longrightarrow> m = n"
  by (cases m; cases n) simp_all

lemma complete_profile_all: "m \<in> set complete_module_profile"
  by (cases m) (simp_all add: complete_module_profile_def)

lemma complete_profile_nth: "complete_module_profile ! module_index m = m"
  by (cases m) (simp_all add: complete_module_profile_def)

lemma distinct_complete_profile: "distinct complete_module_profile"
  by (simp add: complete_module_profile_def)

lemma length_complete_profile: "length complete_module_profile = 6"
  by (simp add: complete_module_profile_def)

text \<open>Modules are ordered by their position in the complete profile.\<close>

instantiation tenant_module :: linorder
begin

definition less_eq_tenant_module :: "tenant_module \<Rightarrow> tenant_module \<Rightarrow> bool" where
  "less_eq_tenant_module m n \<longleftrightarrow> module_index m \<le> module_index n"

definition less_tenant_module :: "tenant_module \<Rightarrow> tenant_module \<Rightarrow> bool" where
  "less_tenant_module m n \<longleftrightarrow> module_index m < module_index n"

instance
proof
  fix x y z :: tenant_module
  show "x < y \<longleftrightarrow> x \<le> y \<and> \<not> y \<le> x"
    by (auto simp: less_tenant_module_def less_eq_tenant_module_def)
  show "x \<le> x" and "x \<le> y \<Longrightarrow> y \<le> z \<Longrightarrow> x \<le> z" and "x \<le> y \<or> y \<le> x"
    by (auto simp: less_eq_tenant_module_def)
  show "x \<le> y \<Longrightarrow> y \<le> x \<Longrightarrow> x = y"
    by (auto simp: less_eq_tenant_module_def intro: module_index_inj)
qed

end

lemma sorted_complete_profile: "sorted complete_module_profile"
  by (simp add: complete_module_profile_def less_eq_tenant_module_def)

section \<open>Rows\<close>

record entitlement =
  ent_module :: tenant_module
  readEnabled :: bool
  writeEnabled :: bool
  outboundEnabled :: bool
  validFrom :: "jsdate option"
  validUntil :: "jsdate option"
  profileRevision :: int

record tenant =
  tenant_id :: string
  tenant_name :: string
  tenant_slug :: string
  status :: lifecycle_status
  customerStage :: customer_stage
  onboardingStatus :: onboarding_status
  cohortKey :: "string option"
  supportOwnerUserId :: "string option"
  trialStartsAt :: "jsdate option"
  trialEndsAt :: "jsdate option"
  entitlementProfileRevision :: int
  executionRevision :: int
  updatedAt :: int

text \<open>\<open>Number.isSafeInteger\<close>.\<close>

definition is_safe_int :: "int \<Rightarrow> bool" where
  "is_safe_int n \<longleftrightarrow> - 9007199254740991 \<le> n \<and> n \<le> 9007199254740991"

definition trial_bound_stage :: "customer_stage \<Rightarrow> bool" where
  "trial_bound_stage s \<longleftrightarrow> s = PILOT \<or> s = BETA"

section \<open>The execution revision fence\<close>

datatype fence_error = REVISION_EXHAUSTED | REVISION_TRIGGER_OWNED

definition execution_columns_differ :: "tenant \<Rightarrow> tenant \<Rightarrow> bool" where
  "execution_columns_differ old new \<longleftrightarrow>
     status old \<noteq> status new \<or>
     customerStage old \<noteq> customerStage new \<or>
     onboardingStatus old \<noteq> onboardingStatus new \<or>
     trialStartsAt old \<noteq> trialStartsAt new \<or>
     trialEndsAt old \<noteq> trialEndsAt new \<or>
     entitlementProfileRevision old \<noteq> entitlementProfileRevision new"

definition tenant_fence_trigger :: "tenant \<Rightarrow> tenant \<Rightarrow> fence_error + tenant" where
  "tenant_fence_trigger old new =
     (if execution_columns_differ old new
      then if 2147483647 \<le> executionRevision old then Inl REVISION_EXHAUSTED
           else Inr (new\<lparr>executionRevision := executionRevision old + 1\<rparr>)
      else if executionRevision old \<noteq> executionRevision new then Inl REVISION_TRIGGER_OWNED
      else Inr new)"

text \<open>One committed update of the row, and the rows reachable by updates.\<close>

inductive tenant_update :: "tenant \<Rightarrow> tenant \<Rightarrow> bool" where
  update: "tenant_fence_trigger old new = Inr row \<Longrightarrow> tenant_update old row"

inductive tenant_updates :: "tenant \<Rightarrow> tenant \<Rightarrow> bool" where
  refl: "tenant_updates row row"
| step: "tenant_updates row mid \<Longrightarrow> tenant_update mid row' \<Longrightarrow> tenant_updates row row'"

inductive_cases tenant_updateE: "tenant_update old row"

lemma fence_trigger_step:
  assumes "tenant_update old row"
  shows "executionRevision row = executionRevision old \<and> \<not> execution_columns_differ old row \<or>
    executionRevision row = executionRevision old + 1"
  using assms
  by (elim tenant_updateE)
    (auto simp: tenant_fence_trigger_def execution_columns_differ_def split: if_splits)

lemma execution_columns_differ_trans:
  "\<not> execution_columns_differ a b \<Longrightarrow> \<not> execution_columns_differ b c \<Longrightarrow>
    \<not> execution_columns_differ a c"
  by (simp add: execution_columns_differ_def)

lemma updates_revision_mono:
  "tenant_updates row row' \<Longrightarrow> executionRevision row \<le> executionRevision row'"
  by (induction rule: tenant_updates.induct) (auto dest: fence_trigger_step)

lemma updates_same_revision:
  "tenant_updates row row' \<Longrightarrow> executionRevision row' = executionRevision row \<Longrightarrow>
    \<not> execution_columns_differ row row'"
proof (induction rule: tenant_updates.induct)
  case (refl row)
  then show ?case by (simp add: execution_columns_differ_def)
next
  case (step row mid row')
  have "executionRevision row \<le> executionRevision mid"
    using step.hyps(1) by (rule updates_revision_mono)
  with fence_trigger_step [OF step.hyps(2)] step.prems
  have "executionRevision mid = executionRevision row" and "\<not> execution_columns_differ mid row'"
    by auto
  with step.IH show ?case
    by (metis execution_columns_differ_trans)
qed

end
