(* ===== verification/Execution_Policy.thy ===== *)
theory Execution_Policy
  imports Tenant_Model
begin

text \<open>
  \<open>TenantExecutionPolicyService\<close> (\<open>tenancy/tenant-execution-policy.service.ts\<close>): the fail-closed
  decision whether a tenant may open a session, accept an invite, be activated, or use a module.

  The operations are translated method by method; the exceptions of the \<open>assert...\<close> methods are
  \<open>Inl\<close> values. The locale \<open>admission_gate\<close> is the contract the four decisions share (allowed
  exactly when the reason says so, and the set of instants that are allowed is an interval); it is
  interpreted for each of them. The abstract specification \<open>session_spec\<close>, \<open>entitlement_spec\<close>
  says what an admission means, and the decisions are proved to implement it.
\<close>

section \<open>Decisions\<close>

datatype execution_action = READ | WRITE | OUTBOUND

datatype denial_reason =
  TENANT_INACTIVE | TENANT_ONBOARDING_BLOCKED
| TENANT_ACTIVATION_LIFECYCLE_BLOCKED | TENANT_ACTIVATION_ONBOARDING_BLOCKED
| TENANT_ACTIVATION_OUTBOUND_ENABLED
| TRIAL_WINDOW_MISSING | TRIAL_WINDOW_INVALID | TRIAL_NOT_STARTED | TRIAL_EXPIRED
| ENTITLEMENT_PROFILE_REVISION_UNINITIALIZED | ENTITLEMENT_PROFILE_INCOMPLETE
| ENTITLEMENT_MISSING | ENTITLEMENT_AMBIGUOUS | ENTITLEMENT_PROFILE_REVISION_MISMATCH
| ENTITLEMENT_INVALID | ENTITLEMENT_NOT_STARTED | ENTITLEMENT_EXPIRED
| ENTITLEMENT_READ_DISABLED | ENTITLEMENT_WRITE_DISABLED | ENTITLEMENT_OUTBOUND_DISABLED

datatype reason_code = ALLOWED | DENIED denial_reason

text \<open>\<open>PersistedTenantExecutionSubject\<close>: the tenant row and its optional entitlement rows.\<close>

record subject = tenant +
  moduleEntitlements :: "entitlement list option"

record decision =
  allowed :: bool
  d_tenantId :: string
  reasonCode :: reason_code
  d_module :: "tenant_module option"
  d_action :: "execution_action option"
  d_profileRevision :: int

definition allow ::
  "subject \<Rightarrow> tenant_module option \<Rightarrow> execution_action option \<Rightarrow> decision" where
  "allow s m a =
     \<lparr>allowed = True, d_tenantId = tenant_id s, reasonCode = ALLOWED, d_module = m, d_action = a,
      d_profileRevision = entitlementProfileRevision s\<rparr>"

definition deny ::
  "subject \<Rightarrow> denial_reason \<Rightarrow> tenant_module option \<Rightarrow> execution_action option \<Rightarrow> decision" where
  "deny s r m a =
     \<lparr>allowed = False, d_tenantId = tenant_id s, reasonCode = DENIED r, d_module = m, d_action = a,
      d_profileRevision = entitlementProfileRevision s\<rparr>"

lemma allow_simps [simp]:
  "allowed (allow s m a)" "reasonCode (allow s m a) = ALLOWED" "d_tenantId (allow s m a) = tenant_id s"
  "d_module (allow s m a) = m" "d_action (allow s m a) = a"
  by (simp_all add: allow_def)

lemma deny_simps [simp]:
  "\<not> allowed (deny s r m a)" "reasonCode (deny s r m a) = DENIED r"
  "d_tenantId (deny s r m a) = tenant_id s" "d_module (deny s r m a) = m" "d_action (deny s r m a) = a"
  by (simp_all add: deny_def)

section \<open>The checks\<close>

definition session_admitted_onboarding :: "onboarding_status \<Rightarrow> bool" where
  "session_admitted_onboarding s \<longleftrightarrow> s \<in> set [ONBOARDING, READY, OB_ACTIVE]"

definition activation_admitted_onboarding :: "onboarding_status \<Rightarrow> bool" where
  "activation_admitted_onboarding s \<longleftrightarrow> s \<in> set [OWNER_INVITED, ONBOARDING, READY, OB_ACTIVE]"

definition invite_admitted_onboarding :: "onboarding_status \<Rightarrow> bool" where
  "invite_admitted_onboarding s \<longleftrightarrow> s \<in> set [OWNER_INVITED, ONBOARDING, READY, OB_ACTIVE]"

definition evaluate_trial_window :: "subject \<Rightarrow> jsdate \<Rightarrow> decision option" where
  "evaluate_trial_window s now =
     (if \<not> trial_bound_stage (customerStage s) then None
      else case (trialStartsAt s, trialEndsAt s) of
        (Some starts, Some ends) \<Rightarrow>
          if \<not> valid_date starts \<or> \<not> valid_date ends \<or> date_ge starts ends
          then Some (deny s TRIAL_WINDOW_INVALID None None)
          else if date_less now starts then Some (deny s TRIAL_NOT_STARTED None None)
          else if date_ge now ends then Some (deny s TRIAL_EXPIRED None None)
          else None
      | _ \<Rightarrow> Some (deny s TRIAL_WINDOW_MISSING None None))"

definition entitlement_rows :: "subject \<Rightarrow> entitlement list" where
  "entitlement_rows s = get_or (moduleEntitlements s) []"

definition revision_uninitialized :: "int \<Rightarrow> bool" where
  "revision_uninitialized r \<longleftrightarrow> \<not> is_safe_int r \<or> r < 1"

definition profile_incomplete :: "entitlement list \<Rightarrow> bool" where
  "profile_incomplete es \<longleftrightarrow>
     (let modules = js_uniq (map ent_module es)
      in length es \<noteq> length complete_module_profile \<or> length modules \<noteq> length es \<or>
         (\<exists>m\<in>set complete_module_profile. m \<notin> set modules))"

definition evaluate_external_profile :: "subject \<Rightarrow> decision option" where
  "evaluate_external_profile s =
     (if customerStage s = INTERNAL then None
      else if revision_uninitialized (entitlementProfileRevision s)
      then Some (deny s ENTITLEMENT_PROFILE_REVISION_UNINITIALIZED None None)
      else if profile_incomplete (entitlement_rows s)
      then Some (deny s ENTITLEMENT_PROFILE_INCOMPLETE None None)
      else if \<exists>e\<in>set (entitlement_rows s). profileRevision e \<noteq> entitlementProfileRevision s
      then Some (deny s ENTITLEMENT_PROFILE_REVISION_MISMATCH None None)
      else None)"

definition entitlement_invalid :: "entitlement \<Rightarrow> bool" where
  "entitlement_invalid e \<longleftrightarrow>
     \<not> is_safe_int (profileRevision e) \<or> profileRevision e < 1 \<or>
     (writeEnabled e \<and> \<not> readEnabled e) \<or>
     (outboundEnabled e \<and> \<not> writeEnabled e) \<or>
     (case validFrom e of None \<Rightarrow> False | Some d \<Rightarrow> \<not> valid_date d) \<or>
     (case validUntil e of None \<Rightarrow> False | Some d \<Rightarrow> \<not> valid_date d) \<or>
     (case (validFrom e, validUntil e) of (Some a, Some b) \<Rightarrow> date_ge a b | _ \<Rightarrow> False)"

definition evaluate_entitlement ::
  "subject \<Rightarrow> entitlement \<Rightarrow> tenant_module \<Rightarrow> execution_action \<Rightarrow> jsdate \<Rightarrow> decision" where
  "evaluate_entitlement s e m a now =
     (if profileRevision e \<noteq> entitlementProfileRevision s
      then deny s ENTITLEMENT_PROFILE_REVISION_MISMATCH (Some m) (Some a)
      else if entitlement_invalid e then deny s ENTITLEMENT_INVALID (Some m) (Some a)
      else if (case validFrom e of None \<Rightarrow> False | Some d \<Rightarrow> date_less now d)
      then deny s ENTITLEMENT_NOT_STARTED (Some m) (Some a)
      else if (case validUntil e of None \<Rightarrow> False | Some d \<Rightarrow> date_ge now d)
      then deny s ENTITLEMENT_EXPIRED (Some m) (Some a)
      else if \<not> readEnabled e then deny s ENTITLEMENT_READ_DISABLED (Some m) (Some a)
      else if (a = WRITE \<or> a = OUTBOUND) \<and> \<not> writeEnabled e
      then deny s ENTITLEMENT_WRITE_DISABLED (Some m) (Some a)
      else if a = OUTBOUND \<and> \<not> outboundEnabled e
      then deny s ENTITLEMENT_OUTBOUND_DISABLED (Some m) (Some a)
      else allow s (Some m) (Some a))"

section \<open>The four decisions\<close>

definition evaluate_session :: "subject \<Rightarrow> jsdate \<Rightarrow> decision" where
  "evaluate_session s now =
     (if status s \<noteq> LC_ACTIVE then deny s TENANT_INACTIVE None None
      else if \<not> session_admitted_onboarding (onboardingStatus s)
      then deny s TENANT_ONBOARDING_BLOCKED None None
      else case evaluate_trial_window s now of Some d \<Rightarrow> d
      | None \<Rightarrow> (case evaluate_external_profile s of Some d \<Rightarrow> d | None \<Rightarrow> allow s None None))"

definition evaluate_invite :: "subject \<Rightarrow> jsdate \<Rightarrow> decision" where
  "evaluate_invite s now =
     (if status s \<noteq> LC_ACTIVE then deny s TENANT_INACTIVE None None
      else if \<not> invite_admitted_onboarding (onboardingStatus s)
      then deny s TENANT_ONBOARDING_BLOCKED None None
      else case evaluate_trial_window s now of Some d \<Rightarrow> d
      | None \<Rightarrow> (case evaluate_external_profile s of Some d \<Rightarrow> d | None \<Rightarrow> allow s None None))"

text \<open>The loop of \<open>evaluateActivation\<close> over the complete profile: the first denial, if any.\<close>

fun activation_denial ::
  "subject \<Rightarrow> jsdate \<Rightarrow> entitlement list \<Rightarrow> tenant_module list \<Rightarrow> decision option" where
  "activation_denial s now es [] = None"
| "activation_denial s now es (m # ms) =
     (case find (\<lambda>e. ent_module e = m) es of
        None \<Rightarrow> Some (deny s ENTITLEMENT_PROFILE_INCOMPLETE None None)
      | Some e \<Rightarrow>
          if outboundEnabled e then Some (deny s TENANT_ACTIVATION_OUTBOUND_ENABLED None None)
          else (let d = evaluate_entitlement s e m WRITE now
                in if \<not> allowed d then Some d else activation_denial s now es ms))"

definition evaluate_activation :: "subject \<Rightarrow> jsdate \<Rightarrow> decision" where
  "evaluate_activation s now =
     (if status s \<noteq> SUSPENDED then deny s TENANT_ACTIVATION_LIFECYCLE_BLOCKED None None
      else if \<not> activation_admitted_onboarding (onboardingStatus s)
      then deny s TENANT_ACTIVATION_ONBOARDING_BLOCKED None None
      else case evaluate_trial_window s now of Some d \<Rightarrow> d
      | None \<Rightarrow>
          if revision_uninitialized (entitlementProfileRevision s)
          then deny s ENTITLEMENT_PROFILE_REVISION_UNINITIALIZED None None
          else if profile_incomplete (entitlement_rows s)
          then deny s ENTITLEMENT_PROFILE_INCOMPLETE None None
          else (case activation_denial s now (entitlement_rows s) complete_module_profile of
                  Some d \<Rightarrow> d | None \<Rightarrow> allow s None None))"

definition evaluate_module ::
  "subject \<Rightarrow> tenant_module \<Rightarrow> execution_action \<Rightarrow> jsdate \<Rightarrow> decision" where
  "evaluate_module s m a now =
     (let session = evaluate_session s now
      in if \<not> allowed session then session\<lparr>d_module := Some m, d_action := Some a\<rparr>
      else if revision_uninitialized (entitlementProfileRevision s)
      then deny s ENTITLEMENT_PROFILE_REVISION_UNINITIALIZED (Some m) (Some a)
      else case filter (\<lambda>e. ent_module e = m) (entitlement_rows s) of
        [] \<Rightarrow> deny s ENTITLEMENT_MISSING (Some m) (Some a)
      | [e] \<Rightarrow> evaluate_entitlement s e m a now
      | _ \<Rightarrow> deny s ENTITLEMENT_AMBIGUOUS (Some m) (Some a))"

text \<open>The \<open>assert...Allowed\<close> methods throw with the reason of the denial.\<close>

datatype policy_error =
  Unauthorized_Session reason_code | Unauthorized_Invite reason_code
| Forbidden_Activation reason_code | Forbidden_Module reason_code

definition assert_session_allowed :: "subject \<Rightarrow> jsdate \<Rightarrow> policy_error + unit" where
  "assert_session_allowed s now =
     (let d = evaluate_session s now
      in if \<not> allowed d then Inl (Unauthorized_Session (reasonCode d)) else Inr ())"

definition assert_module_allowed ::
  "subject \<Rightarrow> tenant_module \<Rightarrow> execution_action \<Rightarrow> jsdate \<Rightarrow> policy_error + unit" where
  "assert_module_allowed s m a now =
     (let d = evaluate_module s m a now
      in if \<not> allowed d then Inl (Forbidden_Module (reasonCode d)) else Inr ())"

definition assert_invite_allowed :: "subject \<Rightarrow> jsdate \<Rightarrow> policy_error + unit" where
  "assert_invite_allowed s now =
     (let d = evaluate_invite s now
      in if \<not> allowed d then Inl (Unauthorized_Invite (reasonCode d)) else Inr ())"

definition assert_activation_allowed :: "subject \<Rightarrow> jsdate \<Rightarrow> policy_error + unit" where
  "assert_activation_allowed s now =
     (let d = evaluate_activation s now
      in if \<not> allowed d then Inl (Forbidden_Activation (reasonCode d)) else Inr ())"


section \<open>What an admission means\<close>

fun grant_window :: "jsdate option \<Rightarrow> jsdate option \<Rightarrow> int \<Rightarrow> bool" where
  "grant_window from until t =
     ((case from of None \<Rightarrow> True | Some d \<Rightarrow> (\<exists>a. d = At a \<and> a \<le> t)) \<and>
      (case until of None \<Rightarrow> True | Some d \<Rightarrow> (\<exists>b. d = At b \<and> t < b)))"

definition trial_spec :: "subject \<Rightarrow> int \<Rightarrow> bool" where
  "trial_spec s t \<longleftrightarrow>
     (trial_bound_stage (customerStage s) \<longrightarrow>
        (\<exists>a b. trialStartsAt s = Some (At a) \<and> trialEndsAt s = Some (At b) \<and> a \<le> t \<and> t < b))"

definition revision_spec :: "int \<Rightarrow> bool" where
  "revision_spec r \<longleftrightarrow> 1 \<le> r \<and> r \<le> 9007199254740991"

definition complete_spec :: "entitlement list \<Rightarrow> bool" where
  "complete_spec es \<longleftrightarrow> mset (map ent_module es) = mset complete_module_profile"

definition external_profile_spec :: "subject \<Rightarrow> bool" where
  "external_profile_spec s \<longleftrightarrow>
     (customerStage s \<noteq> INTERNAL \<longrightarrow>
        revision_spec (entitlementProfileRevision s) \<and> complete_spec (entitlement_rows s) \<and>
        (\<forall>e\<in>set (entitlement_rows s). profileRevision e = entitlementProfileRevision s))"

definition session_spec :: "subject \<Rightarrow> int \<Rightarrow> bool" where
  "session_spec s t \<longleftrightarrow>
     status s = LC_ACTIVE \<and> onboardingStatus s \<in> {ONBOARDING, READY, OB_ACTIVE} \<and>
     trial_spec s t \<and> external_profile_spec s"

fun action_flag :: "execution_action \<Rightarrow> entitlement \<Rightarrow> bool" where
  "action_flag READ e = readEnabled e"
| "action_flag WRITE e = writeEnabled e"
| "action_flag OUTBOUND e = outboundEnabled e"

text \<open>The grant of one entitlement row, with the row's own consistency.\<close>

definition entitlement_spec :: "subject \<Rightarrow> entitlement \<Rightarrow> execution_action \<Rightarrow> int \<Rightarrow> bool" where
  "entitlement_spec s e a t \<longleftrightarrow>
     profileRevision e = entitlementProfileRevision s \<and> revision_spec (profileRevision e) \<and>
     (outboundEnabled e \<longrightarrow> writeEnabled e) \<and> (writeEnabled e \<longrightarrow> readEnabled e) \<and>
     grant_window (validFrom e) (validUntil e) t \<and> action_flag a e"

definition module_spec :: "subject \<Rightarrow> tenant_module \<Rightarrow> execution_action \<Rightarrow> int \<Rightarrow> bool" where
  "module_spec s m a t \<longleftrightarrow>
     session_spec s t \<and> revision_spec (entitlementProfileRevision s) \<and>
     (\<exists>e. filter (\<lambda>e. ent_module e = m) (entitlement_rows s) = [e] \<and> entitlement_spec s e a t)"

text \<open>The actions are ordered by the authority they need.\<close>

fun action_rank :: "execution_action \<Rightarrow> nat" where
  "action_rank READ = 0"
| "action_rank WRITE = 1"
| "action_rank OUTBOUND = 2"

instantiation execution_action :: linorder
begin

definition less_eq_execution_action :: "execution_action \<Rightarrow> execution_action \<Rightarrow> bool" where
  "less_eq_execution_action a b \<longleftrightarrow> action_rank a \<le> action_rank b"

definition less_execution_action :: "execution_action \<Rightarrow> execution_action \<Rightarrow> bool" where
  "less_execution_action a b \<longleftrightarrow> action_rank a < action_rank b"

instance
proof
  fix x y z :: execution_action
  show "x < y \<longleftrightarrow> x \<le> y \<and> \<not> y \<le> x" and "x \<le> x" and "x \<le> y \<or> y \<le> x"
    and "x \<le> y \<Longrightarrow> y \<le> z \<Longrightarrow> x \<le> z"
    by (auto simp: less_execution_action_def less_eq_execution_action_def)
  show "x \<le> y \<Longrightarrow> y \<le> x \<Longrightarrow> x = y"
    by (cases x; cases y) (auto simp: less_eq_execution_action_def)
qed

end

section \<open>The decisions implement the specification\<close>

lemma revision_uninitialized_iff: "revision_uninitialized r \<longleftrightarrow> \<not> revision_spec r"
  by (auto simp: revision_uninitialized_def revision_spec_def is_safe_int_def)

lemma profile_incomplete_iff: "profile_incomplete es \<longleftrightarrow> \<not> complete_spec es"
proof -
  let ?ms = "map ent_module es"
  have "mset ?ms = mset complete_module_profile"
    if "length es = 6" "length (js_uniq ?ms) = length es"
  proof -
    have "card (set ?ms) = length ?ms"
      using that(2) by (metis distinct_card distinct_js_uniq length_map set_js_uniq)
    then have "distinct ?ms" by (rule card_distinct)
    moreover have "set ?ms \<subseteq> set complete_module_profile"
      by (auto intro: complete_profile_all)
    moreover have "card (set ?ms) = card (set complete_module_profile)"
      using that(1) \<open>distinct ?ms\<close>
      by (simp add: distinct_card distinct_complete_profile length_complete_profile del: set_map)
    ultimately have "set ?ms = set complete_module_profile"
      by (meson List.finite_set card_subset_eq)
    then show ?thesis
      using \<open>distinct ?ms\<close> distinct_complete_profile set_eq_iff_mset_eq_distinct by blast
  qed
  moreover have "length es = 6 \<and> length (js_uniq ?ms) = length es \<and>
      (\<forall>m\<in>set complete_module_profile. m \<in> set (js_uniq ?ms))"
    if eq: "mset ?ms = mset complete_module_profile"
  proof -
    have "length ?ms = 6" using mset_eq_length [OF eq] by (simp add: length_complete_profile)
    moreover have "distinct ?ms"
      using eq distinct_complete_profile mset_eq_imp_distinct_iff by blast
    ultimately show ?thesis
      using mset_eq_setD [OF eq] by (simp add: js_uniq_distinct del: set_map)
  qed
  ultimately show ?thesis
    unfolding profile_incomplete_def complete_spec_def Let_def length_complete_profile by blast
qed

lemma trial_window_iff: "evaluate_trial_window s (At t) = None \<longleftrightarrow> trial_spec s t"
  by (auto simp: evaluate_trial_window_def trial_spec_def valid_date_iff split: option.splits)

lemma external_profile_iff: "evaluate_external_profile s = None \<longleftrightarrow> external_profile_spec s"
  by (auto simp: evaluate_external_profile_def external_profile_spec_def
      revision_uninitialized_iff profile_incomplete_iff)

lemma trial_window_denies: "evaluate_trial_window s now = Some d \<Longrightarrow> \<exists>r. d = deny s r None None"
  by (auto simp: evaluate_trial_window_def split: option.splits if_splits)

lemma external_profile_denies: "evaluate_external_profile s = Some d \<Longrightarrow> \<exists>r. d = deny s r None None"
  by (auto simp: evaluate_external_profile_def split: if_splits)

text \<open>Every decision is an admission or a denial of the subject it was asked about.\<close>

definition decides ::
  "subject \<Rightarrow> tenant_module option \<Rightarrow> execution_action option \<Rightarrow> decision \<Rightarrow> bool" where
  "decides s m a d \<longleftrightarrow> d = allow s m a \<or> (\<exists>r. d = deny s r m a)"

lemma decides_simps [simp]: "decides s m a (allow s m a)" "decides s m a (deny s r m a)"
  by (auto simp: decides_def)

lemma decides_reason: "decides s m a d \<Longrightarrow> allowed d \<longleftrightarrow> reasonCode d = ALLOWED"
  by (auto simp: decides_def)

lemma decides_tenant: "decides s m a d \<Longrightarrow> d_tenantId d = tenant_id s"
  by (auto simp: decides_def)

lemma trial_window_decides: "evaluate_trial_window s now = Some d \<Longrightarrow> decides s None None d"
  using trial_window_denies [of s now d] by auto

lemma external_profile_decides: "evaluate_external_profile s = Some d \<Longrightarrow> decides s None None d"
  using external_profile_denies [of s d] by auto

lemma evaluate_session_decides: "decides s None None (evaluate_session s now)"
  by (auto simp: evaluate_session_def split: option.splits
      intro: trial_window_decides external_profile_decides)

lemma evaluate_invite_decides: "decides s None None (evaluate_invite s now)"
  by (auto simp: evaluate_invite_def split: option.splits
      intro: trial_window_decides external_profile_decides)

lemma evaluate_entitlement_decides: "decides s (Some m) (Some a) (evaluate_entitlement s e m a now)"
  by (simp add: evaluate_entitlement_def)

lemma evaluate_module_decides: "decides s (Some m) (Some a) (evaluate_module s m a now)"
proof (cases "allowed (evaluate_session s now)")
  case True
  then show ?thesis
    by (simp add: evaluate_module_def evaluate_entitlement_decides split: list.split)
next
  case False
  then obtain r where "evaluate_session s now = deny s r None None"
    using evaluate_session_decides [of s now] by (auto simp: decides_def)
  then have "evaluate_module s m a now = deny s r (Some m) (Some a)"
    by (simp add: evaluate_module_def deny_def)
  then show ?thesis by simp
qed

lemma session_allowed_iff: "allowed (evaluate_session s (At t)) \<longleftrightarrow> session_spec s t"
  using trial_window_iff [of s t] external_profile_iff [of s]
  by (auto simp: evaluate_session_def session_spec_def session_admitted_onboarding_def
      split: option.splits dest: trial_window_denies external_profile_denies)

lemma invite_allowed_iff:
  "allowed (evaluate_invite s (At t)) \<longleftrightarrow>
     status s = LC_ACTIVE \<and> onboardingStatus s \<in> {OWNER_INVITED, ONBOARDING, READY, OB_ACTIVE} \<and>
     trial_spec s t \<and> external_profile_spec s"
  using trial_window_iff [of s t] external_profile_iff [of s]
  by (auto simp: evaluate_invite_def invite_admitted_onboarding_def
      split: option.splits dest: trial_window_denies external_profile_denies)

lemma grant_window_iff:
  assumes "\<not> entitlement_invalid e"
  shows "grant_window (validFrom e) (validUntil e) t \<longleftrightarrow>
    \<not> (case validFrom e of None \<Rightarrow> False | Some d \<Rightarrow> date_less (At t) d) \<and>
    \<not> (case validUntil e of None \<Rightarrow> False | Some d \<Rightarrow> date_ge (At t) d)"
  using assms
  by (auto simp: entitlement_invalid_def valid_date_iff not_less not_le split: option.splits)

lemma entitlement_spec_valid: "entitlement_spec s e a t \<Longrightarrow> \<not> entitlement_invalid e"
  by (auto simp: entitlement_spec_def entitlement_invalid_def revision_spec_def is_safe_int_def
      split: option.splits)

lemma entitlement_allowed_iff:
  "allowed (evaluate_entitlement s e m a (At t)) \<longleftrightarrow> entitlement_spec s e a t"
proof (cases "entitlement_invalid e")
  case True
  then have "\<not> entitlement_spec s e a t" using entitlement_spec_valid by blast
  with True show ?thesis by (simp add: evaluate_entitlement_def)
next
  case False
  then show ?thesis
    using grant_window_iff [OF False, of t]
    by (cases a) (auto simp: evaluate_entitlement_def entitlement_spec_def revision_spec_def
        entitlement_invalid_def is_safe_int_def split: option.splits)
qed

lemma module_allowed_iff: "allowed (evaluate_module s m a (At t)) \<longleftrightarrow> module_spec s m a t"
  by (auto simp: evaluate_module_def module_spec_def Let_def session_allowed_iff
      revision_uninitialized_iff entitlement_allowed_iff split: list.splits)

section \<open>Activation\<close>

definition activation_spec :: "subject \<Rightarrow> int \<Rightarrow> bool" where
  "activation_spec s t \<longleftrightarrow>
     status s = SUSPENDED \<and> onboardingStatus s \<in> {OWNER_INVITED, ONBOARDING, READY, OB_ACTIVE} \<and>
     trial_spec s t \<and> revision_spec (entitlementProfileRevision s) \<and>
     complete_spec (entitlement_rows s) \<and>
     (\<forall>e\<in>set (entitlement_rows s). \<not> outboundEnabled e \<and> entitlement_spec s e WRITE t)"

lemma complete_spec_single:
  assumes "complete_spec es"
  shows "\<exists>e. filter (\<lambda>e. ent_module e = m) es = [e]"
proof -
  have "count (mset (map ent_module es)) m = 1"
    using assms distinct_complete_profile complete_profile_all [of m]
    unfolding complete_spec_def by (metis count_mset_0_iff distinct_count_atmost_1)
  moreover have "count (mset (map ent_module es)) m = length (filter (\<lambda>e. ent_module e = m) es)"
    by (induction es) auto
  ultimately show ?thesis
    by (metis One_nat_def length_0_conv length_Suc_conv)
qed

lemma find_filter_single: "filter P es = [e] \<Longrightarrow> find P es = Some e"
  by (induction es) (auto split: if_splits)

lemma filter_single_set: "filter P es = [e] \<Longrightarrow> {x \<in> set es. P x} = {e}"
  by (metis list.set(1) list.simps(15) set_filter)

lemma filter_single_mem: "filter P es = [e] \<Longrightarrow> e \<in> set es \<and> P e"
  using filter_single_set by fastforce

lemma filter_single_unique: "filter P es = [e] \<Longrightarrow> e' \<in> set es \<Longrightarrow> P e' \<Longrightarrow> e' = e"
  using filter_single_set by fastforce

lemma activation_denial_iff:
  assumes "complete_spec es"
  shows "activation_denial s (At t) es ms = None \<longleftrightarrow>
    (\<forall>e\<in>set es. ent_module e \<in> set ms \<longrightarrow> \<not> outboundEnabled e \<and> entitlement_spec s e WRITE t)"
proof (induction ms)
  case Nil
  then show ?case by simp
next
  case (Cons m ms)
  obtain e where e: "filter (\<lambda>e. ent_module e = m) es = [e]"
    using complete_spec_single [OF assms] by blast
  let ?Q = "\<lambda>e. \<not> outboundEnabled e \<and> entitlement_spec s e WRITE t"
  have "(\<forall>e'\<in>set es. ent_module e' \<in> set (m # ms) \<longrightarrow> ?Q e') \<longleftrightarrow>
      (\<forall>e'\<in>set es. ent_module e' = m \<longrightarrow> ?Q e') \<and> (\<forall>e'\<in>set es. ent_module e' \<in> set ms \<longrightarrow> ?Q e')"
    by auto
  also have "(\<forall>e'\<in>set es. ent_module e' = m \<longrightarrow> ?Q e') \<longleftrightarrow> ?Q e"
    using filter_single_mem [OF e] filter_single_unique [OF e] by metis
  finally show ?case
    using Cons.IH find_filter_single [OF e] by (simp add: Let_def entitlement_allowed_iff)
qed

definition answers :: "subject \<Rightarrow> decision \<Rightarrow> bool" where
  "answers s d \<longleftrightarrow> (\<exists>m a. decides s m a d)"

lemma answers_simps [simp]: "answers s (allow s m a)" "answers s (deny s r m a)"
  by (auto simp: answers_def intro: decides_simps)

lemma answersI: "decides s m a d \<Longrightarrow> answers s d"
  by (auto simp: answers_def)

lemma activation_denial_answers:
  "activation_denial s now es ms = Some d \<Longrightarrow> answers s d \<and> \<not> allowed d"
proof (induction ms)
  case Nil
  then show ?case by simp
next
  case (Cons m ms)
  show ?case
  proof (cases "find (\<lambda>e. ent_module e = m) es")
    case None
    then have "d = deny s ENTITLEMENT_PROFILE_INCOMPLETE None None" using Cons.prems by simp
    then show ?thesis by simp
  next
    case (Some e)
    have "answers s (evaluate_entitlement s e m WRITE now)"
      by (rule answersI [OF evaluate_entitlement_decides])
    then show ?thesis
      using Some Cons by (auto simp: Let_def simp del: One_nat_def split: if_split_asm)
  qed
qed

lemma evaluate_activation_answers: "answers s (evaluate_activation s now)"
  by (auto simp: evaluate_activation_def split: option.splits
      intro: answersI [OF trial_window_decides] activation_denial_answers [THEN conjunct1])

lemma activation_allowed_iff: "allowed (evaluate_activation s (At t)) \<longleftrightarrow> activation_spec s t"
proof -
  have denied: "\<not> allowed d"
    if "activation_denial s (At t) (entitlement_rows s) complete_module_profile = Some d" for d
    using activation_denial_answers [OF that] by blast
  have denied': "\<not> allowed d" if "evaluate_trial_window s (At t) = Some d" for d
    using trial_window_denies [OF that] by auto
  show ?thesis
    using trial_window_iff [of s t]
      activation_denial_iff [of "entitlement_rows s" s t complete_module_profile]
    by (auto simp: evaluate_activation_def activation_spec_def activation_admitted_onboarding_def
        revision_uninitialized_iff profile_incomplete_iff complete_profile_all
        split: option.splits dest: denied denied')
qed

section \<open>The contract the four decisions share\<close>

locale admission_gate =
  fixes decide :: "subject \<Rightarrow> jsdate \<Rightarrow> decision"
  assumes gate_reason: "allowed (decide s now) \<longleftrightarrow> reasonCode (decide s now) = ALLOWED"
    and gate_tenant: "d_tenantId (decide s now) = tenant_id s"
    and gate_convex: "allowed (decide s (At a)) \<Longrightarrow> allowed (decide s (At c)) \<Longrightarrow>
      a \<le> b \<Longrightarrow> b \<le> c \<Longrightarrow> allowed (decide s (At b))"
begin

lemma denied_reason: "\<not> allowed (decide s now) \<Longrightarrow> \<exists>r. reasonCode (decide s now) = DENIED r"
  using gate_reason by (metis reason_code.exhaust)

text \<open>A gate that has closed does not open again by the passing of time.\<close>

lemma closed_stays_closed:
  "allowed (decide s (At a)) \<Longrightarrow> \<not> allowed (decide s (At b)) \<Longrightarrow> a \<le> b \<Longrightarrow> b \<le> c \<Longrightarrow>
    \<not> allowed (decide s (At c))"
  using gate_convex by blast

end

lemma grant_window_convex:
  "grant_window f u a \<Longrightarrow> grant_window f u c \<Longrightarrow> a \<le> b \<Longrightarrow> b \<le> c \<Longrightarrow> grant_window f u b"
  by (auto split: option.splits)

lemma trial_convex: "trial_spec s a \<Longrightarrow> trial_spec s c \<Longrightarrow> a \<le> b \<Longrightarrow> b \<le> c \<Longrightarrow> trial_spec s b"
  by (auto simp: trial_spec_def)

lemma entitlement_convex:
  "entitlement_spec s e x a \<Longrightarrow> entitlement_spec s e x c \<Longrightarrow> a \<le> b \<Longrightarrow> b \<le> c \<Longrightarrow>
    entitlement_spec s e x b"
  unfolding entitlement_spec_def using grant_window_convex by blast

interpretation session_gate: admission_gate evaluate_session
  by unfold_locales
    (auto simp: session_allowed_iff session_spec_def intro: trial_convex
      decides_tenant [OF evaluate_session_decides]
      dest: decides_reason [OF evaluate_session_decides, THEN iffD1]
        decides_reason [OF evaluate_session_decides, THEN iffD2])

interpretation invite_gate: admission_gate evaluate_invite
  by unfold_locales
    (auto simp: invite_allowed_iff intro: trial_convex
      decides_tenant [OF evaluate_invite_decides]
      dest: decides_reason [OF evaluate_invite_decides, THEN iffD1]
        decides_reason [OF evaluate_invite_decides, THEN iffD2])

interpretation activation_gate: admission_gate evaluate_activation
proof
  fix s now
  show "allowed (evaluate_activation s now) \<longleftrightarrow> reasonCode (evaluate_activation s now) = ALLOWED"
    and "d_tenantId (evaluate_activation s now) = tenant_id s"
    using evaluate_activation_answers [of s now] unfolding answers_def
    by (blast dest: decides_reason decides_tenant)+
next
  fix s a b c
  assume "allowed (evaluate_activation s (At a))" "allowed (evaluate_activation s (At c))"
    and "a \<le> b" "b \<le> c"
  then show "allowed (evaluate_activation s (At b))"
    using trial_convex entitlement_convex
    unfolding activation_allowed_iff activation_spec_def by blast
qed

interpretation module_gate: admission_gate "\<lambda>s. evaluate_module s m a" for m a
proof
  fix s now
  show "allowed (evaluate_module s m a now) \<longleftrightarrow> reasonCode (evaluate_module s m a now) = ALLOWED"
    and "d_tenantId (evaluate_module s m a now) = tenant_id s"
    using decides_reason [OF evaluate_module_decides] decides_tenant [OF evaluate_module_decides]
    by auto
next
  fix s i j k
  assume *: "allowed (evaluate_module s m a (At i))" "allowed (evaluate_module s m a (At k))"
    and ord: "i \<le> j" "j \<le> k"
  then have "session_spec s j"
    using session_gate.gate_convex [of s i k j]
    by (simp add: module_allowed_iff module_spec_def session_allowed_iff)
  with * ord show "allowed (evaluate_module s m a (At j))"
    by (auto simp: module_allowed_iff module_spec_def intro: entitlement_convex)
qed

section \<open>Properties\<close>

text \<open>A concrete pilot tenant with a complete profile that grants reading and writing.\<close>

definition sample_entitlement :: "tenant_module \<Rightarrow> entitlement" where
  "sample_entitlement m =
     \<lparr>ent_module = m, readEnabled = True, writeEnabled = True, outboundEnabled = False,
      validFrom = None, validUntil = Some (At 900), profileRevision = 1\<rparr>"

definition sample_subject :: "lifecycle_status \<Rightarrow> subject" where
  "sample_subject st =
     \<lparr>tenant_id = ''t1'', tenant_name = ''Club'', tenant_slug = ''club'', status = st,
      customerStage = PILOT, onboardingStatus = READY, cohortKey = None, supportOwnerUserId = None,
      trialStartsAt = Some (At 100), trialEndsAt = Some (At 1000), entitlementProfileRevision = 1,
      executionRevision = 4, updatedAt = 50,
      moduleEntitlements = Some (map sample_entitlement complete_module_profile)\<rparr>"

lemmas sample_defs = sample_subject_def sample_entitlement_def complete_module_profile_def
  entitlement_rows_def

lemma sample_session_spec: "session_spec (sample_subject LC_ACTIVE) t \<longleftrightarrow> 100 \<le> t \<and> t < 1000"
  by (auto simp: session_spec_def trial_spec_def external_profile_spec_def complete_spec_def
      revision_spec_def trial_bound_stage_def sample_defs)

lemma sample_module_spec:
  "module_spec (sample_subject LC_ACTIVE) m a t \<longleftrightarrow> 100 \<le> t \<and> t < 900 \<and> a \<noteq> OUTBOUND"
proof -
  have "filter (\<lambda>e. ent_module e = m) (entitlement_rows (sample_subject LC_ACTIVE)) = [sample_entitlement m]"
    by (cases m) (simp_all add: sample_defs)
  moreover have "entitlement_spec (sample_subject LC_ACTIVE) (sample_entitlement m) a t \<longleftrightarrow>
      t < 900 \<and> a \<noteq> OUTBOUND"
    by (cases a) (auto simp: entitlement_spec_def revision_spec_def sample_defs)
  moreover have "revision_spec (entitlementProfileRevision (sample_subject LC_ACTIVE))"
    by (simp add: revision_spec_def sample_defs)
  ultimately show ?thesis
    by (auto simp: module_spec_def sample_session_spec)
qed

text \<open>
  C1: Module admission is exact. The module gate lets a request pass precisely when the tenant is
  active and admitted, its trial window is open, its entitlement profile is complete and of the
  current revision, and exactly one entitlement row of the module grants the action at that instant;
  in every other case it throws the forbidden error.
\<close>

theorem module_gate_exact:
  "(assert_module_allowed s m a (At t) = Inr () \<longleftrightarrow> module_spec s m a t) \<and>
   (\<not> module_spec s m a t \<longrightarrow>
      (\<exists>r. assert_module_allowed s m a (At t) = Inl (Forbidden_Module (DENIED r))))"
  using module_gate.denied_reason [of s m a "At t"]
  by (auto simp: assert_module_allowed_def Let_def module_allowed_iff)

theorem module_gate_exact_witness:
  "assert_module_allowed (sample_subject LC_ACTIVE) STAFF WRITE (At 500) = Inr () \<and>
   (\<exists>r. assert_module_allowed (sample_subject LC_ACTIVE) STAFF OUTBOUND (At 500) =
      Inl (Forbidden_Module (DENIED r)))"
  using module_gate_exact [of "sample_subject LC_ACTIVE" STAFF WRITE 500]
    module_gate_exact [of "sample_subject LC_ACTIVE" STAFF OUTBOUND 500]
  by (simp add: sample_module_spec)

text \<open>
  Authority is monotone. A tenant that may do the stronger action on a module (outbound above
  write above read) may do the weaker one at the same instant.
\<close>

theorem module_authority_monotone:
  assumes "a \<le> b" and "allowed (evaluate_module s m b (At t))"
  shows "allowed (evaluate_module s m a (At t))"
proof -
  have "action_flag b e \<Longrightarrow> writeEnabled e \<longrightarrow> readEnabled e \<Longrightarrow> outboundEnabled e \<longrightarrow> writeEnabled e
      \<Longrightarrow> action_flag a e" for e
    using assms(1) by (cases a; cases b) (auto simp: less_eq_execution_action_def)
  with assms(2) show ?thesis
    by (auto simp: module_allowed_iff module_spec_def entitlement_spec_def)
qed

theorem module_authority_monotone_witness:
  "allowed (evaluate_module (sample_subject LC_ACTIVE) STAFF READ (At 500))"
  by (rule module_authority_monotone [of _ WRITE])
    (simp_all add: less_eq_execution_action_def module_allowed_iff sample_module_spec)

text \<open>
  A closed window stays closed. Once a module gate that was open has closed by the passing of
  time (trial over, grant expired), no later instant reopens it for the same persisted subject.
\<close>

theorem module_gate_never_reopens:
  assumes "allowed (evaluate_module s m x (At a))" and "\<not> allowed (evaluate_module s m x (At b))"
    and "a \<le> b" and "b \<le> c"
  shows "\<not> allowed (evaluate_module s m x (At c))"
  using assms by (rule module_gate.closed_stays_closed)

theorem module_gate_never_reopens_witness:
  "\<not> allowed (evaluate_module (sample_subject LC_ACTIVE) STAFF WRITE (At 950))"
  by (rule module_gate_never_reopens [of _ _ _ 500 900])
    (simp_all add: module_allowed_iff sample_module_spec)

text \<open>
  Activation opens exactly the inbound half. When the activation gate admits a suspended tenant
  whose onboarding is far enough for a session, then the same tenant with status ACTIVE has a
  session and may read and write every module, and may send outbound traffic from none.
\<close>

theorem activation_opens_every_module:
  assumes "assert_activation_allowed s (At t) = Inr ()"
    and "session_admitted_onboarding (onboardingStatus s)"
  shows "assert_session_allowed (s\<lparr>status := LC_ACTIVE\<rparr>) (At t) = Inr () \<and>
    assert_module_allowed (s\<lparr>status := LC_ACTIVE\<rparr>) m WRITE (At t) = Inr () \<and>
    assert_module_allowed (s\<lparr>status := LC_ACTIVE\<rparr>) m OUTBOUND (At t) \<noteq> Inr ()"
proof -
  let ?s = "s\<lparr>status := LC_ACTIVE\<rparr>"
  have spec: "activation_spec s t"
    using assms(1) activation_allowed_iff
    by (auto simp: assert_activation_allowed_def Let_def split: if_splits)
  then obtain e where e: "filter (\<lambda>e. ent_module e = m) (entitlement_rows s) = [e]"
    using complete_spec_single unfolding activation_spec_def by blast
  with filter_single_mem [OF e] spec have "\<not> outboundEnabled e" "entitlement_spec s e WRITE t"
    by (auto simp: activation_spec_def)
  moreover have "entitlement_rows ?s = entitlement_rows s" "trial_spec ?s t = trial_spec s t"
    "entitlement_spec ?s = entitlement_spec s"
    by (auto simp: entitlement_rows_def trial_spec_def entitlement_spec_def fun_eq_iff)
  moreover from this spec assms(2) have "session_spec ?s t"
    by (auto simp: session_spec_def activation_spec_def session_admitted_onboarding_def
        external_profile_spec_def entitlement_spec_def)
  ultimately show ?thesis
    using e spec
    by (auto simp: assert_session_allowed_def assert_module_allowed_def session_allowed_iff
        module_allowed_iff module_spec_def activation_spec_def entitlement_spec_def)
qed

theorem activation_opens_every_module_witness:
  "assert_module_allowed ((sample_subject SUSPENDED)\<lparr>status := LC_ACTIVE\<rparr>) STAFF WRITE (At 500) = Inr ()"
proof -
  have "activation_spec (sample_subject SUSPENDED) 500"
    by (simp add: activation_spec_def trial_spec_def complete_spec_def revision_spec_def
        entitlement_spec_def sample_defs)
  then have "assert_activation_allowed (sample_subject SUSPENDED) (At 500) = Inr ()"
    by (simp add: assert_activation_allowed_def activation_allowed_iff)
  then show ?thesis
    using activation_opens_every_module [of "sample_subject SUSPENDED" 500 STAFF]
    by (simp add: session_admitted_onboarding_def sample_subject_def)
qed

end
