(* ===== verification/Execution_Admission.thy ===== *)
theory Execution_Admission
  imports Execution_Policy
begin

text \<open>
  \<open>TenantExecutionAdmissionService\<close> (\<open>tenancy/tenant-execution-admission.service.ts\<close>): a batch of
  module requirements is admitted or denied against the persisted tenant, and a permit remembers
  the execution revision it was admitted under, so that it can be checked again before the work
  takes effect.

  The database is a partial function from tenant ids to subjects. \<open>subject_step\<close> is what a committed
  transaction may do to a tenant: an update of its row through the fence trigger, or a replacement
  of its entitlement rows together with a new entitlement profile revision, as every writer of those
  rows does. The last section shows that a permit which is still accepted after any such history
  speaks of a subject the policy decides exactly as before.
\<close>

section \<open>Requirements, decisions and permits\<close>

record requirement =
  req_module :: tenant_module
  req_action :: execution_action

datatype requirement_input = One_Requirement requirement | Many_Requirements "requirement list"

datatype admission_reason =
  ADMITTED | POLICY_DENIED denial_reason
| TENANT_NOT_FOUND | REQUIREMENTS_EMPTY | REVISION_INVALID | REVISION_CHANGED

record admission =
  adm_allowed :: bool
  adm_tenantId :: string
  adm_reason :: admission_reason
  failedRequirement :: "requirement option"
  adm_profileRevision :: "int option"
  adm_executionRevision :: "int option"
  adm_customerStage :: "customer_stage option"
  internalEntitlementBypass :: bool

record permit =
  permit_tenantId :: string
  permit_revision :: int
  permit_requirements :: "requirement list"

record acquisition =
  acq_decision :: admission
  acq_permit :: "permit option"

type_synonym tenant_db = "string \<Rightarrow> subject option"

fun normalize_requirements :: "requirement_input \<Rightarrow> requirement list" where
  "normalize_requirements (Many_Requirements rs) = rs"
| "normalize_requirements (One_Requirement r) = [r]"

fun admission_reason_of :: "reason_code \<Rightarrow> admission_reason" where
  "admission_reason_of ALLOWED = ADMITTED"
| "admission_reason_of (DENIED r) = POLICY_DENIED r"

definition from_policy_decision :: "subject \<Rightarrow> decision \<Rightarrow> requirement \<Rightarrow> bool \<Rightarrow> admission" where
  "from_policy_decision s d r bypass =
     \<lparr>adm_allowed = allowed d, adm_tenantId = d_tenantId d,
      adm_reason = admission_reason_of (reasonCode d),
      failedRequirement = (if allowed d then None else Some r),
      adm_profileRevision = Some (d_profileRevision d),
      adm_executionRevision = Some (executionRevision s),
      adm_customerStage = Some (customerStage s), internalEntitlementBypass = bypass\<rparr>"

text \<open>The loop over the requirements: the first one the policy denies.\<close>

fun first_denied ::
  "subject \<Rightarrow> jsdate \<Rightarrow> requirement list \<Rightarrow> (requirement \<times> decision) option" where
  "first_denied s now [] = None"
| "first_denied s now (r # rs) =
     (let d = evaluate_module s (req_module r) (req_action r) now
      in if \<not> allowed d then Some (r, d) else first_denied s now rs)"

definition admit_subject :: "subject \<Rightarrow> requirement list \<Rightarrow> jsdate \<Rightarrow> admission" where
  "admit_subject s rs now =
     (case rs of
        [] \<Rightarrow>
          \<lparr>adm_allowed = False, adm_tenantId = tenant_id s, adm_reason = REQUIREMENTS_EMPTY,
           failedRequirement = None,
           adm_profileRevision = Some (entitlementProfileRevision s),
           adm_executionRevision = Some (executionRevision s),
           adm_customerStage = Some (customerStage s), internalEntitlementBypass = False\<rparr>
      | r0 # _ \<Rightarrow>
          if \<not> is_safe_int (executionRevision s) \<or> executionRevision s < 1
          then
            \<lparr>adm_allowed = False, adm_tenantId = tenant_id s, adm_reason = REVISION_INVALID,
             failedRequirement = None,
             adm_profileRevision = Some (entitlementProfileRevision s),
             adm_executionRevision = None,
             adm_customerStage = Some (customerStage s), internalEntitlementBypass = False\<rparr>
          else if customerStage s = INTERNAL
          then from_policy_decision s (evaluate_session s now) r0 True
          else (case first_denied s now rs of
              Some (r, d) \<Rightarrow> from_policy_decision s d r False
            | None \<Rightarrow>
                \<lparr>adm_allowed = True, adm_tenantId = tenant_id s, adm_reason = ADMITTED,
                 failedRequirement = None,
                 adm_profileRevision = Some (entitlementProfileRevision s),
                 adm_executionRevision = Some (executionRevision s),
                 adm_customerStage = Some (customerStage s), internalEntitlementBypass = False\<rparr>))"

definition evaluate_admission ::
  "tenant_db \<Rightarrow> string \<Rightarrow> requirement_input \<Rightarrow> jsdate \<Rightarrow> admission" where
  "evaluate_admission db tid inp now =
     (case db tid of
        None \<Rightarrow>
          \<lparr>adm_allowed = False, adm_tenantId = tid, adm_reason = TENANT_NOT_FOUND,
           failedRequirement = None, adm_profileRevision = None, adm_executionRevision = None,
           adm_customerStage = None, internalEntitlementBypass = False\<rparr>
      | Some s \<Rightarrow> admit_subject s (normalize_requirements inp) now)"

definition acquire_permit ::
  "tenant_db \<Rightarrow> string \<Rightarrow> requirement_input \<Rightarrow> jsdate \<Rightarrow> acquisition" where
  "acquire_permit db tid inp now =
     (let rs = normalize_requirements inp;
          d = evaluate_admission db tid (Many_Requirements rs) now
      in \<lparr>acq_decision = d,
          acq_permit =
            (case adm_executionRevision d of
               Some revision \<Rightarrow>
                 if adm_allowed d
                 then Some \<lparr>permit_tenantId = adm_tenantId d, permit_revision = revision,
                            permit_requirements = rs\<rparr>
                 else None
             | None \<Rightarrow> None)\<rparr>)"

text \<open>\<open>throwDenied\<close>: the forbidden error carries the decision.\<close>

definition issue_permit ::
  "tenant_db \<Rightarrow> string \<Rightarrow> requirement_input \<Rightarrow> jsdate \<Rightarrow> admission + permit" where
  "issue_permit db tid inp now =
     (let a = acquire_permit db tid inp now
      in case acq_permit a of None \<Rightarrow> Inl (acq_decision a) | Some p \<Rightarrow> Inr p)"

definition evaluate_permit :: "tenant_db \<Rightarrow> permit \<Rightarrow> jsdate \<Rightarrow> admission" where
  "evaluate_permit db p now =
     (let d = evaluate_admission db (permit_tenantId p)
                (Many_Requirements (permit_requirements p)) now
      in if adm_allowed d \<and> adm_executionRevision d \<noteq> Some (permit_revision p)
         then d\<lparr>adm_allowed := False, adm_reason := REVISION_CHANGED, failedRequirement := None\<rparr>
         else d)"

definition assert_permit_current :: "tenant_db \<Rightarrow> permit \<Rightarrow> jsdate \<Rightarrow> admission + admission" where
  "assert_permit_current db p now =
     (let d = evaluate_permit db p now in if \<not> adm_allowed d then Inl d else Inr d)"

definition assert_admitted ::
  "tenant_db \<Rightarrow> string \<Rightarrow> requirement_input \<Rightarrow> jsdate \<Rightarrow> admission + admission" where
  "assert_admitted db tid inp now =
     (let d = evaluate_admission db tid inp now in if \<not> adm_allowed d then Inl d else Inr d)"

section \<open>What an admitted batch means\<close>

definition batch_spec :: "subject \<Rightarrow> requirement list \<Rightarrow> int \<Rightarrow> bool" where
  "batch_spec s rs t \<longleftrightarrow>
     rs \<noteq> [] \<and> revision_spec (executionRevision s) \<and> session_spec s t \<and>
     (customerStage s \<noteq> INTERNAL \<longrightarrow>
        (\<forall>r\<in>set rs. module_spec s (req_module r) (req_action r) t))"

lemma first_denied_None:
  "first_denied s now rs = None \<longleftrightarrow>
    (\<forall>r\<in>set rs. allowed (evaluate_module s (req_module r) (req_action r) now))"
  by (induction rs) (auto simp: Let_def)

lemma first_denied_Some:
  "first_denied s now rs = Some (r, d) \<Longrightarrow>
    r \<in> set rs \<and> d = evaluate_module s (req_module r) (req_action r) now \<and> \<not> allowed d"
  by (induction rs) (auto simp: Let_def split: if_splits)

lemma revision_spec_iff: "revision_spec r \<longleftrightarrow> is_safe_int r \<and> \<not> r < 1"
  by (auto simp: revision_spec_def is_safe_int_def)

lemma admit_subject_allowed:
  "adm_allowed (admit_subject s rs (At t)) \<longleftrightarrow> batch_spec s rs t"
proof (cases rs)
  case Nil
  then show ?thesis by (simp add: admit_subject_def batch_spec_def)
next
  case (Cons r0 rest)
  have spec: "batch_spec s rs t \<longleftrightarrow> revision_spec (executionRevision s) \<and>
      (if customerStage s = INTERNAL then session_spec s t else first_denied s (At t) rs = None)"
    using Cons by (auto simp: batch_spec_def first_denied_None module_allowed_iff module_spec_def)
  show ?thesis
  proof (cases "first_denied s (At t) rs")
    case None
    then show ?thesis
      using Cons unfolding spec
      by (simp add: admit_subject_def from_policy_decision_def session_allowed_iff
          revision_spec_iff del: first_denied.simps)
  next
    case (Some rd)
    then obtain r d where rd: "first_denied s (At t) rs = Some (r, d)" by (cases rd) auto
    then have "\<not> allowed d" using first_denied_Some by blast
    with rd show ?thesis
      using Cons unfolding spec
      by (simp add: admit_subject_def from_policy_decision_def session_allowed_iff
          revision_spec_iff del: first_denied.simps)
  qed
qed

lemma admit_subject_revision:
  "adm_allowed (admit_subject s rs now) \<Longrightarrow>
    adm_executionRevision (admit_subject s rs now) = Some (executionRevision s) \<and>
    adm_tenantId (admit_subject s rs now) = tenant_id s"
  by (auto simp: admit_subject_def from_policy_decision_def session_gate.gate_tenant
      simp del: first_denied.simps
      split: list.splits if_splits option.splits dest: first_denied_Some)

lemma evaluate_permit_allowed:
  "adm_allowed (evaluate_permit db p now) \<longleftrightarrow>
    (\<exists>s. db (permit_tenantId p) = Some s \<and> executionRevision s = permit_revision p \<and>
         adm_allowed (admit_subject s (permit_requirements p) now))"
  using admit_subject_revision
  by (auto simp: evaluate_permit_def evaluate_admission_def Let_def split: option.splits)

section \<open>Histories of a subject\<close>

text \<open>The row of a subject, and a subject with another row.\<close>

inductive subject_step :: "subject \<Rightarrow> subject \<Rightarrow> bool" where
  row_updated:
    "tenant_update (tenant.truncate s) (tenant.truncate s') \<Longrightarrow>
     moduleEntitlements s' = moduleEntitlements s \<Longrightarrow> subject_step s s'"
| profile_replaced:
    "tenant_update (tenant.truncate s) (tenant.truncate s') \<Longrightarrow>
     entitlementProfileRevision s' \<noteq> entitlementProfileRevision s \<Longrightarrow> subject_step s s'"

inductive subject_steps :: "subject \<Rightarrow> subject \<Rightarrow> bool" where
  none: "subject_steps s s"
| more: "subject_steps s s' \<Longrightarrow> subject_step s' s'' \<Longrightarrow> subject_steps s s''"

inductive_cases subject_stepE: "subject_step s s'"

text \<open>What the policy reads of a subject, apart from its id.\<close>

definition same_execution :: "subject \<Rightarrow> subject \<Rightarrow> bool" where
  "same_execution s s' \<longleftrightarrow>
     \<not> execution_columns_differ (tenant.truncate s) (tenant.truncate s') \<and>
     moduleEntitlements s' = moduleEntitlements s"

lemma truncate_simps [simp]:
  "executionRevision (tenant.truncate s) = executionRevision s"
  "entitlementProfileRevision (tenant.truncate s) = entitlementProfileRevision s"
  "status (tenant.truncate s) = status s" "customerStage (tenant.truncate s) = customerStage s"
  "onboardingStatus (tenant.truncate s) = onboardingStatus s"
  "trialStartsAt (tenant.truncate s) = trialStartsAt s"
  "trialEndsAt (tenant.truncate s) = trialEndsAt s"
  "tenant_id (tenant.truncate s) = tenant_id s"
  by (simp_all add: tenant.truncate_def)

lemma subject_step_fence:
  "subject_step s s' \<Longrightarrow>
    executionRevision s' = executionRevision s \<and> same_execution s s' \<or>
    executionRevision s' = executionRevision s + 1"
  using fence_trigger_step
  by (elim subject_stepE) (fastforce simp: same_execution_def execution_columns_differ_def)+

lemma same_execution_trans:
  "same_execution a b \<Longrightarrow> same_execution b c \<Longrightarrow> same_execution a c"
  by (auto simp: same_execution_def execution_columns_differ_def)

lemma subject_steps_mono: "subject_steps s s' \<Longrightarrow> executionRevision s \<le> executionRevision s'"
  by (induction rule: subject_steps.induct) (auto dest: subject_step_fence)

lemma subject_steps_same:
  "subject_steps s s' \<Longrightarrow> executionRevision s' = executionRevision s \<Longrightarrow> same_execution s s'"
proof (induction rule: subject_steps.induct)
  case (none s)
  then show ?case by (simp add: same_execution_def execution_columns_differ_def)
next
  case (more s s' s'')
  from subject_steps_mono [OF more.hyps(1)] subject_step_fence [OF more.hyps(2)] more.prems
  have "executionRevision s' = executionRevision s" and "same_execution s' s''" by auto
  with more.IH show ?case by (metis same_execution_trans)
qed

lemma same_execution_module:
  assumes "same_execution s s'"
  shows "allowed (evaluate_module s' m a (At t)) = allowed (evaluate_module s m a (At t))"
  using assms
  by (simp add: same_execution_def execution_columns_differ_def module_allowed_iff module_spec_def
      session_spec_def trial_spec_def external_profile_spec_def entitlement_spec_def
      entitlement_rows_def)

section \<open>Properties\<close>

definition sample_db :: tenant_db where
  "sample_db = Map.empty(''t1'' \<mapsto> sample_subject LC_ACTIVE)"

definition sample_requirements :: "requirement list" where
  "sample_requirements = [\<lparr>req_module = STAFF, req_action = READ\<rparr>, \<lparr>req_module = ASSORTMENT, req_action = WRITE\<rparr>]"

lemma sample_batch_spec: "batch_spec (sample_subject LC_ACTIVE) sample_requirements t \<longleftrightarrow> 100 \<le> t \<and> t < 900"
  by (auto simp: batch_spec_def sample_session_spec sample_requirements_def sample_module_spec)
    (simp_all add: sample_subject_def revision_spec_def)

text \<open>
  Batch admission is exact. A batch of requirements is admitted for a known tenant precisely
  when it is not empty, the execution revision is initialised, the session is admitted and, outside
  the internal stage, every single requirement of the batch is granted.
\<close>

theorem admission_exact:
  "(\<exists>d. assert_admitted db tid inp (At t) = Inr d) \<longleftrightarrow>
     (\<exists>s. db tid = Some s \<and> batch_spec s (normalize_requirements inp) t)"
proof (cases "db tid")
  case None
  then show ?thesis by (simp add: assert_admitted_def evaluate_admission_def Let_def)
next
  case (Some s)
  then show ?thesis
    by (simp add: assert_admitted_def evaluate_admission_def Let_def admit_subject_allowed)
qed

text \<open>
  C2: A permit fences the execution state. If a permit was issued for a subject and is still
  accepted after any history of committed changes of that tenant, then nothing the policy reads has
  changed in between: at every instant every module and action is decided as when it was issued.
\<close>

theorem permit_fences_execution_state:
  assumes "issue_permit db tid inp now = Inr p" and "db tid = Some s" and "tenant_id s = tid"
    and "subject_steps s s'" and "db' tid = Some s'"
    and "\<exists>d. assert_permit_current db' p now' = Inr d"
  shows "same_execution s s' \<and>
    (\<forall>m a t. allowed (evaluate_module s' m a (At t)) = allowed (evaluate_module s m a (At t)))"
proof -
  let ?rs = "normalize_requirements inp"
  have "permit_tenantId p = tid" and "permit_revision p = executionRevision s"
    using assms(1-3) admit_subject_revision [of s ?rs now]
    by (auto simp: issue_permit_def acquire_permit_def evaluate_admission_def Let_def
        split: option.splits if_splits)
  moreover have "adm_allowed (evaluate_permit db' p now')"
    using assms(6) by (auto simp: assert_permit_current_def Let_def split: if_splits)
  ultimately have "executionRevision s' = executionRevision s"
    using assms(5) by (auto simp: evaluate_permit_allowed)
  with assms(4) have "same_execution s s'" by (rule subject_steps_same)
  then show ?thesis using same_execution_module by blast
qed

lemma sample_permit:
  "issue_permit sample_db ''t1'' (Many_Requirements sample_requirements) (At 200) =
    Inr \<lparr>permit_tenantId = ''t1'', permit_revision = 4, permit_requirements = sample_requirements\<rparr>"
proof -
  let ?d = "admit_subject (sample_subject LC_ACTIVE) sample_requirements (At 200)"
  have "adm_allowed ?d" by (simp add: admit_subject_allowed sample_batch_spec)
  moreover from admit_subject_revision [OF this]
  have "adm_executionRevision ?d = Some 4" "adm_tenantId ?d = ''t1''"
    by (simp_all add: sample_subject_def)
  ultimately show ?thesis
    by (simp add: issue_permit_def acquire_permit_def evaluate_admission_def sample_db_def Let_def)
qed

theorem permit_fences_execution_state_witness:
  "same_execution (sample_subject LC_ACTIVE) (sample_subject LC_ACTIVE)"
proof -
  have "adm_allowed (evaluate_permit sample_db
      \<lparr>permit_tenantId = ''t1'', permit_revision = 4, permit_requirements = sample_requirements\<rparr> (At 300))"
    by (simp add: evaluate_permit_allowed sample_db_def admit_subject_allowed sample_batch_spec)
      (simp add: sample_subject_def)
  then show ?thesis
    using permit_fences_execution_state [OF sample_permit, of "sample_subject LC_ACTIVE"
        "sample_subject LC_ACTIVE" sample_db "At 300"]
    by (simp add: assert_permit_current_def Let_def sample_db_def subject_steps.none)
      (simp add: sample_subject_def)
qed


text \<open>The sample subject after its trial was extended.\<close>

definition extended_subject :: subject where
  "extended_subject =
     (sample_subject LC_ACTIVE)\<lparr>trialEndsAt := Some (At 5000), executionRevision := 5\<rparr>"

lemma extended_subject_step: "subject_steps (sample_subject LC_ACTIVE) extended_subject"
proof (rule subject_steps.more [OF subject_steps.none])
  have "tenant_fence_trigger (tenant.truncate (sample_subject LC_ACTIVE))
      (tenant.truncate (extended_subject\<lparr>executionRevision := 4\<rparr>)) = Inr (tenant.truncate extended_subject)"
    by (simp add: tenant_fence_trigger_def execution_columns_differ_def extended_subject_def
        sample_subject_def tenant.truncate_def)
  then show "subject_step (sample_subject LC_ACTIVE) extended_subject"
    by (intro row_updated update) (auto simp: extended_subject_def)
qed


end
