(* ===== verification/Http_Policy.thy ===== *)
theory Http_Policy
  imports Execution_Policy
begin

text \<open>
  \<open>tenancy/tenant-execution-http-policy.ts\<close>: the classification of an HTTP request into the tenant
  modules it needs and the action (read, write, outbound) it performs.

  The regular expressions of the tables are all of one shape: fixed path segments, alternatives of
  them, and \<open>[^/]+\<close> for one segment. They are written as lists of segment patterns, one list per
  alternative, and matched against the path split at its slashes.
\<close>

section \<open>Requests and path patterns\<close>

record http_request =
  r_method :: "string option"
  r_path :: "string option"
  r_originalUrl :: "string option"
  r_url :: "string option"

record http_access =
  acc_module :: tenant_module
  acc_action :: execution_action
  acc_path :: string

datatype segment = Lit string | Any

fun segment_matches :: "segment \<Rightarrow> string \<Rightarrow> bool" where
  "segment_matches (Lit l) s = (s = l)"
| "segment_matches Any s = (s \<noteq> [])"

fun segments_match :: "segment list \<Rightarrow> string list \<Rightarrow> bool" where
  "segments_match [] [] = True"
| "segments_match (p # ps) (s # ss) = (segment_matches p s \<and> segments_match ps ss)"
| "segments_match _ _ = False"

text \<open>The path split at every slash; the first piece is what stands before the first slash.\<close>

fun split_slash :: "string \<Rightarrow> string list" where
  "split_slash [] = [[]]"
| "split_slash (c # cs) =
     (if c = CHR ''/'' then [] # split_slash cs
      else (case split_slash cs of [] \<Rightarrow> [[c]] | s # ss \<Rightarrow> (c # s) # ss))"

type_synonym path_pattern = "segment list list"

definition pattern_test :: "path_pattern \<Rightarrow> string \<Rightarrow> bool" where
  "pattern_test p path \<longleftrightarrow>
     (case split_slash path of [] \<Rightarrow> False
      | first # rest \<Rightarrow> first = [] \<and> (\<exists>alternative\<in>set p. segments_match alternative rest))"

definition exactly :: "string list \<Rightarrow> path_pattern" where
  "exactly segs = [map Lit segs]"

section \<open>The tables\<close>

definition EXEMPT_REQUESTS :: "(string \<times> string list) list" where
  "EXEMPT_REQUESTS = [(''/auth/me'', [''GET'', ''HEAD''])]"

definition MODULE_PREFIXES :: "(string \<times> tenant_module) list" where
  "MODULE_PREFIXES =
    [(''/guests/gamification'', GAMIFICATION), (''/guest-game'', GAMIFICATION),
     (''/guests/staff-control'', STAFF), (''/staff/team-chat'', COMMUNICATIONS),
     (''/staff/notifications'', COMMUNICATIONS), (''/support/bug-reports'', COMMUNICATIONS),
     (''/staff'', STAFF), (''/users'', USERS_ROLES), (''/integrations'', INTEGRATIONS),
     (''/settings'', INTEGRATIONS), (''/products'', ASSORTMENT), (''/categories'', ASSORTMENT),
     (''/suppliers'', ASSORTMENT), (''/stores'', ASSORTMENT), (''/reports'', ASSORTMENT),
     (''/dashboard'', ASSORTMENT), (''/imports'', ASSORTMENT), (''/utilities'', ASSORTMENT)]"

definition EXACT_MODULE_REQUESTS :: "(string \<times> path_pattern \<times> tenant_module) list" where
  "EXACT_MODULE_REQUESTS =
    [(''GET'',
      [[Lit ''guests'', Lit ''crm'', Lit ''tasks''],
       [Lit ''guests'', Lit ''crm'', Lit ''tasks'', Lit ''report''],
       [Lit ''guests'', Lit ''crm'', Lit ''tasks'', Lit ''export''],
       [Lit ''guests'', Lit ''crm'', Lit ''users''],
       [Lit ''guests'', Lit ''crm'', Lit ''contact-events'']], COMMUNICATIONS),
     (''POST'',
      [[Lit ''guests'', Lit ''crm'', Lit ''tasks''],
       [Lit ''guests'', Lit ''crm'', Lit ''contact-events'']], COMMUNICATIONS),
     (''PATCH'', [[Lit ''guests'', Lit ''crm'', Lit ''tasks'', Any]], COMMUNICATIONS)]"

definition OUTBOUND_REQUESTS :: "path_pattern list" where
  "OUTBOUND_REQUESTS =
    [exactly [''integrations'', ''langame'', ''onboarding'', ''initial-sync'', ''preflight''],
     exactly [''stores'', ''address-suggestions''],
     exactly [''stores'', ''address-geocode''],
     exactly [''stores'', ''yandex-maps-geocode''],
     exactly [''stores'', ''address-geocode'', ''missing''],
     exactly [''categories'', ''langame'', ''refresh''],
     exactly [''reports'', ''email''],
     exactly [''reports'', ''digests'', ''email''],
     exactly [''reports'', ''daily'', ''commentary''],
     exactly [''guests'', ''gamification'', ''deliveries'', ''dispatch''],
     exactly [''guests'', ''gamification'', ''bonus-ledger'', ''dispatch''],
     [[Lit ''guests'', Lit ''gamification'', Lit ''log'', Lit ''profiles'', Any, Lit ''sync''],
      [Lit ''guests'', Lit ''gamification'', Lit ''log'', Lit ''profiles'', Any, Lit ''relink'']]]"

definition READ_REQUESTS :: "(string \<times> path_pattern) list" where
  "READ_REQUESTS =
    [(''POST'', exactly [''integrations'', ''langame'', ''settings'', ''preview'']),
     (''POST'', exactly [''integrations'', ''langame'', ''onboarding'', ''preview'']),
     (''POST'', exactly [''integrations'', ''langame'', ''onboarding'', ''status'']),
     (''POST'', exactly [''integrations'', ''langame'', ''onboarding'', ''reconcile'']),
     (''GET'', exactly [''integrations'', ''langame'', ''routes-diagnostics'']),
     (''GET'', exactly [''integrations'', ''langame'', ''service-diagnostics'']),
     (''POST'', exactly [''integrations'', ''langame'', ''guests'', ''search-diagnostics''])]"

definition READ_METHODS :: "string list" where
  "READ_METHODS = [''GET'', ''HEAD'', ''OPTIONS'']"

definition CROSS_MODULE_REQUESTS :: "(string \<times> path_pattern \<times> tenant_module list) list" where
  "CROSS_MODULE_REQUESTS =
    [(''POST'', exactly [''integrations'', ''langame'', ''onboarding'', ''initial-sync'', ''preflight''],
      [INTEGRATIONS, ASSORTMENT]),
     (''POST'', exactly [''integrations'', ''langame'', ''sync''], [INTEGRATIONS, ASSORTMENT]),
     (''POST'',
      [[Lit ''integrations'', Lit ''langame'', Lit ''guests'', Lit ''foundation'', Lit ''sync''],
       [Lit ''integrations'', Lit ''langame'', Lit ''guests'', Lit ''foundation'', Lit ''sync'', Lit ''start'']],
      [INTEGRATIONS, ASSORTMENT, GAMIFICATION, STAFF]),
     (''GET'', exactly [''integrations'', ''langame'', ''business-snapshots'', ''status''],
      [INTEGRATIONS, ASSORTMENT, GAMIFICATION, STAFF]),
     (''POST'', exactly [''integrations'', ''langame'', ''business-snapshots'', ''run''],
      [INTEGRATIONS, ASSORTMENT, GAMIFICATION, STAFF])]"

section \<open>Resolution\<close>

definition starts_with :: "string \<Rightarrow> string \<Rightarrow> bool" where
  "starts_with s p \<longleftrightarrow> take (length p) s = p"

text \<open>The branches of \<open>normalizeRequestPath\<close>: the query, the leading slash, the prefix \<open>/api\<close>, one
  trailing slash.\<close>

definition strip_query :: "string \<Rightarrow> string" where
  "strip_query raw = (let p = takeWhile (\<lambda>c. c \<noteq> CHR ''?'') raw in if p = [] then ''/'' else p)"

definition with_leading_slash :: "string \<Rightarrow> string" where
  "with_leading_slash p = (if starts_with p ''/'' then p else CHR ''/'' # p)"

definition strip_api :: "string \<Rightarrow> string" where
  "strip_api p =
     (if p = ''/api'' then ''/'' else if starts_with p ''/api/'' then drop 4 p else p)"

definition strip_trailing :: "string \<Rightarrow> string" where
  "strip_trailing p = (if 1 < length p \<and> last p = CHR ''/'' then butlast p else p)"

definition raw_path :: "http_request \<Rightarrow> string" where
  "raw_path r = get_or (or_else (r_path r) (or_else (r_originalUrl r) (r_url r))) ''/''"

definition normalize_request_path :: "http_request \<Rightarrow> string" where
  "normalize_request_path r =
     strip_trailing (strip_api (with_leading_slash (strip_query (raw_path r))))"

definition request_method :: "http_request \<Rightarrow> string" where
  "request_method r = js_upper (get_or (r_method r) ''GET'')"

definition matches_prefix :: "string \<Rightarrow> string \<Rightarrow> bool" where
  "matches_prefix path prefix \<longleftrightarrow> path = prefix \<or> starts_with path (prefix @ ''/'')"

definition resolve_action :: "string \<Rightarrow> string \<Rightarrow> execution_action" where
  "resolve_action path method =
     (if \<exists>p\<in>set OUTBOUND_REQUESTS. pattern_test p path then OUTBOUND
      else if \<exists>(m, p)\<in>set READ_REQUESTS. m = method \<and> pattern_test p path then READ
      else if method \<in> set READ_METHODS then READ else WRITE)"

definition exact_match :: "string \<Rightarrow> string \<Rightarrow> tenant_module option" where
  "exact_match method path =
     map_option (\<lambda>(_, _, m). m)
       (find (\<lambda>(cm, p, _). cm = method \<and> pattern_test p path) EXACT_MODULE_REQUESTS)"

definition prefix_match :: "string \<Rightarrow> tenant_module option" where
  "prefix_match path =
     map_option snd (find (\<lambda>(p, _). matches_prefix path p) MODULE_PREFIXES)"

definition resolve_http_access :: "http_request \<Rightarrow> http_access option" where
  "resolve_http_access r =
     (let path = normalize_request_path r; method = request_method r
      in case or_else (exact_match method path) (prefix_match path) of
           None \<Rightarrow> None
         | Some m \<Rightarrow> Some \<lparr>acc_module = m, acc_action = resolve_action path method, acc_path = path\<rparr>)"

definition cross_module_request :: "string \<Rightarrow> string \<Rightarrow> tenant_module list option" where
  "cross_module_request method path =
     map_option (\<lambda>(_, _, ms). ms)
       (find (\<lambda>(cm, p, _). cm = method \<and> pattern_test p path) CROSS_MODULE_REQUESTS)"

definition resolve_http_requirements ::
  "http_request \<Rightarrow> (tenant_module \<times> execution_action) list" where
  "resolve_http_requirements r =
     (case resolve_http_access r of
        None \<Rightarrow> []
      | Some access \<Rightarrow>
          (case cross_module_request (request_method r) (acc_path access) of
             None \<Rightarrow> [(acc_module access, acc_action access)]
           | Some ms \<Rightarrow> map (\<lambda>m. (m, acc_action access)) ms))"

definition is_http_exempt :: "http_request \<Rightarrow> bool" where
  "is_http_exempt r =
     (case map_of EXEMPT_REQUESTS (normalize_request_path r) of
        None \<Rightarrow> False | Some methods \<Rightarrow> request_method r \<in> set methods)"

section \<open>Paths and patterns\<close>

fun join_slash :: "string list \<Rightarrow> string" where
  "join_slash [] = []"
| "join_slash [s] = s"
| "join_slash (s # t # ss) = s @ CHR ''/'' # join_slash (t # ss)"

lemma split_slash_nonempty [simp]: "split_slash p \<noteq> []"
  by (induction p) (auto split: list.splits)

lemma join_slash_Cons: "ss \<noteq> [] \<Longrightarrow> join_slash (s # ss) = s @ CHR ''/'' # join_slash ss"
  by (cases ss) auto

lemma join_split_slash [simp]: "join_slash (split_slash p) = p"
proof (induction p)
  case Nil
  then show ?case by simp
next
  case (Cons c cs)
  obtain s ss where ss: "split_slash cs = s # ss"
    using split_slash_nonempty list.exhaust by metis
  then have "join_slash ((c # s) # ss) = c # cs"
    using Cons by (cases ss) auto
  then show ?case
    using ss Cons by (simp add: join_slash_Cons)
qed

lemma starts_with_append [simp]: "starts_with (p @ q) p"
  by (simp add: starts_with_def)

lemma starts_with_self [simp]: "starts_with p p"
  by (simp add: starts_with_def)

lemma starts_withE: "starts_with s p \<Longrightarrow> \<exists>q. s = p @ q"
  unfolding starts_with_def by (metis append_take_drop_id)

section \<open>The prefix table\<close>

text \<open>No entry of the table hides a later, more specific one.\<close>

definition specific_first :: "(string \<times> 'm) list \<Rightarrow> bool" where
  "specific_first table \<longleftrightarrow> sorted_wrt (\<lambda>(p, _) (q, _). \<not> starts_with q (p @ ''/'')) table"

lemma module_prefixes_specific_first: "specific_first MODULE_PREFIXES"
  unfolding specific_first_def MODULE_PREFIXES_def by (simp add: starts_with_def)

lemma longer_prefix_extends:
  assumes "matches_prefix path p" and "matches_prefix path q" and "length p < length q"
  shows "starts_with q (p @ ''/'')"
proof -
  have q: "take (length q) path = q"
    using assms(2) unfolding matches_prefix_def
    by (auto dest!: starts_withE)
  then have "length q \<le> length path"
    by (metis length_take min.cobounded1)
  with assms(3) have "path \<noteq> p" by auto
  with assms(1) have "take (Suc (length p)) path = p @ ''/''"
    by (simp add: matches_prefix_def starts_with_def)
  then show ?thesis
    using q assms(3) unfolding starts_with_def
    by (metis Suc_leI length_append_singleton min.absorb1 take_take)
qed

lemma find_specific_first:
  assumes "specific_first table" and "find (\<lambda>(p, _). matches_prefix path p) table = Some (p, m)"
  shows "(p, m) \<in> set table \<and> matches_prefix path p \<and>
    (\<forall>(q, n)\<in>set table. matches_prefix path q \<longrightarrow> length q \<le> length p)"
proof -
  from assms(2) obtain i where i: "i < length table" "table ! i = (p, m)" "matches_prefix path p"
    and before: "\<And>j. j < i \<Longrightarrow> \<not> (case table ! j of (q, _) \<Rightarrow> matches_prefix path q)"
    by (auto simp: find_Some_iff)
  have "length q \<le> length p" if "(q, n) \<in> set table" "matches_prefix path q" for q n
  proof (rule ccontr)
    assume "\<not> length q \<le> length p"
    then have ext: "starts_with q (p @ ''/'')"
      using longer_prefix_extends i(3) that(2) by auto
    from that(1) obtain j where j: "j < length table" "table ! j = (q, n)"
      by (auto simp: in_set_conv_nth)
    consider "j < i" | "j = i" | "i < j" by linarith
    then show False
    proof cases
      case 1
      then show False using before [of j] j that(2) by auto
    next
      case 2
      then show False using i(2) j(2) \<open>\<not> length q \<le> length p\<close> by auto
    next
      case 3
      then have "\<not> starts_with q (p @ ''/'')"
        using assms(1) i(2) j unfolding specific_first_def
        by (fastforce dest: sorted_wrt_nth_less)
      then show False using ext by blast
    qed
  qed
  then show ?thesis
    using i by (metis (no_types, lifting) case_prodI2 nth_mem)
qed

section \<open>Cross module requests\<close>

definition cross_paths :: "string list" where
  "cross_paths =
    [''/integrations/langame/onboarding/initial-sync/preflight'', ''/integrations/langame/sync'',
     ''/integrations/langame/guests/foundation/sync'',
     ''/integrations/langame/guests/foundation/sync/start'',
     ''/integrations/langame/business-snapshots/status'',
     ''/integrations/langame/business-snapshots/run'']"

text \<open>The paths a pattern without \<open>[^/]+\<close> accepts.\<close>

fun segment_text :: "segment \<Rightarrow> string" where
  "segment_text (Lit l) = l"
| "segment_text Any = []"

definition literal_pattern :: "path_pattern \<Rightarrow> bool" where
  "literal_pattern p \<longleftrightarrow> (\<forall>alt\<in>set p. Any \<notin> set alt)"

definition literal_paths :: "path_pattern \<Rightarrow> string list" where
  "literal_paths p = map (\<lambda>alt. join_slash ([] # map segment_text alt)) p"

lemma literal_segments_match:
  "Any \<notin> set alt \<Longrightarrow> segments_match alt ss \<Longrightarrow> ss = map segment_text alt"
proof (induction alt arbitrary: ss)
  case Nil
  then show ?case by (cases ss) auto
next
  case (Cons p ps)
  then show ?case by (cases ss; cases p) auto
qed

lemma literal_pattern_paths:
  assumes "literal_pattern p" and "pattern_test p path"
  shows "path \<in> set (literal_paths p)"
proof -
  obtain rest alt where rest: "split_slash path = [] # rest" and alt: "alt \<in> set p" "segments_match alt rest"
    using assms(2) by (auto simp: pattern_test_def split: list.splits)
  then have "path = join_slash ([] # map segment_text alt)"
    using assms(1) literal_segments_match unfolding literal_pattern_def
    by (metis join_split_slash)
  with alt(1) show ?thesis by (auto simp: literal_paths_def)
qed

lemma cross_module_table:
  "\<forall>(_, p, ms)\<in>set CROSS_MODULE_REQUESTS.
     literal_pattern p \<and> list_all (\<lambda>q. q \<in> set cross_paths) (literal_paths p) \<and> ms = INTEGRATIONS # tl ms"
  by code_simp

lemma cross_module_path:
  assumes "cross_module_request method path = Some ms"
  shows "path \<in> set cross_paths \<and> (\<exists>rest. ms = INTEGRATIONS # rest)"
proof -
  from assms obtain cm p where "(cm, p, ms) \<in> set CROSS_MODULE_REQUESTS" and "pattern_test p path"
    unfolding cross_module_request_def by (auto dest: find_SomeD)
  with cross_module_table literal_pattern_paths [of p path] show ?thesis
    by (fastforce simp: list_all_iff)
qed

definition read_posts :: "string list" where
  "read_posts =
    [''/integrations/langame/settings/preview'', ''/integrations/langame/onboarding/preview'',
     ''/integrations/langame/onboarding/status'', ''/integrations/langame/onboarding/reconcile'',
     ''/integrations/langame/guests/search-diagnostics'']"

lemma read_request_table:
  "\<forall>(m, p)\<in>set READ_REQUESTS. literal_pattern p \<and>
     (m \<in> set READ_METHODS \<or> m = ''POST'' \<and> list_all (\<lambda>q. q \<in> set read_posts) (literal_paths p))"
  by code_simp

lemma cross_paths_not_exact:
  "\<forall>path\<in>set cross_paths. \<forall>(_, p, _)\<in>set EXACT_MODULE_REQUESTS. \<not> pattern_test p path"
  by code_simp

lemma cross_paths_prefix: "\<forall>path\<in>set cross_paths. prefix_match path = Some INTEGRATIONS"
  by code_simp

lemma cross_path_resolution:
  assumes "path \<in> set cross_paths"
  shows "exact_match method path = None \<and> prefix_match path = Some INTEGRATIONS"
  using assms cross_paths_not_exact cross_paths_prefix
  by (fastforce simp: exact_match_def find_None_iff)

section \<open>Properties\<close>

text \<open>
  C10: The most specific prefix wins. When a path is classified by the prefix table, the module is
  that of the longest prefix of the table which contains the path at a segment boundary, so that
  team chat and notifications are never taken for the staff module they are nested in.
\<close>

theorem http_longest_prefix_wins:
  assumes "prefix_match path = Some m"
  shows "\<exists>p. (p, m) \<in> set MODULE_PREFIXES \<and> matches_prefix path p \<and>
    (\<forall>(q, n)\<in>set MODULE_PREFIXES. matches_prefix path q \<longrightarrow> length q \<le> length p)"
proof -
  from assms obtain p where "find (\<lambda>(p, _). matches_prefix path p) MODULE_PREFIXES = Some (p, m)"
    by (auto simp: prefix_match_def)
  with find_specific_first [OF module_prefixes_specific_first] show ?thesis by blast
qed

theorem http_longest_prefix_wins_witness:
  "\<exists>p. (p, COMMUNICATIONS) \<in> set MODULE_PREFIXES \<and> matches_prefix ''/staff/team-chat/rooms'' p \<and>
    (\<forall>(q, n)\<in>set MODULE_PREFIXES. matches_prefix ''/staff/team-chat/rooms'' q \<longrightarrow> length q \<le> length p)"
  by (rule http_longest_prefix_wins)
    (simp add: prefix_match_def MODULE_PREFIXES_def matches_prefix_def starts_with_def)

lemma requirements_cover:
  "(resolve_http_requirements r = [] \<longleftrightarrow> resolve_http_access r = None) \<and>
   (\<forall>a. resolve_http_access r = Some a \<longrightarrow>
      hd (resolve_http_requirements r) = (acc_module a, acc_action a) \<and>
      snd ` set (resolve_http_requirements r) = {acc_action a})"
proof (cases "resolve_http_access r")
  case None
  then show ?thesis by (simp add: resolve_http_requirements_def)
next
  case (Some a)
  show ?thesis
  proof (cases "cross_module_request (request_method r) (acc_path a)")
    case None
    then show ?thesis using Some by (simp add: resolve_http_requirements_def)
  next
    case cross: (Some ms)
    from cross_module_path [OF this] obtain rest
      where "acc_path a \<in> set cross_paths" and ms: "ms = INTEGRATIONS # rest" by blast
    then have "acc_module a = INTEGRATIONS"
      using Some cross_path_resolution [of "acc_path a" "request_method r"]
      by (auto simp: resolve_http_access_def Let_def split: option.splits)
    then show ?thesis
      using Some cross ms by (auto simp: resolve_http_requirements_def)
  qed
qed

text \<open>
  Requirements cover the access. A request is left without requirements only when it is not
  classified at all; otherwise its first requirement is the module and action of its own
  classification, and every further module of a cross module request needs the same action.
\<close>

theorem http_requirements_cover_access:
  "(resolve_http_requirements r = [] \<longleftrightarrow> resolve_http_access r = None) \<and>
   (\<forall>a. resolve_http_access r = Some a \<longrightarrow>
      hd (resolve_http_requirements r) = (acc_module a, acc_action a) \<and>
      snd ` set (resolve_http_requirements r) = {acc_action a})"
  by (rule requirements_cover)

theorem http_requirements_cover_access_witness:
  "snd ` set (resolve_http_requirements
     \<lparr>r_method = Some ''post'', r_path = Some ''/api/integrations/langame/sync'', r_originalUrl = None, r_url = None\<rparr>)
   = {WRITE}"
proof -
  let ?r = "\<lparr>r_method = Some ''post'', r_path = Some ''/api/integrations/langame/sync'',
    r_originalUrl = None, r_url = None\<rparr>"
  have "resolve_http_access ?r =
      Some \<lparr>acc_module = INTEGRATIONS, acc_action = WRITE, acc_path = ''/integrations/langame/sync''\<rparr>"
    by code_simp
  then show ?thesis
    using http_requirements_cover_access [of ?r] by simp
qed

lemma unsafe_method_reads:
  assumes "method \<notin> set READ_METHODS" and "resolve_action path method = READ"
  shows "method = ''POST'' \<and> path \<in> set read_posts"
proof -
  from assms obtain p where "(method, p) \<in> set READ_REQUESTS" and "pattern_test p path"
    unfolding resolve_action_def by (auto split: if_splits)
  with read_request_table literal_pattern_paths [of p path] assms(1) show ?thesis
    by (fastforce simp: list_all_iff read_posts_def)
qed

text \<open>
  Reading by default needs a reading method. A request whose method is not GET, HEAD or OPTIONS
  is treated as a read only on the five preview and diagnostic paths of the integrations; every other
  request with such a method needs the write or the outbound authority.
\<close>

theorem http_unsafe_method_is_write:
  assumes "method \<notin> set READ_METHODS" and "resolve_action path method = READ"
  shows "method = ''POST'' \<and> path \<in> set read_posts"
  using assms by (rule unsafe_method_reads)

theorem http_unsafe_method_is_write_witness:
  "''POST'' = ''POST'' \<and> ''/integrations/langame/onboarding/status'' \<in> set read_posts"
  by (rule http_unsafe_method_is_write) code_simp+

lemma takeWhile_no_query: "CHR ''?'' \<notin> set p \<Longrightarrow> takeWhile (\<lambda>c. c \<noteq> CHR ''?'') p = p"
  by (induction p) auto

lemma takeWhile_query:
  "CHR ''?'' \<notin> set p \<Longrightarrow> takeWhile (\<lambda>c. c \<noteq> CHR ''?'') (p @ CHR ''?'' # q) = p"
  by (induction p) auto

lemma strip_query_append:
  "CHR ''?'' \<notin> set p \<Longrightarrow> p \<noteq> [] \<Longrightarrow> strip_query (p @ CHR ''?'' # q) = p"
  by (simp add: strip_query_def takeWhile_query)

lemma strip_query_id: "CHR ''?'' \<notin> set p \<Longrightarrow> p \<noteq> [] \<Longrightarrow> strip_query p = p"
  by (simp add: strip_query_def takeWhile_no_query)

text \<open>
  The mount point and the query string do not matter. A path below the global prefix
  \<open>/api\<close>, with any query string behind it, needs exactly what the bare path needs.
\<close>

theorem http_mount_and_query_irrelevant:
  assumes "starts_with p ''/''" and "CHR ''?'' \<notin> set p" and "p \<noteq> ''/api''" and "\<not> starts_with p ''/api/''"
  shows "resolve_http_requirements (r\<lparr>r_path := Some (''/api'' @ p @ CHR ''?'' # q)\<rparr>) =
    resolve_http_requirements (r\<lparr>r_path := Some p\<rparr>)"
proof -
  have ne: "p \<noteq> []" using assms(1) by (auto simp: starts_with_def)
  obtain p' where p: "p = CHR ''/'' # p'" using starts_withE [OF assms(1)] by auto
  have q: "CHR ''?'' \<notin> set (''/api'' @ p)" and "''/api'' @ p \<noteq> []"
    using assms(2) by simp_all
  from strip_query_append [OF this, of q] strip_query_id [OF assms(2) ne]
  have norm: "normalize_request_path (r\<lparr>r_path := Some (''/api'' @ p @ CHR ''?'' # q)\<rparr>) =
      normalize_request_path (r\<lparr>r_path := Some p\<rparr>)"
    using assms(1,3,4) p
    by (simp add: normalize_request_path_def raw_path_def with_leading_slash_def strip_api_def
        starts_with_def)
  have meth: "request_method (r\<lparr>r_path := x\<rparr>) = request_method r" for x
    by (simp add: request_method_def)
  show ?thesis
    unfolding resolve_http_requirements_def resolve_http_access_def norm meth by simp
qed

theorem http_mount_and_query_irrelevant_witness:
  "resolve_http_requirements
     (\<lparr>r_method = None, r_path = None, r_originalUrl = None, r_url = None\<rparr>\<lparr>r_path := Some (''/api'' @ ''/stores'' @ CHR ''?'' # ''page=2'')\<rparr>) =
   resolve_http_requirements
     (\<lparr>r_method = None, r_path = None, r_originalUrl = None, r_url = None\<rparr>\<lparr>r_path := Some ''/stores''\<rparr>)"
  by (rule http_mount_and_query_irrelevant) (simp_all add: starts_with_def)

end
