(* ===== verification/Background_Policy.thy ===== *)
theory Background_Policy
  imports Execution_Policy
begin

text \<open>
  \<open>tenancy/tenant-background-execution-policy.ts\<close>: which background jobs may run for an external
  tenant, and which runtime identity a job has to run under. The tables are total functions of the
  job kind; the untyped inputs are parsed from \<open>js_value\<close> as the code does.
\<close>

section \<open>The registry\<close>

datatype background_stage = BG_INTERNAL | BG_EXTERNAL

datatype job_kind =
  REPORT_DIGEST_SMTP | GUEST_BONUS_LEDGER_LANGAME | LANGAME_SCHEDULED_SYNC | LANGAME_DAILY_SYNC
| LANGAME_BUSINESS_SNAPSHOT | LANGAME_GUEST_DATA_FOUNDATION | GUEST_GAMIFICATION_SNAPSHOT_PIPELINE
| GUEST_GAMIFICATION_SUPPLEMENTAL_PIPELINE | GUEST_GAME_DELIVERY_DISPATCH
| GUEST_GAME_DELIVERY_BOT_PULL | GUEST_ACTIVITY_LEDGER_SYNC | GUEST_GAME_DATA_RETENTION
| GUEST_GAME_LEDGER_FALLBACK | GUEST_GAME_LOOT_BOX_RECOVERY | GUEST_GAME_QUALITY_MONITORING
| GUEST_GAME_REWARD_MATERIALIZER | STAFF_TASK_RECURRING_RULES

definition job_kinds :: "(string \<times> job_kind) list" where
  "job_kinds =
    [(''REPORT_DIGEST_SMTP'', REPORT_DIGEST_SMTP),
     (''GUEST_BONUS_LEDGER_LANGAME'', GUEST_BONUS_LEDGER_LANGAME),
     (''LANGAME_SCHEDULED_SYNC'', LANGAME_SCHEDULED_SYNC),
     (''LANGAME_DAILY_SYNC'', LANGAME_DAILY_SYNC),
     (''LANGAME_BUSINESS_SNAPSHOT'', LANGAME_BUSINESS_SNAPSHOT),
     (''LANGAME_GUEST_DATA_FOUNDATION'', LANGAME_GUEST_DATA_FOUNDATION),
     (''GUEST_GAMIFICATION_SNAPSHOT_PIPELINE'', GUEST_GAMIFICATION_SNAPSHOT_PIPELINE),
     (''GUEST_GAMIFICATION_SUPPLEMENTAL_PIPELINE'', GUEST_GAMIFICATION_SUPPLEMENTAL_PIPELINE),
     (''GUEST_GAME_DELIVERY_DISPATCH'', GUEST_GAME_DELIVERY_DISPATCH),
     (''GUEST_GAME_DELIVERY_BOT_PULL'', GUEST_GAME_DELIVERY_BOT_PULL),
     (''GUEST_ACTIVITY_LEDGER_SYNC'', GUEST_ACTIVITY_LEDGER_SYNC),
     (''GUEST_GAME_DATA_RETENTION'', GUEST_GAME_DATA_RETENTION),
     (''GUEST_GAME_LEDGER_FALLBACK'', GUEST_GAME_LEDGER_FALLBACK),
     (''GUEST_GAME_LOOT_BOX_RECOVERY'', GUEST_GAME_LOOT_BOX_RECOVERY),
     (''GUEST_GAME_QUALITY_MONITORING'', GUEST_GAME_QUALITY_MONITORING),
     (''GUEST_GAME_REWARD_MATERIALIZER'', GUEST_GAME_REWARD_MATERIALIZER),
     (''STAFF_TASK_RECURRING_RULES'', STAFF_TASK_RECURRING_RULES)]"

datatype external_policy = REVISION_FENCED | EXTERNAL_DENY

datatype identity_requirement =
  TENANT_SYSTEM_IDENTITY | TENANT_STORE_SYSTEM_IDENTITY | TENANT_OR_STORE_SYSTEM_IDENTITY

record job_metadata =
  md_systemIdentity :: identity_requirement
  md_sharedServiceTokenAllowed :: bool

datatype actor_kind = TENANT_SYSTEM | TENANT_STORE_SYSTEM | SHARED_SERVICE_TOKEN

fun execution_registry :: "job_kind \<Rightarrow> external_policy" where
  "execution_registry REPORT_DIGEST_SMTP = REVISION_FENCED"
| "execution_registry GUEST_BONUS_LEDGER_LANGAME = REVISION_FENCED"
| "execution_registry LANGAME_SCHEDULED_SYNC = EXTERNAL_DENY"
| "execution_registry LANGAME_DAILY_SYNC = REVISION_FENCED"
| "execution_registry LANGAME_BUSINESS_SNAPSHOT = REVISION_FENCED"
| "execution_registry LANGAME_GUEST_DATA_FOUNDATION = REVISION_FENCED"
| "execution_registry GUEST_GAMIFICATION_SNAPSHOT_PIPELINE = EXTERNAL_DENY"
| "execution_registry GUEST_GAMIFICATION_SUPPLEMENTAL_PIPELINE = EXTERNAL_DENY"
| "execution_registry GUEST_GAME_DELIVERY_DISPATCH = EXTERNAL_DENY"
| "execution_registry GUEST_GAME_DELIVERY_BOT_PULL = EXTERNAL_DENY"
| "execution_registry GUEST_ACTIVITY_LEDGER_SYNC = EXTERNAL_DENY"
| "execution_registry GUEST_GAME_DATA_RETENTION = EXTERNAL_DENY"
| "execution_registry GUEST_GAME_LEDGER_FALLBACK = EXTERNAL_DENY"
| "execution_registry GUEST_GAME_LOOT_BOX_RECOVERY = EXTERNAL_DENY"
| "execution_registry GUEST_GAME_QUALITY_MONITORING = EXTERNAL_DENY"
| "execution_registry GUEST_GAME_REWARD_MATERIALIZER = EXTERNAL_DENY"
| "execution_registry STAFF_TASK_RECURRING_RULES = EXTERNAL_DENY"

fun identity_of :: "job_kind \<Rightarrow> identity_requirement" where
  "identity_of REPORT_DIGEST_SMTP = TENANT_SYSTEM_IDENTITY"
| "identity_of GUEST_BONUS_LEDGER_LANGAME = TENANT_STORE_SYSTEM_IDENTITY"
| "identity_of LANGAME_SCHEDULED_SYNC = TENANT_SYSTEM_IDENTITY"
| "identity_of LANGAME_DAILY_SYNC = TENANT_SYSTEM_IDENTITY"
| "identity_of LANGAME_BUSINESS_SNAPSHOT = TENANT_SYSTEM_IDENTITY"
| "identity_of LANGAME_GUEST_DATA_FOUNDATION = TENANT_SYSTEM_IDENTITY"
| "identity_of GUEST_GAMIFICATION_SNAPSHOT_PIPELINE = TENANT_SYSTEM_IDENTITY"
| "identity_of GUEST_GAMIFICATION_SUPPLEMENTAL_PIPELINE = TENANT_SYSTEM_IDENTITY"
| "identity_of GUEST_GAME_DELIVERY_DISPATCH = TENANT_STORE_SYSTEM_IDENTITY"
| "identity_of GUEST_GAME_DELIVERY_BOT_PULL = TENANT_STORE_SYSTEM_IDENTITY"
| "identity_of GUEST_ACTIVITY_LEDGER_SYNC = TENANT_SYSTEM_IDENTITY"
| "identity_of GUEST_GAME_DATA_RETENTION = TENANT_SYSTEM_IDENTITY"
| "identity_of GUEST_GAME_LEDGER_FALLBACK = TENANT_STORE_SYSTEM_IDENTITY"
| "identity_of GUEST_GAME_LOOT_BOX_RECOVERY = TENANT_STORE_SYSTEM_IDENTITY"
| "identity_of GUEST_GAME_QUALITY_MONITORING = TENANT_OR_STORE_SYSTEM_IDENTITY"
| "identity_of GUEST_GAME_REWARD_MATERIALIZER = TENANT_STORE_SYSTEM_IDENTITY"
| "identity_of STAFF_TASK_RECURRING_RULES = TENANT_STORE_SYSTEM_IDENTITY"

definition job_execution_metadata :: "job_kind \<Rightarrow> job_metadata" where
  "job_execution_metadata k =
     \<lparr>md_systemIdentity = identity_of k, md_sharedServiceTokenAllowed = False\<rparr>"

section \<open>The policy decision\<close>

datatype background_reason =
  ALLOWED_INTERNAL_LEGACY | ALLOWED_EXTERNAL_REVISION_FENCED
| BACKGROUND_EXECUTION_STAGE_REQUIRED | BACKGROUND_EXECUTION_STAGE_UNKNOWN
| BACKGROUND_JOB_KIND_REQUIRED | BACKGROUND_JOB_KIND_UNKNOWN | BACKGROUND_EXTERNAL_EXECUTION_DENIED

fun background_reason_name :: "background_reason \<Rightarrow> string" where
  "background_reason_name ALLOWED_INTERNAL_LEGACY = ''ALLOWED_INTERNAL_LEGACY''"
| "background_reason_name ALLOWED_EXTERNAL_REVISION_FENCED = ''ALLOWED_EXTERNAL_REVISION_FENCED''"
| "background_reason_name BACKGROUND_EXECUTION_STAGE_REQUIRED = ''BACKGROUND_EXECUTION_STAGE_REQUIRED''"
| "background_reason_name BACKGROUND_EXECUTION_STAGE_UNKNOWN = ''BACKGROUND_EXECUTION_STAGE_UNKNOWN''"
| "background_reason_name BACKGROUND_JOB_KIND_REQUIRED = ''BACKGROUND_JOB_KIND_REQUIRED''"
| "background_reason_name BACKGROUND_JOB_KIND_UNKNOWN = ''BACKGROUND_JOB_KIND_UNKNOWN''"
| "background_reason_name BACKGROUND_EXTERNAL_EXECUTION_DENIED = ''BACKGROUND_EXTERNAL_EXECUTION_DENIED''"

fun policy_notes :: "background_reason \<Rightarrow> string" where
  "policy_notes ALLOWED_INTERNAL_LEGACY =
     ''Known background job is allowed in the legacy internal stage.''"
| "policy_notes ALLOWED_EXTERNAL_REVISION_FENCED =
     ''External background job is allowed because its effect path is revision-fenced.''"
| "policy_notes BACKGROUND_EXECUTION_STAGE_REQUIRED = ''Background execution stage is required.''"
| "policy_notes BACKGROUND_EXECUTION_STAGE_UNKNOWN = ''Background execution stage is not recognized.''"
| "policy_notes BACKGROUND_JOB_KIND_REQUIRED = ''Background job kind is required.''"
| "policy_notes BACKGROUND_JOB_KIND_UNKNOWN = ''Background job kind is not recognized.''"
| "policy_notes BACKGROUND_EXTERNAL_EXECUTION_DENIED =
     ''External execution is denied until this background job has a revision-fenced effect path.''"

record background_decision =
  bd_allowed :: bool
  bd_reason :: background_reason
  bd_note :: string
  bd_stage :: "background_stage option"
  bd_jobKind :: "job_kind option"
  bd_externalPolicy :: "external_policy option"
  bd_systemIdentity :: "identity_requirement option"
  bd_sharedServiceTokenAllowed :: bool

definition allowed_decision ::
  "background_reason \<Rightarrow> background_stage \<Rightarrow> job_kind \<Rightarrow> external_policy \<Rightarrow> job_metadata \<Rightarrow>
   background_decision" where
  "allowed_decision r st k pol md =
     \<lparr>bd_allowed = True, bd_reason = r, bd_note = policy_notes r, bd_stage = Some st,
      bd_jobKind = Some k, bd_externalPolicy = Some pol,
      bd_systemIdentity = Some (md_systemIdentity md),
      bd_sharedServiceTokenAllowed = md_sharedServiceTokenAllowed md\<rparr>"

definition denied_decision ::
  "background_reason \<Rightarrow> background_stage option \<Rightarrow> job_kind option \<Rightarrow> external_policy option \<Rightarrow>
   job_metadata option \<Rightarrow> background_decision" where
  "denied_decision r st k pol md =
     \<lparr>bd_allowed = False, bd_reason = r, bd_note = policy_notes r, bd_stage = st,
      bd_jobKind = k, bd_externalPolicy = pol,
      bd_systemIdentity = map_option md_systemIdentity md, bd_sharedServiceTokenAllowed = False\<rparr>"

definition parse_background_stage :: "js_value \<Rightarrow> background_stage option" where
  "parse_background_stage v =
     parse_enum [(''INTERNAL'', BG_INTERNAL), (''EXTERNAL'', BG_EXTERNAL)] v"

definition parse_job_kind :: "js_value \<Rightarrow> job_kind option" where
  "parse_job_kind v = parse_enum job_kinds v"

definition evaluate_background_policy :: "js_value \<Rightarrow> js_value \<Rightarrow> background_decision" where
  "evaluate_background_policy stage kind =
     (if js_missing stage
      then denied_decision BACKGROUND_EXECUTION_STAGE_REQUIRED None None None None
      else case parse_background_stage stage of
        None \<Rightarrow> denied_decision BACKGROUND_EXECUTION_STAGE_UNKNOWN None None None None
      | Some st \<Rightarrow>
          if js_missing kind
          then denied_decision BACKGROUND_JOB_KIND_REQUIRED (Some st) None None None
          else (case parse_job_kind kind of
              None \<Rightarrow> denied_decision BACKGROUND_JOB_KIND_UNKNOWN (Some st) None None None
            | Some k \<Rightarrow>
                let pol = execution_registry k; md = job_execution_metadata k
                in if st = BG_INTERNAL
                   then allowed_decision ALLOWED_INTERNAL_LEGACY st k pol md
                   else if pol = REVISION_FENCED
                   then allowed_decision ALLOWED_EXTERNAL_REVISION_FENCED st k pol md
                   else denied_decision BACKGROUND_EXTERNAL_EXECUTION_DENIED (Some st) (Some k)
                          (Some pol) (Some md)))"

definition stage_for_customer_stage :: "js_value \<Rightarrow> background_stage option" where
  "stage_for_customer_stage v =
     (case parse_enum [(''INTERNAL'', INTERNAL), (''PILOT'', PILOT), (''BETA'', BETA), (''LIVE'', LIVE)] v of
        None \<Rightarrow> None
      | Some s \<Rightarrow> Some (if s = INTERNAL then BG_INTERNAL else BG_EXTERNAL))"

definition background_execution_note :: "background_decision \<Rightarrow> string" where
  "background_execution_note d =
     ''Background execution '' @ background_reason_name (bd_reason d) @ '': '' @ bd_note d"

section \<open>The runtime identity\<close>

datatype identity_reason =
  BACKGROUND_POLICY_DENIED | BACKGROUND_RUNTIME_ACTOR_KIND_REQUIRED
| BACKGROUND_RUNTIME_ACTOR_KIND_UNKNOWN | BACKGROUND_SHARED_SERVICE_TOKEN_DENIED
| BACKGROUND_TENANT_SYSTEM_IDENTITY_REQUIRED | BACKGROUND_TENANT_STORE_SYSTEM_IDENTITY_REQUIRED
| BACKGROUND_TENANT_ID_REQUIRED | BACKGROUND_STORE_ID_REQUIRED
| BACKGROUND_RUNTIME_IDENTITY_ACCEPTED

record identity_decision =
  id_accepted :: bool
  id_reason :: identity_reason
  id_policyReason :: background_reason
  id_jobKind :: "job_kind option"
  id_systemIdentity :: "identity_requirement option"
  id_actorKind :: "actor_kind option"
  id_tenantId :: "string option"
  id_storeId :: "string option"
  id_sharedServiceTokenAllowed :: bool

definition runtime_identity_decision ::
  "bool \<Rightarrow> identity_reason \<Rightarrow> background_decision \<Rightarrow> actor_kind option \<Rightarrow> string option \<Rightarrow>
   string option \<Rightarrow> identity_decision" where
  "runtime_identity_decision acc r d actor tid sid =
     \<lparr>id_accepted = acc, id_reason = r, id_policyReason = bd_reason d, id_jobKind = bd_jobKind d,
      id_systemIdentity = bd_systemIdentity d, id_actorKind = actor, id_tenantId = tid,
      id_storeId = sid, id_sharedServiceTokenAllowed = False\<rparr>"

definition parse_actor_kind :: "js_value \<Rightarrow> actor_kind option" where
  "parse_actor_kind v =
     parse_enum [(''TENANT_SYSTEM'', TENANT_SYSTEM), (''TENANT_STORE_SYSTEM'', TENANT_STORE_SYSTEM),
       (''SHARED_SERVICE_TOKEN'', SHARED_SERVICE_TOKEN)] v"

fun parse_non_empty :: "js_value \<Rightarrow> string option" where
  "parse_non_empty (JStr s) = trim_or_none (Some s)"
| "parse_non_empty _ = None"

definition evaluate_runtime_identity ::
  "background_decision \<Rightarrow> js_value \<Rightarrow> js_value \<Rightarrow> js_value \<Rightarrow> identity_decision" where
  "evaluate_runtime_identity d actor_in tenant_in store_in =
     (let actor = parse_actor_kind actor_in; tid = parse_non_empty tenant_in;
          sid = parse_non_empty store_in
      in if \<not> bd_allowed d
         then runtime_identity_decision False BACKGROUND_POLICY_DENIED d actor tid sid
         else if js_missing actor_in
         then runtime_identity_decision False BACKGROUND_RUNTIME_ACTOR_KIND_REQUIRED d None tid sid
         else if actor = None
         then runtime_identity_decision False BACKGROUND_RUNTIME_ACTOR_KIND_UNKNOWN d None tid sid
         else if actor = Some SHARED_SERVICE_TOKEN
         then runtime_identity_decision False BACKGROUND_SHARED_SERVICE_TOKEN_DENIED d actor tid sid
         else if tid = None
         then runtime_identity_decision False BACKGROUND_TENANT_ID_REQUIRED d actor None sid
         else if bd_systemIdentity d = Some TENANT_SYSTEM_IDENTITY \<and> actor \<noteq> Some TENANT_SYSTEM
         then runtime_identity_decision False BACKGROUND_TENANT_SYSTEM_IDENTITY_REQUIRED d actor tid sid
         else if bd_systemIdentity d = Some TENANT_STORE_SYSTEM_IDENTITY \<and>
                 actor \<noteq> Some TENANT_STORE_SYSTEM
         then runtime_identity_decision False BACKGROUND_TENANT_STORE_SYSTEM_IDENTITY_REQUIRED d actor tid sid
         else if bd_systemIdentity d = Some TENANT_STORE_SYSTEM_IDENTITY \<and> sid = None
         then runtime_identity_decision False BACKGROUND_STORE_ID_REQUIRED d actor tid None
         else if bd_systemIdentity d = Some TENANT_OR_STORE_SYSTEM_IDENTITY \<and>
                 actor = Some TENANT_STORE_SYSTEM \<and> sid = None
         then runtime_identity_decision False BACKGROUND_STORE_ID_REQUIRED d actor tid None
         else runtime_identity_decision True BACKGROUND_RUNTIME_IDENTITY_ACCEPTED d actor tid
                (if actor = Some TENANT_STORE_SYSTEM then sid else None))"

section \<open>Lemmas\<close>

lemma parse_enum_missing:
  "js_missing v \<Longrightarrow> [] \<notin> fst ` set table \<Longrightarrow> parse_enum table v = None"
  by (cases v) (auto simp: map_of_eq_None_iff)

lemma parse_background_stage_missing: "js_missing v \<Longrightarrow> parse_background_stage v = None"
  unfolding parse_background_stage_def by (rule parse_enum_missing) simp_all

lemma parse_job_kind_missing: "js_missing v \<Longrightarrow> parse_job_kind v = None"
  unfolding parse_job_kind_def job_kinds_def by (rule parse_enum_missing) simp_all

lemma parse_actor_kind_missing: "js_missing v \<Longrightarrow> parse_actor_kind v = None"
  unfolding parse_actor_kind_def by (rule parse_enum_missing) simp_all

lemma background_decision_simps [simp]:
  "bd_allowed (allowed_decision r st k pol md)" "\<not> bd_allowed (denied_decision r st' k' pol' md')"
  "bd_systemIdentity (allowed_decision r st k pol md) = Some (md_systemIdentity md)"
  "bd_jobKind (allowed_decision r st k pol md) = Some k"
  by (simp_all add: allowed_decision_def denied_decision_def)

lemma background_policy_allowed:
  "bd_allowed (evaluate_background_policy stage kind) \<longleftrightarrow>
    (\<exists>st k. parse_background_stage stage = Some st \<and> parse_job_kind kind = Some k \<and>
       (st = BG_INTERNAL \<or> execution_registry k = REVISION_FENCED))"
  using parse_background_stage_missing [of stage] parse_job_kind_missing [of kind]
  by (auto simp: evaluate_background_policy_def Let_def split: option.splits)

lemma background_policy_allowed_kind:
  assumes "bd_allowed (evaluate_background_policy stage kind)"
  shows "bd_jobKind (evaluate_background_policy stage kind) = parse_job_kind kind \<and>
    bd_systemIdentity (evaluate_background_policy stage kind) = map_option identity_of (parse_job_kind kind)"
  using assms
  by (auto simp: evaluate_background_policy_def Let_def job_execution_metadata_def
      split: option.splits if_splits)

lemma parse_non_empty_Some: "parse_non_empty v = Some s \<Longrightarrow> s \<noteq> [] \<and> js_trim s = s"
  by (cases v) (auto dest: trim_or_none_Some)

text \<open>The identities a requirement accepts, and whether the actor is bound to a store.\<close>

fun identity_fits :: "identity_requirement \<Rightarrow> actor_kind \<Rightarrow> bool" where
  "identity_fits TENANT_SYSTEM_IDENTITY a = (a = TENANT_SYSTEM)"
| "identity_fits TENANT_STORE_SYSTEM_IDENTITY a = (a = TENANT_STORE_SYSTEM)"
| "identity_fits TENANT_OR_STORE_SYSTEM_IDENTITY a = (a = TENANT_SYSTEM \<or> a = TENANT_STORE_SYSTEM)"

lemma runtime_identity_simps [simp]:
  "id_accepted (runtime_identity_decision acc r d actor tid sid) = acc"
  "id_actorKind (runtime_identity_decision acc r d actor tid sid) = actor"
  "id_tenantId (runtime_identity_decision acc r d actor tid sid) = tid"
  "id_storeId (runtime_identity_decision acc r d actor tid sid) = sid"
  by (simp_all add: runtime_identity_decision_def)

lemma runtime_identity_accepted:
  assumes "bd_systemIdentity d = Some req"
  shows "id_accepted (evaluate_runtime_identity d a t s) \<longleftrightarrow>
    bd_allowed d \<and> parse_non_empty t \<noteq> None \<and>
    (\<exists>actor. parse_actor_kind a = Some actor \<and> identity_fits req actor \<and>
       (actor = TENANT_STORE_SYSTEM \<longrightarrow> parse_non_empty s \<noteq> None))"
  using assms parse_actor_kind_missing [of a]
  by (cases req; cases "parse_actor_kind a")
    (auto simp: evaluate_runtime_identity_def Let_def intro: actor_kind.exhaust)

lemma runtime_identity_accepted_fields:
  assumes "id_accepted (evaluate_runtime_identity d a t s)"
  shows "id_actorKind (evaluate_runtime_identity d a t s) = parse_actor_kind a \<and>
    id_tenantId (evaluate_runtime_identity d a t s) = parse_non_empty t \<and>
    id_storeId (evaluate_runtime_identity d a t s) =
      (if parse_actor_kind a = Some TENANT_STORE_SYSTEM then parse_non_empty s else None)"
  using assms by (auto simp: evaluate_runtime_identity_def Let_def split: if_splits)

section \<open>Properties\<close>

text \<open>
  External jobs are revision fenced. A background job is allowed exactly when both inputs name
  known values and, for every customer stage other than the internal one, the registry lists the job
  as revision fenced; everything else is denied.
\<close>

theorem background_policy_exact:
  "bd_allowed (evaluate_background_policy stage kind) =
     (\<exists>st k. parse_background_stage stage = Some st \<and> parse_job_kind kind = Some k \<and>
        (st = BG_INTERNAL \<or>
         k \<in> {REPORT_DIGEST_SMTP, GUEST_BONUS_LEDGER_LANGAME, LANGAME_DAILY_SYNC,
              LANGAME_BUSINESS_SNAPSHOT, LANGAME_GUEST_DATA_FOUNDATION}))"
proof -
  have "execution_registry k = REVISION_FENCED \<longleftrightarrow>
      k \<in> {REPORT_DIGEST_SMTP, GUEST_BONUS_LEDGER_LANGAME, LANGAME_DAILY_SYNC,
            LANGAME_BUSINESS_SNAPSHOT, LANGAME_GUEST_DATA_FOUNDATION}" for k
    by (cases k) simp_all
  then show ?thesis by (simp add: background_policy_allowed)
qed

text \<open>
  An accepted runtime identity is a sufficient one. When a job kind passes the policy and its
  runtime identity is accepted, the actor is a system actor of the kind the job's metadata asks for
  and never the shared service token, the tenant id is a non empty trimmed text, and a store bound
  actor comes with a non empty store id.
\<close>

theorem background_identity_sound:
  assumes "id_accepted (evaluate_runtime_identity (evaluate_background_policy stage kind) a t s)"
  shows "\<exists>k actor tid. parse_job_kind kind = Some k \<and>
    id_actorKind (evaluate_runtime_identity (evaluate_background_policy stage kind) a t s) = Some actor \<and>
    identity_fits (identity_of k) actor \<and> actor \<noteq> SHARED_SERVICE_TOKEN \<and>
    id_tenantId (evaluate_runtime_identity (evaluate_background_policy stage kind) a t s) = Some tid \<and>
    tid \<noteq> [] \<and> js_trim tid = tid \<and>
    (actor = TENANT_STORE_SYSTEM \<longrightarrow>
      (\<exists>sid. id_storeId (evaluate_runtime_identity (evaluate_background_policy stage kind) a t s) = Some sid
         \<and> sid \<noteq> []))"
proof -
  let ?d = "evaluate_background_policy stage kind"
  have "bd_allowed ?d"
    using assms by (auto simp: evaluate_runtime_identity_def Let_def split: if_splits)
  then obtain k where k: "parse_job_kind kind = Some k" "bd_systemIdentity ?d = Some (identity_of k)"
    using background_policy_allowed_kind [of stage kind] by (auto simp: background_policy_allowed)
  from runtime_identity_accepted [OF k(2)] assms obtain actor tid
    where actor: "parse_actor_kind a = Some actor" "identity_fits (identity_of k) actor"
      "parse_non_empty t = Some tid" "actor = TENANT_STORE_SYSTEM \<longrightarrow> parse_non_empty s \<noteq> None"
    by blast
  moreover have "actor \<noteq> SHARED_SERVICE_TOKEN"
    using actor(2) by (cases "identity_of k") auto
  ultimately show ?thesis
    using k runtime_identity_accepted_fields [OF assms] parse_non_empty_Some
    by fastforce
qed

theorem background_identity_sound_witness:
  "\<exists>k actor tid. parse_job_kind (JStr ''GUEST_GAME_LEDGER_FALLBACK'') = Some k \<and>
    identity_fits (identity_of k) actor \<and> actor \<noteq> SHARED_SERVICE_TOKEN \<and> tid \<noteq> ([] :: string)"
  using background_identity_sound [of "JStr ''INTERNAL''" "JStr ''GUEST_GAME_LEDGER_FALLBACK''"
      "JStr ''TENANT_STORE_SYSTEM''" "JStr '' t1 ''" "JStr ''s1''"]
  by (auto simp: evaluate_runtime_identity_def evaluate_background_policy_def Let_def
      parse_background_stage_def parse_job_kind_def job_kinds_def parse_actor_kind_def
      allowed_decision_def runtime_identity_decision_def job_execution_metadata_def trim_or_none_def
      js_trim_def is_ws_def)

end
