(* ===== verification/Js_Date.thy ===== *)
theory Js_Date
  imports Tenant_Model "HOL-Library.Monad_Syntax"
begin

text \<open>
  The part of the JavaScript \<open>Date\<close> the program relies on: the proleptic Gregorian calendar of
  \<open>Date.UTC\<close> and the \<open>getUTC...\<close> methods, \<open>toISOString\<close>, and the parsing of ISO texts
  by \<open>new Date(text)\<close>.

  \<^item> \<open>day_number\<close> and \<open>civil_of_day\<close> convert between a date and the number of days since
    1970-01-01; they are inverse to each other (\<open>civil_of_day_number\<close>, \<open>day_number_civil\<close>).
  \<^item> \<open>to_iso\<close> prints an instant; \<open>parse_iso\<close> reads the ISO date-time format with an explicit
    offset. The language leaves every other text to the implementation; that part of
    \<open>js_parse_date\<close> is its parameter \<open>legacy\<close>.
  \<^item> \<open>parse_to_iso\<close>: an instant printed and read again is the same instant.
\<close>

section \<open>The calendar\<close>

definition leap :: "int \<Rightarrow> bool" where
  "leap y \<longleftrightarrow> (y mod 4 = 0 \<and> y mod 100 \<noteq> 0) \<or> y mod 400 = 0"

definition days_before_year :: "int \<Rightarrow> int" where
  "days_before_year y =
     365 * (y - 1970) + (y - 1969) div 4 - (y - 1901) div 100 + (y - 1601) div 400"

definition year_of_day :: "int \<Rightarrow> int" where
  "year_of_day n =
     (let y = 1970 + (400 * n) div 146097
      in if days_before_year (y + 1) \<le> n then y + 1
         else if n < days_before_year y then y - 1 else y)"

text \<open>Days before the first of a month in its year, and the month of a day of the year.\<close>

definition month_start :: "bool \<Rightarrow> int \<Rightarrow> int" where
  "month_start lp m =
     (if m \<le> 1 then 0 else if m = 2 then 31
      else (if lp then 1 else 0) +
        (if m = 3 then 59 else if m = 4 then 90 else if m = 5 then 120 else if m = 6 then 151
         else if m = 7 then 181 else if m = 8 then 212 else if m = 9 then 243
         else if m = 10 then 273 else if m = 11 then 304 else if m = 12 then 334 else 365))"

definition month_length :: "bool \<Rightarrow> int \<Rightarrow> int" where
  "month_length lp m =
     (if m = 2 then (if lp then 29 else 28) else if m \<in> {4, 6, 9, 11} then 30 else 31)"

definition month_of_yday :: "bool \<Rightarrow> int \<Rightarrow> int" where
  "month_of_yday lp k =
     (if k < 31 then 1
      else let j = (if lp then k - 1 else k)
      in if k < 59 \<or> (lp \<and> k < 60) then 2
         else if j < 90 then 3 else if j < 120 then 4 else if j < 151 then 5
         else if j < 181 then 6 else if j < 212 then 7 else if j < 243 then 8 else if j < 273 then 9
         else if j < 304 then 10 else if j < 334 then 11 else 12)"

record civil =
  c_year :: int
  c_month :: int
  c_day :: int

definition day_number :: "civil \<Rightarrow> int" where
  "day_number c = days_before_year (c_year c) + month_start (leap (c_year c)) (c_month c) + (c_day c - 1)"

definition civil_of_day :: "int \<Rightarrow> civil" where
  "civil_of_day n =
     (let y = year_of_day n; k = n - days_before_year y; m = month_of_yday (leap y) k
      in \<lparr>c_year = y, c_month = m, c_day = k - month_start (leap y) m + 1\<rparr>)"

definition valid_civil :: "civil \<Rightarrow> bool" where
  "valid_civil c \<longleftrightarrow>
     1 \<le> c_month c \<and> c_month c \<le> 12 \<and> 1 \<le> c_day c \<and>
     c_day c \<le> month_length (leap (c_year c)) (c_month c)"

lemma div_bounds: "0 < k \<Longrightarrow> k * (a div k) \<le> (a :: int) \<and> a \<le> k * (a div k) + (k - 1)"
  using pos_mod_bound [of k a] pos_mod_sign [of k a] mult_div_mod_eq [of k a] by linarith

lemma div_step:
  assumes "0 < k"
  shows "(a + 1) div k = a div k + (if (a + 1) mod k = 0 then 1 else (0 :: int))"
proof (cases "a mod k + 1 = k")
  case True
  have "k * (a div k + 1) = k * (a div k) + k"
    by (simp add: algebra_simps)
  then have "a + 1 = k * (a div k + 1)"
    using mult_div_mod_eq [of k a] True by linarith
  with assms show ?thesis by simp
next
  case False
  have "0 \<le> a mod k" "a mod k < k" using assms by simp_all
  moreover from this False have "a mod k + 1 < k" by linarith
  moreover have "a + 1 = k * (a div k) + (a mod k + 1)"
    using mult_div_mod_eq [of k a] by linarith
  ultimately have "(a + 1) div k = a div k" and "(a + 1) mod k = a mod k + 1"
    using int_div_pos_eq [of "a + 1" k "a div k" "a mod k + 1"]
      int_mod_pos_eq [of "a + 1" k "a div k" "a mod k + 1"] by simp_all
  then show ?thesis using \<open>0 \<le> a mod k\<close> by simp
qed

lemma mod_shift: "(y - c * k) mod k = y mod (k :: int)"
  using mod_mult_self1 [of y "- c" k] by simp

lemma div_step_shift:
  assumes "0 < (k :: int)"
  shows "(y - c * k) div k = (y - c * k - 1) div k + (if y mod k = 0 then 1 else 0)"
  using div_step [OF assms, of "y - c * k - 1"] by (simp only: diff_add_cancel mod_shift)

lemma days_before_year_Suc:
  "days_before_year (y + 1) = days_before_year y + (if leap y then 366 else 365)"
proof -
  define a b c where "a = (y - 1969) div 4" and "b = (y - 1901) div 100" and "c = (y - 1601) div 400"
  have eqs: "y + 1 - 1969 = y - 492 * 4" "y + 1 - 1901 = y - 19 * 100" "y + 1 - 1601 = y - 4 * 400"
    "y - 1969 = y - 492 * 4 - 1" "y - 1901 = y - 19 * 100 - 1" "y - 1601 = y - 4 * 400 - 1"
    by simp_all
  have steps: "(y + 1 - 1969) div 4 = a + (if y mod 4 = 0 then 1 else 0)"
    "(y + 1 - 1901) div 100 = b + (if y mod 100 = 0 then 1 else 0)"
    "(y + 1 - 1601) div 400 = c + (if y mod 400 = 0 then 1 else 0)"
    unfolding a_def b_def c_def eqs by (rule div_step_shift; simp)+
  have base: "days_before_year y = 365 * (y - 1970) + a - b + c"
    unfolding days_before_year_def a_def b_def c_def by (rule HOL.refl)
  have mods: "y mod 400 = 0 \<Longrightarrow> y mod 100 = 0" "y mod 100 = 0 \<Longrightarrow> y mod 4 = 0"
    using dvd_trans [of 100 400 y] dvd_trans [of 4 100 y] by (simp_all add: mod_eq_0_iff_dvd)
  show ?thesis
    unfolding base unfolding days_before_year_def [of "y + 1"] steps leap_def
    using mods by (cases "y mod 400 = 0"; cases "y mod 100 = 0"; cases "y mod 4 = 0") simp_all
qed

lemma days_before_year_mono:
  assumes "y \<le> z"
  shows "days_before_year y + 365 * (z - y) \<le> days_before_year z"
proof -
  have "days_before_year y + 365 * int k \<le> days_before_year (y + int k)" for k
  proof (induction k)
    case 0
    then show ?case by simp
  next
    case (Suc k)
    have "days_before_year (y + int k) + 365 \<le> days_before_year (y + int k + 1)"
      by (simp add: days_before_year_Suc)
    then show ?case using Suc by (simp add: ac_simps)
  qed
  from this [of "nat (z - y)"] assms show ?thesis by simp
qed

lemma year_of_day_bounds:
  "days_before_year (year_of_day n) \<le> n \<and> n < days_before_year (year_of_day n + 1)"
proof -
  define k where "k = (400 * n) div 146097"
  have k: "146097 * k \<le> 400 * n" "400 * n \<le> 146097 * k + 146096"
    using div_bounds [of 146097 "400 * n"] unfolding k_def by auto
  have bound: "400 * days_before_year (1970 + j) \<le> 146097 * j + 589 \<and>
      146097 * j - 506 \<le> 400 * days_before_year (1970 + j)" for j
    using div_bounds [of 4 "j + 1"] div_bounds [of 100 "j + 69"] div_bounds [of 400 "j + 369"]
    unfolding days_before_year_def by (simp add: algebra_simps)
  have "days_before_year (1970 + k - 1) \<le> n"
    using bound [of "k - 1"] k by (simp add: algebra_simps)
  moreover have "n < days_before_year (1970 + k + 1 + 1)"
    using bound [of "k + 2"] k by (simp add: algebra_simps)
  ultimately show ?thesis
    unfolding year_of_day_def Let_def k_def [symmetric] by auto
qed

lemma year_of_day_unique:
  assumes "days_before_year y \<le> n" and "n < days_before_year (y + 1)"
  shows "year_of_day n = y"
proof (rule ccontr)
  assume "year_of_day n \<noteq> y"
  then consider "y + 1 \<le> year_of_day n" | "year_of_day n + 1 \<le> y" by linarith
  then show False
  proof cases
    case 1
    from days_before_year_mono [OF this] year_of_day_bounds [of n] assms 1 show False by auto
  next
    case 2
    from days_before_year_mono [OF this] year_of_day_bounds [of n] assms 2 show False by auto
  qed
qed

lemma month_of_yday_bounds:
  assumes "0 \<le> k" and "k < (if lp then 366 else 365)"
  shows "1 \<le> month_of_yday lp k \<and> month_of_yday lp k \<le> 12 \<and>
    month_start lp (month_of_yday lp k) \<le> k \<and>
    k < month_start lp (month_of_yday lp k) + month_length lp (month_of_yday lp k)"
  using assms unfolding month_of_yday_def Let_def
  by (cases lp) (simp_all add: month_start_def month_length_def)

lemma month_range: "1 \<le> m \<Longrightarrow> m \<le> (12 :: int) \<Longrightarrow> m \<in> {1, 2, 3, 4, 5, 6, 7, 8, 9, 10, 11, 12}"
  by (simp only: insert_iff empty_iff) presburger

lemma month_of_yday_start:
  assumes "1 \<le> m" and "m \<le> 12" and "1 \<le> d" and "d \<le> month_length lp m"
  shows "month_of_yday lp (month_start lp m + (d - 1)) = m"
  using month_range [OF assms(1,2)] assms(3,4)
  by (elim insertE) (auto simp: month_of_yday_def Let_def month_start_def month_length_def split: if_splits)

lemma yday_in_year:
  assumes "1 \<le> m" and "m \<le> 12" and "1 \<le> d" and "d \<le> month_length lp m"
  shows "0 \<le> month_start lp m + (d - 1) \<and> month_start lp m + (d - 1) < (if lp then 366 else 365)"
  using month_range [OF assms(1,2)] assms(3,4)
  by (elim insertE) (auto simp: month_start_def month_length_def split: if_splits)

lemma day_number_civil [simp]: "day_number (civil_of_day n) = n"
  by (simp add: day_number_def civil_of_day_def Let_def)

lemma valid_civil_of_day [simp]: "valid_civil (civil_of_day n)"
proof -
  have "0 \<le> n - days_before_year (year_of_day n)"
    and "n - days_before_year (year_of_day n) < (if leap (year_of_day n) then 366 else 365)"
    using year_of_day_bounds [of n] days_before_year_Suc [of "year_of_day n"] by auto
  from month_of_yday_bounds [OF this] show ?thesis
    by (simp add: valid_civil_def civil_of_day_def Let_def)
qed

lemma civil_of_day_number [simp]:
  assumes "valid_civil c"
  shows "civil_of_day (day_number c) = c"
proof -
  let ?lp = "leap (c_year c)"
  let ?k = "month_start ?lp (c_month c) + (c_day c - 1)"
  have c: "1 \<le> c_month c" "c_month c \<le> 12" "1 \<le> c_day c" "c_day c \<le> month_length ?lp (c_month c)"
    using assms by (auto simp: valid_civil_def)
  have "year_of_day (day_number c) = c_year c"
    using yday_in_year [OF c] days_before_year_Suc [of "c_year c"]
    by (intro year_of_day_unique) (auto simp: day_number_def)
  moreover have "day_number c - days_before_year (c_year c) = ?k"
    by (simp add: day_number_def)
  ultimately show ?thesis
    using month_of_yday_start [OF c] by (simp add: civil_of_day_def Let_def)
qed

section \<open>Decimal digits\<close>

definition digit_char :: "nat \<Rightarrow> char" where
  "digit_char d = char_of (48 + d)"

definition char_digit :: "char \<Rightarrow> nat option" where
  "char_digit c = (let n = of_char c :: nat in if 48 \<le> n \<and> n \<le> 57 then Some (n - 48) else None)"

fun show_digits :: "nat \<Rightarrow> nat \<Rightarrow> string" where
  "show_digits 0 n = []"
| "show_digits (Suc k) n = show_digits k (n div 10) @ [digit_char (n mod 10)]"

fun read_digits :: "nat \<Rightarrow> nat \<Rightarrow> string \<Rightarrow> (nat \<times> string) option" where
  "read_digits 0 acc s = Some (acc, s)"
| "read_digits (Suc k) acc [] = None"
| "read_digits (Suc k) acc (c # s) =
     (case char_digit c of None \<Rightarrow> None | Some d \<Rightarrow> read_digits k (10 * acc + d) s)"

lemma char_digit_digit [simp]: "d < 10 \<Longrightarrow> char_digit (digit_char d) = Some d"
  by (simp add: char_digit_def digit_char_def Let_def)

lemma read_digits_append:
  "read_digits (j + k) acc (show_digits j n @ s) = read_digits k (acc * 10 ^ j + n mod 10 ^ j) s"
proof (induction j arbitrary: n k s)
  case 0
  then show ?case by simp
next
  case (Suc j)
  have "n mod 10 ^ Suc j = 10 * (n div 10 mod 10 ^ j) + n mod 10"
    by (simp add: mod_mult2_eq)
  then show ?case
    using Suc.IH [of "Suc k" "n div 10" "digit_char (n mod 10) # s"] by (simp add: algebra_simps)
qed

lemma read_show_digits:
  "n < 10 ^ k \<Longrightarrow> read_digits k 0 (show_digits k n @ s) = Some (n, s)"
  using read_digits_append [of k 0 0 n s] by simp

section \<open>The ISO format\<close>

definition max_time :: int where
  "max_time = 8640000000000000"

fun show_year :: "int \<Rightarrow> string" where
  "show_year y =
     (if 0 \<le> y \<and> y \<le> 9999 then show_digits 4 (nat y)
      else if 0 \<le> y then CHR ''+'' # show_digits 6 (nat y) else CHR ''-'' # show_digits 6 (nat (- y)))"

text \<open>\<open>date.toISOString()\<close> of a valid date.\<close>

definition to_iso :: "int \<Rightarrow> string" where
  "to_iso t =
     (let c = civil_of_day (t div 86400000); ms = nat (t mod 86400000)
      in show_year (c_year c) @ ''-'' @ show_digits 2 (nat (c_month c)) @ ''-'' @
         show_digits 2 (nat (c_day c)) @ ''T'' @ show_digits 2 (ms div 3600000) @ '':'' @
         show_digits 2 (ms div 60000 mod 60) @ '':'' @ show_digits 2 (ms div 1000 mod 60) @ ''.'' @
         show_digits 3 (ms mod 1000) @ ''Z'')"

fun expect :: "char \<Rightarrow> string \<Rightarrow> string option" where
  "expect c [] = None"
| "expect c (d # s) = (if c = d then Some s else None)"

fun read_year :: "string \<Rightarrow> (int \<times> string) option" where
  "read_year s =
     (case s of
        [] \<Rightarrow> None
      | c # s' \<Rightarrow>
          if c = CHR ''+'' then map_option (\<lambda>(n, r). (int n, r)) (read_digits 6 0 s')
          else if c = CHR ''-''
          then (case read_digits 6 0 s' of
              None \<Rightarrow> None
            | Some (n, r) \<Rightarrow> if n = 0 then None else Some (- int n, r))
          else map_option (\<lambda>(n, r). (int n, r)) (read_digits 4 0 s))"

fun read_seconds :: "string \<Rightarrow> (nat \<times> nat \<times> string) option" where
  "read_seconds s =
     (case expect (CHR '':'') s of
        None \<Rightarrow> Some (0, 0, s)
      | Some s1 \<Rightarrow>
          (case read_digits 2 0 s1 of
             None \<Rightarrow> None
           | Some (sec, s2) \<Rightarrow>
               (case expect (CHR ''.'') s2 of
                  None \<Rightarrow> Some (sec, 0, s2)
                | Some s3 \<Rightarrow> map_option (\<lambda>(ms, r). (sec, ms, r)) (read_digits 3 0 s3))))"

text \<open>\<open>Z\<close> or an offset of hours and minutes, at the end of the text; in milliseconds.\<close>

fun read_offset :: "string \<Rightarrow> int option" where
  "read_offset s =
     (case s of
        [] \<Rightarrow> None
      | c # s1 \<Rightarrow>
          if c = CHR ''Z'' then (if s1 = [] then Some 0 else None)
          else if c = CHR ''+'' \<or> c = CHR ''-''
          then do {
            (h, s2) \<leftarrow> read_digits 2 0 s1;
            s3 \<leftarrow> expect (CHR '':'') s2;
            (m, s4) \<leftarrow> read_digits 2 0 s3;
            if s4 = [] \<and> h \<le> 23 \<and> m \<le> 59
            then Some ((if c = CHR ''-'' then - 1 else 1) * int (h * 60 + m) * 60000) else None
          }
          else None)"

definition parse_iso :: "string \<Rightarrow> int option" where
  "parse_iso s = do {
     (y, s) \<leftarrow> read_year s;
     s \<leftarrow> expect (CHR ''-'') s;
     (mo, s) \<leftarrow> read_digits 2 0 s;
     s \<leftarrow> expect (CHR ''-'') s;
     (d, s) \<leftarrow> read_digits 2 0 s;
     s \<leftarrow> expect (CHR ''T'') s;
     (h, s) \<leftarrow> read_digits 2 0 s;
     s \<leftarrow> expect (CHR '':'') s;
     (mi, s) \<leftarrow> read_digits 2 0 s;
     (sec, ms, s) \<leftarrow> read_seconds s;
     off \<leftarrow> read_offset s;
     (let c = \<lparr>c_year = y, c_month = int mo, c_day = int d\<rparr>
      in if valid_civil c \<and> (h \<le> 23 \<or> h = 24 \<and> mi = 0 \<and> sec = 0 \<and> ms = 0) \<and> mi \<le> 59 \<and> sec \<le> 59
         then Some (day_number c * 86400000 + int h * 3600000 + int mi * 60000 + int sec * 1000 + int ms - off)
         else None)
   }"

text \<open>
  \<open>new Date(text)\<close>: the time value is clipped to the range of a date. A text in another format is
  up to the implementation (\<open>legacy\<close>).
\<close>

definition js_parse_date :: "(string \<Rightarrow> jsdate) \<Rightarrow> string \<Rightarrow> jsdate" where
  "js_parse_date legacy s =
     (case parse_iso s of
        Some t \<Rightarrow> if \<bar>t\<bar> \<le> max_time then At t else Invalid_Date
      | None \<Rightarrow> legacy s)"

definition in_date_range :: "int \<Rightarrow> bool" where
  "in_date_range t \<longleftrightarrow> \<bar>t\<bar> \<le> max_time"

lemma year_of_day_range:
  assumes "\<bar>n\<bar> \<le> 100000001"
  shows "\<bar>year_of_day n\<bar> < 1000000"
proof -
  let ?y = "year_of_day n"
  have zero: "days_before_year 1970 = 0" by (simp add: days_before_year_def)
  have "?y < 1000000"
  proof (rule ccontr)
    assume "\<not> ?y < 1000000"
    then have "1970 \<le> ?y" by simp
    from days_before_year_mono [OF this] zero year_of_day_bounds [of n] assms \<open>\<not> ?y < 1000000\<close>
    show False by auto
  qed
  moreover have "- 1000000 < ?y"
  proof (rule ccontr)
    assume "\<not> - 1000000 < ?y"
    then have "?y + 1 \<le> 1970" by simp
    from days_before_year_mono [OF this] zero year_of_day_bounds [of n] assms \<open>\<not> - 1000000 < ?y\<close>
    show False by auto
  qed
  ultimately show ?thesis by linarith
qed

lemma digit_char_not_sign: "d < 10 \<Longrightarrow> digit_char d \<noteq> CHR ''+'' \<and> digit_char d \<noteq> CHR ''-''"
proof -
  assume "d < 10"
  then have "of_char (digit_char d) = (48 + d :: nat)"
    by (simp add: digit_char_def)
  then show ?thesis by auto
qed

lemma show_digits_head: "\<exists>d r. d < 10 \<and> show_digits (Suc k) n = digit_char d # r"
proof (induction k arbitrary: n)
  case 0
  show ?case by (rule exI [of _ "n mod 10"]) simp
next
  case (Suc k)
  obtain d r where "d < 10" "show_digits (Suc k) (n div 10) = digit_char d # r"
    using Suc.IH by blast
  then show ?case by (subst show_digits.simps(2)) auto
qed

lemma read_show_year:
  assumes "\<bar>y\<bar> < 1000000"
  shows "read_year (show_year y @ s) = Some (y, s)"
proof -
  have digits: "\<exists>c r. show_digits 4 n = c # r \<and> c \<noteq> CHR ''+'' \<and> c \<noteq> CHR ''-''" for n
  proof -
    have "(4 :: nat) = Suc 3" by simp
    then show ?thesis using show_digits_head [of 3 n] digit_char_not_sign by metis
  qed
  consider "0 \<le> y \<and> y \<le> 9999" | "9999 < y" | "y < 0" by linarith
  then show ?thesis
  proof cases
    case 1
    obtain c r where cr: "show_digits 4 (nat y) = c # r" "c \<noteq> CHR ''+''" "c \<noteq> CHR ''-''"
      using digits by blast
    have "read_digits 4 0 (show_digits 4 (nat y) @ s) = Some (nat y, s)"
      using 1 by (intro read_show_digits) auto
    with 1 cr show ?thesis by simp
  next
    case 2
    have "read_digits 6 0 (show_digits 6 (nat y) @ s) = Some (nat y, s)"
      using assms by (intro read_show_digits) simp
    with 2 show ?thesis by simp
  next
    case 3
    have "read_digits 6 0 (show_digits 6 (nat (- y)) @ s) = Some (nat (- y), s)"
      using assms by (intro read_show_digits) simp
    with 3 show ?thesis by simp
  qed
qed

lemma time_fields:
  assumes "ms < (86400000 :: nat)"
  shows "ms div 3600000 \<le> 23" "ms div 60000 mod 60 \<le> 59" "ms div 1000 mod 60 \<le> 59"
    "(ms div 3600000) * 3600000 + (ms div 60000 mod 60) * 60000 + (ms div 1000 mod 60) * 1000 + ms mod 1000 = ms"
proof -
  show "ms div 3600000 \<le> 23" using assms by (simp add: less_mult_imp_div_less)
  show "ms div 60000 mod 60 \<le> 59" "ms div 1000 mod 60 \<le> 59" by simp_all
  have "ms = ms div 1000 * 1000 + ms mod 1000"
    "ms div 1000 = ms div 1000 div 60 * 60 + ms div 1000 mod 60"
    "ms div 60000 = ms div 60000 div 60 * 60 + ms div 60000 mod 60"
    by simp_all
  moreover have "ms div 1000 div 60 = ms div 60000" "ms div 60000 div 60 = ms div 3600000"
    by (simp_all add: div_mult2_eq [symmetric])
  ultimately show "(ms div 3600000) * 3600000 + (ms div 60000 mod 60) * 60000 +
      (ms div 1000 mod 60) * 1000 + ms mod 1000 = ms"
    by linarith
qed

lemma parse_to_iso:
  assumes "in_date_range t"
  shows "parse_iso (to_iso t) = Some t"
proof -
  define c where "c = civil_of_day (t div 86400000)"
  define ms where "ms = nat (t mod 86400000)"
  have c: "valid_civil c" and n: "day_number c = t div 86400000"
    by (simp_all add: c_def)
  then have md: "1 \<le> c_month c" "c_month c \<le> 12" "1 \<le> c_day c" "c_day c \<le> 31"
    by (auto simp: valid_civil_def month_length_def split: if_splits)
  have "\<bar>t div 86400000\<bar> \<le> 100000001"
    using assms div_bounds [of 86400000 t] by (auto simp: in_date_range_def max_time_def abs_le_iff)
  then have y: "\<bar>c_year c\<bar> < 1000000"
    using year_of_day_range by (simp add: c_def civil_of_day_def Let_def)
  have ms: "ms < 86400000" by (simp add: ms_def)
  note f = time_fields [OF ms]
  have sum: "int (ms div 3600000) * 3600000 + int (ms div 60000 mod 60) * 60000 +
      int (ms div 1000 mod 60) * 1000 + int (ms mod 1000) = t mod 86400000"
  proof -
    have "int ((ms div 3600000) * 3600000 + (ms div 60000 mod 60) * 60000 +
        (ms div 1000 mod 60) * 1000 + ms mod 1000) = int ms"
      using f(4) by (rule arg_cong)
    then show ?thesis by (simp add: ms_def)
  qed
  have two: "read_digits 2 0 (show_digits 2 k @ s) = Some (k, s)" if "k < 100" for k s
    using that by (intro read_show_digits) simp
  have three: "read_digits 3 0 (show_digits 3 k @ s) = Some (k, s)" if "k < 1000" for k s
    using that by (intro read_show_digits) simp
  have "\<lparr>c_year = c_year c, c_month = c_month c, c_day = c_day c\<rparr> = c"
    by simp
  then have cc: "\<lparr>c_year = c_year c, c_month = int (nat (c_month c)), c_day = int (nat (c_day c))\<rparr> = c"
    using md by simp
  note cc' = \<open>\<lparr>c_year = c_year c, c_month = c_month c, c_day = c_day c\<rparr> = c\<close>
  have "parse_iso (to_iso t) = Some (day_number c * 86400000 + int (ms div 3600000) * 3600000 +
      int (ms div 60000 mod 60) * 60000 + int (ms div 1000 mod 60) * 1000 + int (ms mod 1000) - 0)"
    unfolding parse_iso_def to_iso_def Let_def c_def [symmetric] ms_def [symmetric]
    using y md f(1-3) c cc
    by (simp add: read_show_year two three cc' del: read_digits.simps show_digits.simps read_year.simps
        show_year.simps)
  moreover have "t div 86400000 * 86400000 + t mod 86400000 = t"
    by (rule div_mult_mod_eq)
  ultimately show ?thesis
    using sum n by (simp only: diff_zero option.inject)
qed

lemma js_parse_to_iso [simp]: "in_date_range t \<Longrightarrow> js_parse_date legacy (to_iso t) = At t"
  by (simp add: js_parse_date_def parse_to_iso in_date_range_def)

lemma to_iso_inj: "in_date_range t \<Longrightarrow> in_date_range u \<Longrightarrow> to_iso t = to_iso u \<Longrightarrow> t = u"
  by (metis parse_to_iso option.inject)

lemma T_in_to_iso [simp]: "CHR ''T'' \<in> set (to_iso t)"
  by (simp add: to_iso_def Let_def)

end
