(* ===== verification/Js_Json.thy ===== *)
theory Js_Json
  imports Js_Prelude
begin

text \<open>
  \<open>JSON.stringify\<close> on the values the program puts into its request digests: null, booleans,
  integers, ASCII texts, arrays and objects, the properties of an object in the order in which they
  were written. Control characters, the quote and the backslash are escaped as the language says.
\<close>

datatype json_out =
  O_Null | O_Bool bool | O_Int int | O_Str string
| O_Arr "json_out list" | O_Obj "(string \<times> json_out) list"

definition hex_char :: "nat \<Rightarrow> char" where
  "hex_char n = char_of (if n < 10 then 48 + n else 87 + n)"

definition escape_char :: "char \<Rightarrow> string" where
  "escape_char c =
     (let n = of_char c :: nat
      in if n = 34 then [char_of (92 :: nat), c] else if n = 92 then [c, c]
         else if n = 8 then [char_of (92 :: nat), CHR ''b''] else if n = 9 then [char_of (92 :: nat), CHR ''t'']
         else if n = 10 then [char_of (92 :: nat), CHR ''n''] else if n = 12 then [char_of (92 :: nat), CHR ''f'']
         else if n = 13 then [char_of (92 :: nat), CHR ''r'']
         else if n < 32 then char_of (92 :: nat) # ''u00'' @ [hex_char (n div 16), hex_char (n mod 16)]
         else [c])"

definition quote_text :: "string \<Rightarrow> string" where
  "quote_text s = char_of (34 :: nat) # concat (map escape_char s) @ [char_of (34 :: nat)]"

fun show_nat :: "nat \<Rightarrow> string" where
  "show_nat n = (if n < 10 then [char_of (48 + n)] else show_nat (n div 10) @ [char_of (48 + n mod 10)])"

definition show_int :: "int \<Rightarrow> string" where
  "show_int i = (if i < 0 then CHR ''-'' # show_nat (nat (- i)) else show_nat (nat i))"

fun join_with :: "string \<Rightarrow> string list \<Rightarrow> string" where
  "join_with sep [] = []"
| "join_with sep [s] = s"
| "join_with sep (s # t # ss) = s @ sep @ join_with sep (t # ss)"

fun json_stringify :: "json_out \<Rightarrow> string" where
  "json_stringify O_Null = ''null''"
| "json_stringify (O_Bool b) = (if b then ''true'' else ''false'')"
| "json_stringify (O_Int i) = show_int i"
| "json_stringify (O_Str s) = quote_text s"
| "json_stringify (O_Arr xs) = ''['' @ join_with '','' (map json_stringify xs) @ '']''"
| "json_stringify (O_Obj kvs) =
     ''{'' @ join_with '','' (map (\<lambda>(k, v). quote_text k @ '':'' @ json_stringify v) kvs) @ ''}''"

fun json_text :: "string option \<Rightarrow> json_out" where
  "json_text None = O_Null"
| "json_text (Some s) = O_Str s"

section \<open>A quoted text determines its content\<close>

text \<open>Reading one escaped character back.\<close>

definition hex_value :: "char \<Rightarrow> nat" where
  "hex_value c = (let n = of_char c :: nat in if n < 58 then n - 48 else n - 87)"

definition escape_code :: "char \<Rightarrow> char" where
  "escape_code x =
     (let n = of_char x :: nat
      in if n = 98 then char_of (8 :: nat) else if n = 116 then char_of (9 :: nat)
         else if n = 110 then char_of (10 :: nat) else if n = 102 then char_of (12 :: nat)
         else if n = 114 then char_of (13 :: nat) else x)"

fun unescape :: "string \<Rightarrow> (char \<times> string) option" where
  "unescape [] = None"
| "unescape (c # s) =
     (if of_char c \<noteq> (92 :: nat) then Some (c, s)
      else case s of
        [] \<Rightarrow> None
      | x # r \<Rightarrow>
          if of_char x = (117 :: nat) then
            (case r of
               _ # _ # h # l # t \<Rightarrow> Some (char_of (16 * hex_value h + hex_value l), t)
             | _ \<Rightarrow> None)
          else Some (escape_code x, r))"

lemma hex_value_char: "k < 16 \<Longrightarrow> hex_value (hex_char k) = k"
  by (simp add: hex_value_def hex_char_def)

lemma unescape_escape: "unescape (escape_char c @ s) = Some (c, s)"
proof -
  obtain n :: nat where c: "c = char_of n" "n < 256"
    by (metis char_of_char nat_of_char_less_256)
  have "16 * (n div 16) + n mod 16 = n" by simp
  then show ?thesis
    using c(2) by (simp add: c(1) escape_char_def Let_def escape_code_def hex_value_char)
qed

lemma escape_char_starts: "\<exists>d r. escape_char c = d # r \<and> of_char d \<noteq> (34 :: nat)"
  by (auto simp: escape_char_def Let_def)

lemma escaped_inject:
  assumes "concat (map escape_char a) @ char_of (34 :: nat) # x = concat (map escape_char b) @ char_of (34 :: nat) # y"
  shows "a = b \<and> x = y"
  using assms
proof (induction a arbitrary: b)
  case Nil
  show ?case
  proof (cases b)
    case (Cons d b')
    with Nil escape_char_starts [of d] show ?thesis by auto
  qed (use Nil in simp)
next
  case (Cons c a)
  show ?case
  proof (cases b)
    case Nil
    with Cons.prems escape_char_starts [of c] show ?thesis by auto
  next
    case b: (Cons d b')
    have "Some (c, concat (map escape_char a) @ char_of (34 :: nat) # x) =
        Some (d, concat (map escape_char b') @ char_of (34 :: nat) # y)"
      using Cons.prems unescape_escape unfolding b by (metis append.assoc concat.simps(2) list.simps(9))
    with Cons.IH b show ?thesis by simp
  qed
qed

lemma quote_text_inject: "quote_text a @ x = quote_text b @ y \<longleftrightarrow> a = b \<and> x = y"
  using escaped_inject [of a x b y] by (auto simp: quote_text_def)

lemma joined_texts_inject:
  assumes "length xs = length ys"
    and "join_with '','' (map quote_text xs) @ u = join_with '','' (map quote_text ys) @ v"
  shows "xs = ys"
  using assms
proof (induction xs ys arbitrary: u v rule: list_induct2)
  case (Cons x xs y ys)
  show ?case
  proof (cases xs)
    case Nil
    with Cons show ?thesis by (simp add: quote_text_inject)
  next
    case xs: (Cons x' xs')
    then obtain y' ys' where ys: "ys = y' # ys'" using Cons.hyps by (cases ys) auto
    from Cons.prems have "x = y" and "join_with '','' (map quote_text xs) @ u = join_with '','' (map quote_text ys) @ v"
      by (simp_all add: xs ys quote_text_inject)
    with Cons.IH show ?thesis by blast
  qed
qed simp

text \<open>\<open>JSON.stringify\<close> of an array of texts determines the texts.\<close>

lemma json_texts_inject:
  assumes "length xs = length ys"
    and "json_stringify (O_Arr (map O_Str xs)) = json_stringify (O_Arr (map O_Str ys))"
  shows "xs = ys"
proof (rule joined_texts_inject [OF assms(1)])
  show "join_with '','' (map quote_text xs) @ '']'' = join_with '','' (map quote_text ys) @ '']''"
    using assms(2) by (simp add: comp_def)
qed

end
