(* ===== verification/Audited_Command.thy ===== *)
theory Audited_Command
  imports Js_Prelude
begin

text \<open>
  The contract of the platform administrator's commands (\<open>tenant-access-window.service.ts\<close>,
  \<open>tenant-entitlement-profile.service.ts\<close>): a transaction that either fails and leaves the database
  alone, or commits and records its result under the key of the request, and a lookup of that record.
  When the transaction fails, the caught error is answered from the record if another delivery of the
  same request has committed in the meantime.
\<close>

definition audited_commit ::
  "('db \<Rightarrow> 'env \<Rightarrow> 'p \<Rightarrow> 'e + 'db \<times> 'r) \<Rightarrow> ('db \<Rightarrow> 'p \<Rightarrow> 'e + 'r option) \<Rightarrow>
   'db \<Rightarrow> 'env \<Rightarrow> 'p \<Rightarrow> 'db \<times> ('e + 'r)" where
  "audited_commit transact replay db env p =
     (case transact db env p of
        Inr (db', r) \<Rightarrow> (db', Inr r)
      | Inl e \<Rightarrow>
          (case replay db p of
             Inl e' \<Rightarrow> (db, Inl e')
           | Inr (Some r) \<Rightarrow> (db, Inr r)
           | Inr None \<Rightarrow> (db, Inl e)))"

locale audited_command =
  fixes transact :: "'db \<Rightarrow> 'env \<Rightarrow> 'p \<Rightarrow> 'e + 'db \<times> 'r"
    and replay :: "'db \<Rightarrow> 'p \<Rightarrow> 'e + 'r option"
    and ready :: "'p \<Rightarrow> bool"
  assumes recorded: "ready p \<Longrightarrow> transact db env p = Inr (db', r) \<Longrightarrow> replay db' p = Inr (Some r)"
    and once: "transact db env p = Inr (db', r) \<Longrightarrow> replay db p = Inr None"
begin

lemma commit_changed:
  "audited_commit transact replay db env p = (db', out) \<Longrightarrow> db' \<noteq> db \<Longrightarrow>
    \<exists>r. out = Inr r \<and> transact db env p = Inr (db', r)"
  by (auto simp: audited_commit_def split: sum.splits option.splits)

lemma transact_changes: "ready p \<Longrightarrow> transact db env p = Inr (db', r) \<Longrightarrow> db' \<noteq> db"
  using recorded once by fastforce

lemma commit_result_recorded:
  assumes "ready p" and "audited_commit transact replay db env p = (db', Inr r)"
  shows "replay db' p = Inr (Some r)"
  using assms recorded by (auto simp: audited_commit_def split: sum.splits option.splits)

text \<open>A request that was answered is answered the same way when its commit runs again.\<close>

lemma commit_again:
  assumes "replay db p = Inr (Some r)"
  shows "audited_commit transact replay db env p = (db, Inr r)"
proof (cases "transact db env p")
  case (Inl e)
  then show ?thesis using assms by (simp add: audited_commit_def)
next
  case (Inr out)
  then show ?thesis using once assms by (cases out) fastforce
qed

lemma commit_idempotent:
  assumes "ready p" and "audited_commit transact replay db env p = (db', Inr r)"
  shows "audited_commit transact replay db' env' p = (db', Inr r)"
  using assms by (intro commit_again commit_result_recorded)

lemma commit_fresh:
  assumes "replay db p = Inr None" and "audited_commit transact replay db env p = (db', Inr r)"
  shows "transact db env p = Inr (db', r)"
  using assms by (auto simp: audited_commit_def split: sum.splits)

end

end
