(* ===== verification/Access_Window.thy ===== *)
theory Access_Window
  imports Execution_Admission Js_Date Js_Json Audited_Command
begin

text \<open>
  How long a tenant on trial may sign in: the summary of \<open>tenancy/tenant-access-window.ts\<close> and the
  command of \<open>admin/tenant-access-window.service.ts\<close> which moves the end of the window.

  The command runs in two phases: \<open>begin_update\<close> reads the tenant and the audit trail and computes
  the new end; \<open>commit_update\<close> is the transaction, which may meet a database that other requests
  have changed in the meantime. \<open>update_access\<close> is their composition on one database. The
  transaction claims the row by comparing every column it read (an optimistic lock), the trigger of
  \<open>Tenant_Model\<close> advances the execution revision, and the audit event, unique for tenant and
  request id, stores the result for replays. The digest function is a parameter (SHA-256), and so is
  the reading of dates that are not in the ISO format.
\<close>

section \<open>The summary\<close>

definition OPEN_ENDED_ENDS_AT :: int where
  "OPEN_ENDED_ENDS_AT = 253402214400000"

definition OPEN_ENDED_THRESHOLD_MS :: int where
  "OPEN_ENDED_THRESHOLD_MS = 253370764800000"

definition DAY_MS :: int where
  "DAY_MS = 24 * 60 * 60 * 1000"

datatype access_state =
  NOT_TIME_BOUND | NOT_CONFIGURED | NOT_STARTED | OPEN_ENDED | ACTIVE_UNTIL | EXPIRED

record access_summary =
  as_state :: access_state
  as_manageable :: bool
  as_startsAt :: "string option"
  as_endsAt :: "string option"
  as_daysLeft :: "int option"
  as_executionRevision :: int

text \<open>The dates of a row are valid; \<open>toISOString\<close> of an invalid date would throw.\<close>

fun iso_of :: "jsdate \<Rightarrow> string" where
  "iso_of (At t) = to_iso t"
| "iso_of Invalid_Date = ''Invalid Date''"

fun is_open_ended :: "jsdate \<Rightarrow> bool" where
  "is_open_ended (At t) = (OPEN_ENDED_THRESHOLD_MS \<le> t)"
| "is_open_ended Invalid_Date = False"

fun date_diff :: "jsdate \<Rightarrow> jsdate \<Rightarrow> int option" where
  "date_diff (At a) (At b) = Some (a - b)"
| "date_diff _ _ = None"

definition describe_access :: "'a tenant_scheme \<Rightarrow> jsdate \<Rightarrow> access_summary" where
  "describe_access t now =
     (let base = \<lparr>as_state = NOT_TIME_BOUND, as_manageable = False,
                  as_startsAt = map_option iso_of (trialStartsAt t), as_endsAt = None,
                  as_daysLeft = None, as_executionRevision = executionRevision t\<rparr>
      in if \<not> trial_bound_stage (customerStage t) then base
         else case (trialStartsAt t, trialEndsAt t) of
           (Some starts, Some ends) \<Rightarrow>
             let managed = base\<lparr>as_manageable := True\<rparr>
             in if is_open_ended ends
                then managed\<lparr>as_state := (if date_less now starts then NOT_STARTED else OPEN_ENDED)\<rparr>
                else let until = managed\<lparr>as_endsAt := Some (iso_of ends)\<rparr>
                     in if date_ge now ends then until\<lparr>as_state := EXPIRED\<rparr>
                        else if date_less now starts then until\<lparr>as_state := NOT_STARTED\<rparr>
                        else until\<lparr>as_state := ACTIVE_UNTIL,
                                   as_daysLeft := map_option (\<lambda>d. ceil_div d DAY_MS) (date_diff ends now)\<rparr>
         | _ \<Rightarrow> base\<lparr>as_state := NOT_CONFIGURED\<rparr>)"

section \<open>The command\<close>

datatype access_mode = MODE_OPEN_ENDED | MODE_UNTIL | MODE_CLOSE_NOW

fun mode_name :: "access_mode \<Rightarrow> string" where
  "mode_name MODE_OPEN_ENDED = ''OPEN_ENDED''"
| "mode_name MODE_UNTIL = ''UNTIL''"
| "mode_name MODE_CLOSE_NOW = ''CLOSE_NOW''"

definition access_modes :: "(string \<times> access_mode) list" where
  "access_modes =
     map (\<lambda>m. (mode_name m, m)) [MODE_OPEN_ENDED, MODE_UNTIL, MODE_CLOSE_NOW]"

datatype access_error =
  Not_Platform_Admin | Body_Not_Object | Mode_Invalid | Access_Until_Invalid
| Access_Until_Not_Allowed | Revision_Invalid | Reason_Invalid | Request_Id_Invalid
| Support_Ticket_Invalid | Tenant_Not_Found | Confirmation_Required | Request_Id_Reused
| No_Time_Limit | Not_Activated | Window_Changed | Already_Open_Ended | Until_Not_Future
| Until_Far_Future | Until_Same | Already_Closed | Ends_Before_Start
| Revision_Not_Advanced | Fence fence_error | Audit_Unique_Violation

record access_command =
  ac_mode :: access_mode
  ac_accessUntil :: "jsdate option"
  ac_expectedRevision :: int
  ac_reason :: string
  ac_requestId :: string
  ac_supportTicket :: "string option"

record actor =
  actor_id :: string
  actor_isPlatformAdmin :: bool
  actor_isActive :: bool

definition is_hex :: "char \<Rightarrow> bool" where
  "is_hex c \<longleftrightarrow> c \<in> set ''0123456789abcdefABCDEF''"

definition uuid_pattern :: "(char \<Rightarrow> bool) list" where
  "uuid_pattern =
     replicate 8 is_hex @ [(\<lambda>c. c = CHR ''-'')] @ replicate 4 is_hex @ [(\<lambda>c. c = CHR ''-'')] @
     [(\<lambda>c. c \<in> set ''12345678'')] @ replicate 3 is_hex @ [(\<lambda>c. c = CHR ''-'')] @
     [(\<lambda>c. c \<in> set ''89abAB'')] @ replicate 3 is_hex @ [(\<lambda>c. c = CHR ''-'')] @ replicate 12 is_hex"

definition uuid_test :: "string \<Rightarrow> bool" where
  "uuid_test s \<longleftrightarrow> list_all2 (\<lambda>p c. p c) uuid_pattern s"

definition trimmed_text :: "js_value \<Rightarrow> string" where
  "trimmed_text v = (case v of JStr s \<Rightarrow> js_trim s | _ \<Rightarrow> [])"

text \<open>The three blocks of \<open>parse\<close> with a value of their own.\<close>

definition parse_access_until ::
  "(string \<Rightarrow> jsdate) \<Rightarrow> access_mode \<Rightarrow> js_value \<Rightarrow> access_error + jsdate option" where
  "parse_access_until legacy mode v =
     (if mode = MODE_UNTIL
      then (case v of
              JStr s \<Rightarrow>
                if CHR ''T'' \<notin> set s then Inl Access_Until_Invalid
                else if \<not> valid_date (js_parse_date legacy s) then Inl Access_Until_Invalid
                else Inr (Some (js_parse_date legacy s))
            | _ \<Rightarrow> Inl Access_Until_Invalid)
      else if v \<noteq> JUndef \<and> v \<noteq> JNull then Inl Access_Until_Not_Allowed
      else Inr None)"

definition parse_support_ticket :: "js_value \<Rightarrow> access_error + string option" where
  "parse_support_ticket v =
     (let t = trimmed_text v
      in if t = [] then Inr None else if 200 < length t then Inl Support_Ticket_Invalid
         else Inr (Some t))"

definition parse_command :: "(string \<Rightarrow> jsdate) \<Rightarrow> js_value \<Rightarrow> access_error + access_command" where
  "parse_command legacy dto =
     (case dto of
        JObj props \<Rightarrow>
          (case parse_enum access_modes (js_prop props ''mode'') of
             None \<Rightarrow> Inl Mode_Invalid
           | Some mode \<Rightarrow>
               (case parse_access_until legacy mode (js_prop props ''accessUntil'') of
                  Inl e \<Rightarrow> Inl e
                | Inr until \<Rightarrow>
                    (case js_safe_int (js_prop props ''expectedExecutionRevision'') of
                       None \<Rightarrow> Inl Revision_Invalid
                     | Some revision \<Rightarrow>
                         if revision < 0 then Inl Revision_Invalid
                         else let reason = trimmed_text (js_prop props ''reason'')
                         in if length reason < 10 \<or> 500 < length reason then Inl Reason_Invalid
                         else (case js_prop props ''requestId'' of
                             JStr rid \<Rightarrow>
                               if \<not> uuid_test rid then Inl Request_Id_Invalid
                               else (case parse_support_ticket (js_prop props ''supportTicket'') of
                                   Inl e \<Rightarrow> Inl e
                                 | Inr ticket \<Rightarrow>
                                     Inr \<lparr>ac_mode = mode, ac_accessUntil = until,
                                          ac_expectedRevision = revision, ac_reason = reason,
                                          ac_requestId = js_lower rid, ac_supportTicket = ticket\<rparr>)
                           | _ \<Rightarrow> Inl Request_Id_Invalid))))
      | _ \<Rightarrow> Inl Body_Not_Object)"

definition command_digest :: "(string \<Rightarrow> string) \<Rightarrow> string \<Rightarrow> access_command \<Rightarrow> string" where
  "command_digest sha tid c =
     sha (json_stringify (O_Obj
       [(''tenantId'', O_Str tid), (''mode'', O_Str (mode_name (ac_mode c))),
        (''accessUntil'', json_text (map_option iso_of (ac_accessUntil c))),
        (''expectedExecutionRevision'', O_Int (ac_expectedRevision c)),
        (''reason'', O_Str (ac_reason c)), (''requestId'', O_Str (ac_requestId c)),
        (''supportTicket'', json_text (ac_supportTicket c))]))"

definition resolve_next_ends_at ::
  "'a tenant_scheme \<Rightarrow> access_command \<Rightarrow> jsdate \<Rightarrow> access_error + jsdate" where
  "resolve_next_ends_at t c now =
     (if \<not> trial_bound_stage (customerStage t) then Inl No_Time_Limit
      else case (trialStartsAt t, trialEndsAt t) of
        (Some starts, Some ends) \<Rightarrow>
          if executionRevision t \<noteq> ac_expectedRevision c then Inl Window_Changed
          else (case
              (case ac_mode c of
                 MODE_OPEN_ENDED \<Rightarrow>
                   if is_open_ended ends then Inl Already_Open_Ended else Inr (At OPEN_ENDED_ENDS_AT)
               | MODE_UNTIL \<Rightarrow>
                   (let next_end = get_or (ac_accessUntil c) Invalid_Date
                    in if date_ge now next_end then Inl Until_Not_Future
                       else if is_open_ended next_end then Inl Until_Far_Future
                       else if next_end = ends \<and> valid_date next_end then Inl Until_Same
                       else Inr next_end)
               | MODE_CLOSE_NOW \<Rightarrow>
                   if \<not> date_less now ends then Inl Already_Closed else Inr now) of
                Inl e \<Rightarrow> Inl e
              | Inr next_end \<Rightarrow>
                  if date_ge starts next_end then Inl Ends_Before_Start else Inr next_end)
      | _ \<Rightarrow> Inl Not_Activated)"

section \<open>The database\<close>

record access_result =
  ar_tenantId :: string
  ar_tenantSlug :: string
  ar_mode :: access_mode
  ar_access :: access_summary

text \<open>The metadata of an audit event of this action, unless it is malformed.\<close>

record access_audit =
  aa_digest :: string
  aa_result :: access_result
  aa_actor :: string
  aa_reason :: string
  aa_expectedRevision :: int
  aa_nextRevision :: int

record access_db =
  db_tenants :: "string \<Rightarrow> tenant option"
  db_audit :: "string \<times> string \<Rightarrow> access_audit option option"

definition find_replay ::
  "access_db \<Rightarrow> string \<Rightarrow> string \<Rightarrow> string \<Rightarrow> access_error + access_result option" where
  "find_replay db tid rid dig =
     (case db_audit db (tid, rid) of
        None \<Rightarrow> Inr None
      | Some None \<Rightarrow> Inl Request_Id_Reused
      | Some (Some a) \<Rightarrow> if aa_digest a \<noteq> dig then Inl Request_Id_Reused else Inr (Some (aa_result a)))"

text \<open>What the first phase hands to the transaction.\<close>

record prepared =
  pr_tenant :: tenant
  pr_command :: access_command
  pr_digest :: string
  pr_actor :: string
  pr_nextEndsAt :: jsdate

definition begin_update ::
  "(string \<Rightarrow> jsdate) \<Rightarrow> (string \<Rightarrow> string) \<Rightarrow> access_db \<Rightarrow> actor option \<Rightarrow> string \<Rightarrow> js_value \<Rightarrow>
   jsdate \<Rightarrow> access_error + access_result + prepared" where
  "begin_update legacy sha db act tid dto now =
     (case act of
        None \<Rightarrow> Inl Not_Platform_Admin
      | Some a \<Rightarrow>
          if actor_id a = [] \<or> \<not> actor_isPlatformAdmin a \<or> \<not> actor_isActive a
          then Inl Not_Platform_Admin
          else (case parse_command legacy dto of
              Inl e \<Rightarrow> Inl e
            | Inr c \<Rightarrow>
                (case db_tenants db tid of
                   None \<Rightarrow> Inl Tenant_Not_Found
                 | Some t \<Rightarrow>
                     if (case dto of JObj props \<Rightarrow>
                           (case js_prop props ''confirmation'' of
                              JStr s \<Rightarrow> js_trim s \<noteq> tenant_slug t | _ \<Rightarrow> True)
                         | _ \<Rightarrow> True)
                     then Inl Confirmation_Required
                     else let dig = command_digest sha (tenant_id t) c
                     in (case find_replay db (tenant_id t) (ac_requestId c) dig of
                           Inl e \<Rightarrow> Inl e
                         | Inr (Some r) \<Rightarrow> Inr (Inl r)
                         | Inr None \<Rightarrow>
                             (case resolve_next_ends_at t c now of
                                Inl e \<Rightarrow> Inl e
                              | Inr next_end \<Rightarrow>
                                  Inr (Inr \<lparr>pr_tenant = t, pr_command = c, pr_digest = dig,
                                            pr_actor = actor_id a, pr_nextEndsAt = next_end\<rparr>))))))"

text \<open>\<open>where\<close> of the claiming update: the row still is what the first phase has read.\<close>

definition claims :: "prepared \<Rightarrow> tenant \<Rightarrow> bool" where
  "claims p row \<longleftrightarrow>
     tenant_id row = tenant_id (pr_tenant p) \<and>
     customerStage row = customerStage (pr_tenant p) \<and>
     trialStartsAt row = trialStartsAt (pr_tenant p) \<and>
     trialEndsAt row = trialEndsAt (pr_tenant p) \<and>
     executionRevision row = ac_expectedRevision (pr_command p) \<and>
     updatedAt row = updatedAt (pr_tenant p)"

text \<open>The result the transaction returns, and the audit event it writes.\<close>

definition access_result_of :: "prepared \<Rightarrow> tenant \<Rightarrow> jsdate \<Rightarrow> access_result" where
  "access_result_of p updated now =
     \<lparr>ar_tenantId = tenant_id updated, ar_tenantSlug = tenant_slug updated,
      ar_mode = ac_mode (pr_command p), ar_access = describe_access updated now\<rparr>"

definition access_audit_of :: "prepared \<Rightarrow> tenant \<Rightarrow> access_result \<Rightarrow> access_audit" where
  "access_audit_of p updated result =
     \<lparr>aa_digest = pr_digest p, aa_result = result, aa_actor = pr_actor p,
      aa_reason = ac_reason (pr_command p),
      aa_expectedRevision = ac_expectedRevision (pr_command p),
      aa_nextRevision = executionRevision updated\<rparr>"

text \<open>The body of the transaction: the changed database, or the error that rolls it back.\<close>

definition access_transaction ::
  "access_db \<Rightarrow> prepared \<Rightarrow> jsdate \<Rightarrow> int \<Rightarrow> access_error + access_db \<times> access_result" where
  "access_transaction db p now clock =
     (let tid = tenant_id (pr_tenant p); rid = ac_requestId (pr_command p)
      in case db_tenants db tid of
           None \<Rightarrow> Inl Window_Changed
         | Some row \<Rightarrow>
             if \<not> claims p row then Inl Window_Changed
             else (case tenant_fence_trigger row
                          (row\<lparr>trialEndsAt := Some (pr_nextEndsAt p), updatedAt := clock\<rparr>) of
                 Inl e \<Rightarrow> Inl (Fence e)
               | Inr updated \<Rightarrow>
                   if executionRevision updated \<noteq> ac_expectedRevision (pr_command p) + 1
                   then Inl Revision_Not_Advanced
                   else if db_audit db (tid, rid) \<noteq> None then Inl Audit_Unique_Violation
                   else let result = access_result_of p updated now
                   in Inr (\<lparr>db_tenants = (db_tenants db)(tid \<mapsto> updated),
                            db_audit = (db_audit db)((tid, rid) \<mapsto>
                              Some (access_audit_of p updated result))\<rparr>, result)))"

definition commit_update ::
  "access_db \<Rightarrow> prepared \<Rightarrow> jsdate \<Rightarrow> int \<Rightarrow> access_db \<times> (access_error + access_result)" where
  "commit_update db p now clock =
     (case access_transaction db p now clock of
        Inr (db', r) \<Rightarrow> (db', Inr r)
      | Inl e \<Rightarrow>
          (case find_replay db (tenant_id (pr_tenant p)) (ac_requestId (pr_command p)) (pr_digest p) of
             Inl e' \<Rightarrow> (db, Inl e')
           | Inr (Some r) \<Rightarrow> (db, Inr r)
           | Inr None \<Rightarrow> (db, Inl e)))"

definition update_access ::
  "(string \<Rightarrow> jsdate) \<Rightarrow> (string \<Rightarrow> string) \<Rightarrow> access_db \<Rightarrow> actor option \<Rightarrow> string \<Rightarrow> js_value \<Rightarrow>
   jsdate \<Rightarrow> int \<Rightarrow> access_db \<times> (access_error + access_result)" where
  "update_access legacy sha db act tid dto now clock =
     (case begin_update legacy sha db act tid dto now of
        Inl e \<Rightarrow> (db, Inl e)
      | Inr (Inl r) \<Rightarrow> (db, Inr r)
      | Inr (Inr p) \<Rightarrow> commit_update db p now clock)"

section \<open>The summary and the policy\<close>

lemma open_ended_constants:
  "OPEN_ENDED_ENDS_AT = day_number \<lparr>c_year = 9999, c_month = 12, c_day = 31\<rparr> * 86400000"
  "OPEN_ENDED_THRESHOLD_MS = day_number \<lparr>c_year = 9999, c_month = 1, c_day = 1\<rparr> * 86400000"
  by (simp_all add: OPEN_ENDED_ENDS_AT_def OPEN_ENDED_THRESHOLD_MS_def day_number_def
      days_before_year_def month_start_def leap_def)

text \<open>The trial window the schema admits for an active tenant: both ends, in order.\<close>

definition ordered_window :: "'a tenant_scheme \<Rightarrow> int \<Rightarrow> int \<Rightarrow> bool" where
  "ordered_window t a b \<longleftrightarrow>
     trial_bound_stage (customerStage t) \<and>
     trialStartsAt t = Some (At a) \<and> trialEndsAt t = Some (At b) \<and> a < b"

fun policy_view :: "access_state \<Rightarrow> denial_reason option" where
  "policy_view NOT_STARTED = Some TRIAL_NOT_STARTED"
| "policy_view EXPIRED = Some TRIAL_EXPIRED"
| "policy_view NOT_CONFIGURED = Some TRIAL_WINDOW_MISSING"
| "policy_view _ = None"

lemma describe_bound_state:
  "ordered_window t a b \<Longrightarrow> as_state (describe_access t (At n)) =
    (if OPEN_ENDED_THRESHOLD_MS \<le> b then (if n < a then NOT_STARTED else OPEN_ENDED)
     else if b \<le> n then EXPIRED else if n < a then NOT_STARTED else ACTIVE_UNTIL)"
  by (simp add: describe_access_def ordered_window_def Let_def)

lemma describe_days_left:
  "ordered_window t a b \<Longrightarrow> as_daysLeft (describe_access t (At n)) =
    (if b < OPEN_ENDED_THRESHOLD_MS \<and> a \<le> n \<and> n < b then Some (ceil_div (b - n) DAY_MS) else None)"
  by (simp add: describe_access_def ordered_window_def Let_def)

lemma trial_window_bound:
  "ordered_window s a b \<Longrightarrow> evaluate_trial_window s (At n) =
    (if n < a then Some (deny s TRIAL_NOT_STARTED None None)
     else if b \<le> n then Some (deny s TRIAL_EXPIRED None None) else None)"
  by (simp add: evaluate_trial_window_def ordered_window_def)

section \<open>The command and the fence\<close>

lemma find_replay_hit:
  "db_audit db (tid, rid) = Some (Some a) \<Longrightarrow> aa_digest a = dig \<Longrightarrow>
    find_replay db tid rid dig = Inr (Some (aa_result a))"
  by (simp add: find_replay_def)

lemma resolve_next_range:
  assumes "resolve_next_ends_at t c (At n) = Inr d"
  shows "\<exists>a b. trial_bound_stage (customerStage t) \<and> trialStartsAt t = Some a \<and> trialEndsAt t = Some b \<and>
    executionRevision t = ac_expectedRevision c \<and> \<not> date_ge a d"
  using assms
  by (auto simp: resolve_next_ends_at_def Let_def split: if_splits option.splits access_mode.splits)

text \<open>What the transaction does when it does not fail.\<close>

definition moved_row :: "prepared \<Rightarrow> int \<Rightarrow> tenant \<Rightarrow> tenant" where
  "moved_row p clock row =
     row\<lparr>trialEndsAt := Some (pr_nextEndsAt p), updatedAt := clock,
         executionRevision := executionRevision row + 1\<rparr>"

lemma access_transaction_success:
  assumes "access_transaction db p now clock = Inr (db', r)"
  shows "\<exists>row. db_tenants db (tenant_id (pr_tenant p)) = Some row \<and> claims p row \<and>
    db_audit db (tenant_id (pr_tenant p), ac_requestId (pr_command p)) = None \<and>
    db_tenants db' = (db_tenants db)(tenant_id (pr_tenant p) \<mapsto> moved_row p clock row) \<and>
    r = access_result_of p (moved_row p clock row) now \<and>
    db_audit db' = (db_audit db)((tenant_id (pr_tenant p), ac_requestId (pr_command p)) \<mapsto>
      Some (access_audit_of p (moved_row p clock row) r))"
proof -
  from assms obtain row updated where
    row: "db_tenants db (tenant_id (pr_tenant p)) = Some row" "claims p row"
    and trg: "tenant_fence_trigger row (row\<lparr>trialEndsAt := Some (pr_nextEndsAt p), updatedAt := clock\<rparr>) = Inr updated"
    and adv: "executionRevision updated = ac_expectedRevision (pr_command p) + 1"
    and free: "db_audit db (tenant_id (pr_tenant p), ac_requestId (pr_command p)) = None"
    and r: "r = access_result_of p updated now"
    and db': "db' = \<lparr>db_tenants = (db_tenants db)(tenant_id (pr_tenant p) \<mapsto> updated),
      db_audit = (db_audit db)((tenant_id (pr_tenant p), ac_requestId (pr_command p)) \<mapsto>
        Some (access_audit_of p updated r))\<rparr>"
    unfolding access_transaction_def Let_def
    by (auto split: option.splits if_splits sum.splits)
  have "ac_expectedRevision (pr_command p) = executionRevision row"
    using row(2) by (simp add: claims_def)
  then have "updated = moved_row p clock row"
    using trg adv by (auto simp: moved_row_def tenant_fence_trigger_def split: if_splits)
  then show ?thesis
    using row free r db' by auto
qed

lemma begin_prepared:
  assumes "begin_update legacy sha db act tid dto now = Inr (Inr p)"
  shows "db_tenants db tid = Some (pr_tenant p) \<and>
    parse_command legacy dto = Inr (pr_command p) \<and>
    pr_digest p = command_digest sha (tenant_id (pr_tenant p)) (pr_command p) \<and>
    db_audit db (tenant_id (pr_tenant p), ac_requestId (pr_command p)) = None \<and>
    resolve_next_ends_at (pr_tenant p) (pr_command p) now = Inr (pr_nextEndsAt p)"
  using assms unfolding begin_update_def Let_def find_replay_def
  by (auto split: option.splits if_splits sum.splits)

definition access_replay :: "access_db \<Rightarrow> prepared \<Rightarrow> access_error + access_result option" where
  "access_replay db p =
     find_replay db (tenant_id (pr_tenant p)) (ac_requestId (pr_command p)) (pr_digest p)"

interpretation access: audited_command
  "\<lambda>db (now, clock) p. access_transaction db p now clock" access_replay "\<lambda>_. True"
proof
  fix db env p db' r
  assume "(case env of (now, clock) \<Rightarrow> \<lambda>p. access_transaction db p now clock) p = Inr (db', r)"
  then obtain now clock where "access_transaction db p now clock = Inr (db', r)"
    by (cases env) auto
  from access_transaction_success [OF this]
  show "access_replay db' p = Inr (Some r)" and "access_replay db p = Inr None"
    by (auto simp: access_replay_def find_replay_def access_audit_of_def)
qed

lemma commit_update_audited:
  "commit_update db p now clock =
    audited_commit (\<lambda>db (now, clock) p. access_transaction db p now clock) access_replay db (now, clock) p"
  unfolding commit_update_def audited_commit_def access_replay_def prod.case by (rule HOL.refl)

lemma access_transaction_changes:
  "access_transaction db p now clock = Inr (db', r) \<Longrightarrow> db' \<noteq> db"
  using access.transact_changes [of db "(now, clock)" p db' r] by simp

lemmas commit_changed = access.commit_changed [of _ "(now, clock)" for now clock, folded commit_update_audited, simplified]

lemma claims_command:
  "claims p row \<Longrightarrow> executionRevision row = ac_expectedRevision (pr_command p)"
  by (simp add: claims_def)

text \<open>A committed command makes every other command that expects the same revision too late.\<close>

lemma commit_too_late:
  assumes "db_tenants db (tenant_id (pr_tenant p)) = Some row"
    and "executionRevision row \<noteq> ac_expectedRevision (pr_command p)"
  shows "fst (commit_update db p now clock) = db"
proof -
  have "access_transaction db p now clock = Inl Window_Changed"
    using assms by (auto simp: access_transaction_def Let_def claims_def)
  then show ?thesis by (auto simp: commit_update_def split: sum.splits option.splits)
qed

section \<open>Properties\<close>

definition sample_row :: tenant where
  "sample_row = tenant.truncate (sample_subject LC_ACTIVE)"

definition sample_access_db :: access_db where
  "sample_access_db = \<lparr>db_tenants = Map.empty(''t1'' \<mapsto> sample_row), db_audit = Map.empty\<rparr>"

definition sample_dto :: js_value where
  "sample_dto = JObj
     [(''mode'', JStr ''CLOSE_NOW''), (''expectedExecutionRevision'', JNum 4),
      (''reason'', JStr ''contract ended''), (''confirmation'', JStr ''club''),
      (''requestId'', JStr ''0a0b0c0d-1111-4222-8333-444455556666'')]"

definition sample_admin :: actor where
  "sample_admin = \<lparr>actor_id = ''root'', actor_isPlatformAdmin = True, actor_isActive = True\<rparr>"

definition sample_command :: access_command where
  "sample_command =
     \<lparr>ac_mode = MODE_CLOSE_NOW, ac_accessUntil = None, ac_expectedRevision = 4,
      ac_reason = ''contract ended'', ac_requestId = ''0a0b0c0d-1111-4222-8333-444455556666'',
      ac_supportTicket = None\<rparr>"

definition sample_prepared :: prepared where
  "sample_prepared =
     \<lparr>pr_tenant = sample_row, pr_command = sample_command, pr_digest = ''h'', pr_actor = ''root'',
      pr_nextEndsAt = At 500\<rparr>"

lemma sample_parse: "parse_command (\<lambda>_. Invalid_Date) sample_dto = Inr sample_command"
  by code_simp

lemma sample_row_simps [simp]:
  "tenant_id sample_row = ''t1''" "tenant_slug sample_row = ''club''" "executionRevision sample_row = 4"
  "customerStage sample_row = PILOT" "trialStartsAt sample_row = Some (At 100)"
  "trialEndsAt sample_row = Some (At 1000)" "updatedAt sample_row = 50"
  by (simp_all add: sample_row_def sample_subject_def tenant.truncate_def)

lemma sample_begin:
  "begin_update (\<lambda>_. Invalid_Date) (\<lambda>_. ''h'') sample_access_db (Some sample_admin) ''t1'' sample_dto (At 500)
    = Inr (Inr sample_prepared)"
proof -
  have "resolve_next_ends_at sample_row sample_command (At 500) = Inr (At 500)"
    by (simp add: resolve_next_ends_at_def sample_command_def trial_bound_stage_def)
  moreover have "js_trim ''club'' = ''club''" by code_simp
  ultimately show ?thesis
    using sample_parse
    by (simp add: begin_update_def sample_admin_def sample_access_db_def Let_def find_replay_def
        command_digest_def sample_prepared_def)
      (simp add: sample_dto_def)
qed

lemma sample_transaction:
  "\<exists>db' r. access_transaction sample_access_db sample_prepared (At 500) 60 = Inr (db', r)"
  by (simp add: access_transaction_def sample_access_db_def sample_prepared_def sample_command_def
      claims_def tenant_fence_trigger_def execution_columns_differ_def Let_def)

text \<open>
  The summary tells what the gate will do. For a trial tenant with an ordered window and any
  instant before the open-ended threshold, the state shown to the administrator says that the
  window has not started or has expired exactly when the execution policy denies the session for
  that reason, and says that it is open exactly when the policy lets the session pass.
\<close>

theorem access_summary_matches_policy:
  assumes "ordered_window s a b" and "n < OPEN_ENDED_THRESHOLD_MS"
  shows "map_option reasonCode (evaluate_trial_window s (At n)) =
    map_option DENIED (policy_view (as_state (describe_access s (At n))))"
  using assms by (simp add: trial_window_bound [OF assms(1)] describe_bound_state [OF assms(1)]
      ordered_window_def)

theorem access_summary_matches_policy_witness:
  "map_option reasonCode (evaluate_trial_window (sample_subject LC_ACTIVE) (At 1000)) =
    map_option DENIED (policy_view (as_state (describe_access (sample_subject LC_ACTIVE) (At 1000))))"
  by (rule access_summary_matches_policy [of _ 100 1000])
    (simp_all add: ordered_window_def sample_subject_def trial_bound_stage_def OPEN_ENDED_THRESHOLD_MS_def)

text \<open>
  The number of days left is the rounded up distance to the end. Whenever the summary is in the
  state active-until, it shows a positive number of days whose last one is the one the window ends in.
\<close>

theorem access_days_left_exact:
  assumes "ordered_window t a b" and "as_state (describe_access t (At n)) = ACTIVE_UNTIL"
  shows "\<exists>d. as_daysLeft (describe_access t (At n)) = Some d \<and> 1 \<le> d \<and>
    (d - 1) * DAY_MS < b - n \<and> b - n \<le> d * DAY_MS"
proof -
  have pos: "0 < DAY_MS" by (simp add: DAY_MS_def)
  have n: "a \<le> n" "n < b" "b < OPEN_ENDED_THRESHOLD_MS"
    using assms(2) by (auto simp: describe_bound_state [OF assms(1)] split: if_splits)
  then have "as_daysLeft (describe_access t (At n)) = Some (ceil_div (b - n) DAY_MS)"
    by (simp add: describe_days_left [OF assms(1)])
  moreover have "1 \<le> ceil_div (b - n) DAY_MS"
    using ceil_div_le_iff [OF pos, of "b - n" 0] n by simp
  ultimately show ?thesis
    using ceil_div_ge [OF pos, of "b - n"] ceil_div_less [OF pos, of "b - n"] by auto
qed

theorem access_days_left_exact_witness:
  "\<exists>d. as_daysLeft (describe_access (sample_subject LC_ACTIVE) (At 400)) = Some d \<and> 1 \<le> d \<and>
    (d - 1) * DAY_MS < 1000 - 400 \<and> 1000 - 400 \<le> d * DAY_MS"
proof -
  have "ordered_window (sample_subject LC_ACTIVE) 100 1000"
    by (simp add: ordered_window_def sample_subject_def trial_bound_stage_def)
  then show ?thesis
    using access_days_left_exact [of "sample_subject LC_ACTIVE" 100 1000 400]
    by (simp add: describe_bound_state OPEN_ENDED_THRESHOLD_MS_def)
qed

text \<open>
  A committed command moves the end and nothing else. Whatever other requests did between the
  two phases: if the transaction changes the database, then the tenant's row still was the one the
  command was computed from, only its end, its modification time and its execution revision change,
  the revision by exactly one, and no other tenant is touched.
\<close>

theorem access_command_moves_only_end:
  assumes "begin_update legacy sha db act tid dto now = Inr (Inr p)"
    and "commit_update db2 p now clock = (db3, out)" and "db3 \<noteq> db2"
  shows "\<exists>row. db_tenants db2 (tenant_id (pr_tenant p)) = Some row \<and>
    trialEndsAt row = trialEndsAt (pr_tenant p) \<and> executionRevision row = executionRevision (pr_tenant p) \<and>
    db_tenants db3 = (db_tenants db2)(tenant_id (pr_tenant p) \<mapsto>
      row\<lparr>trialEndsAt := Some (pr_nextEndsAt p), updatedAt := clock,
          executionRevision := executionRevision row + 1\<rparr>)"
proof -
  from commit_changed [OF assms(2,3)] obtain r
    where "access_transaction db2 p now clock = Inr (db3, r)" by blast
  moreover have "executionRevision (pr_tenant p) = ac_expectedRevision (pr_command p)"
    using begin_prepared [OF assms(1)]
    by (auto simp: resolve_next_ends_at_def split: if_splits option.splits)
  ultimately show ?thesis
    using access_transaction_success [of db2 p now clock db3 r]
    by (auto simp: moved_row_def claims_def)
qed

theorem access_command_moves_only_end_witness:
  "\<exists>(db3 :: access_db) row. db_tenants sample_access_db ''t1'' = Some row \<and>
    db_tenants db3 = (db_tenants sample_access_db)(''t1'' \<mapsto>
      row\<lparr>trialEndsAt := Some (At 500), updatedAt := 60, executionRevision := executionRevision row + 1\<rparr>)"
proof -
  obtain db' r where tr: "access_transaction sample_access_db sample_prepared (At 500) 60 = Inr (db', r)"
    using sample_transaction by blast
  then have "commit_update sample_access_db sample_prepared (At 500) 60 = (db', Inr r)"
    by (simp add: commit_update_def)
  from access_command_moves_only_end [OF sample_begin this access_transaction_changes [OF tr]]
  show ?thesis unfolding sample_prepared_def prepared.simps sample_row_simps
    by blast
qed



text \<open>
  C5: Replays are idempotent. A command that has succeeded can be sent again, at any later time: the
  database does not change a second time and the answer is the stored one.
\<close>

theorem access_replay_idempotent:
  assumes "update_access legacy sha db act tid dto now clock = (db', Inr r)"
    and "\<And>t. db_tenants db tid = Some t \<Longrightarrow> tenant_id t = tid"
  shows "update_access legacy sha db' act tid dto now' clock' = (db', Inr r)"
proof (cases "begin_update legacy sha db act tid dto now")
  case (Inl e)
  then show ?thesis using assms(1) by (simp add: update_access_def)
next
  case (Inr out)
  show ?thesis
  proof (cases out)
    case (Inl r0)
    then have "db' = db" "r0 = r" using assms(1) Inr by (auto simp: update_access_def)
    moreover have "begin_update legacy sha db act tid dto now' = Inr (Inl r)"
      using Inr Inl \<open>r0 = r\<close> unfolding begin_update_def Let_def
      by (auto split: option.splits if_splits sum.splits)
    ultimately show ?thesis by (simp add: update_access_def)
  next
    case prep: (Inr p)
    note b = begin_prepared [OF Inr [unfolded prep]]
    have tid: "tenant_id (pr_tenant p) = tid" using b assms(2) by blast
    have "commit_update db p now clock = (db', Inr r)"
      using assms(1) Inr prep by (simp add: update_access_def)
    moreover have "find_replay db (tenant_id (pr_tenant p)) (ac_requestId (pr_command p)) (pr_digest p) = Inr None"
      using b by (simp add: find_replay_def)
    ultimately have "access_transaction db p now clock = Inr (db', r)"
      by (auto simp: commit_update_def split: sum.splits)
    from access_transaction_success [OF this] obtain row
      where row: "db_tenants db tid = Some row" "db_tenants db' tid = Some (moved_row p clock row)"
      and a: "db_audit db' (tid, ac_requestId (pr_command p)) = Some (Some (access_audit_of p (moved_row p clock row) r))"
      using tid by auto
    have same: "tenant_id (moved_row p clock row) = tid" "tenant_slug (moved_row p clock row) = tenant_slug (pr_tenant p)"
      using row(1) b tid by (auto simp: moved_row_def)
    have "find_replay db' tid (ac_requestId (pr_command p)) (command_digest sha tid (pr_command p)) = Inr (Some r)"
      using a b tid by (simp add: find_replay_def access_audit_of_def)
    then have "begin_update legacy sha db' act tid dto now' = Inr (Inl r)"
      using Inr prep b row same unfolding begin_update_def Let_def
      by (auto split: option.splits if_splits sum.splits js_value.splits)
    then show ?thesis by (simp add: update_access_def)
  qed
qed

theorem access_replay_idempotent_witness:
  "\<exists>db' r. db' \<noteq> sample_access_db \<and>
    update_access (\<lambda>_. Invalid_Date) (\<lambda>_. ''h'') db' (Some sample_admin) ''t1'' sample_dto (At 900) 90 = (db', Inr r)"
proof -
  obtain db' r where tr: "access_transaction sample_access_db sample_prepared (At 500) 60 = Inr (db', r)"
    using sample_transaction by blast
  then have "update_access (\<lambda>_. Invalid_Date) (\<lambda>_. ''h'') sample_access_db (Some sample_admin) ''t1'' sample_dto (At 500) 60
      = (db', Inr r)"
    by (simp add: update_access_def sample_begin commit_update_def)
  from access_replay_idempotent [OF this, of "At 900" 90]
  have "update_access (\<lambda>_. Invalid_Date) (\<lambda>_. ''h'') db' (Some sample_admin) ''t1'' sample_dto (At 900) 90 = (db', Inr r)"
    by (simp add: sample_access_db_def)
  moreover have "db' \<noteq> sample_access_db" by (rule access_transaction_changes [OF tr])
  ultimately show ?thesis by blast
qed

text \<open>
  C7: Closing takes effect at once. After a close-now command committed at an instant, no session of
  that tenant is admitted at that instant or any later one.
\<close>

theorem access_close_is_immediate:
  assumes "begin_update legacy sha db act tid dto (At n) = Inr (Inr p)"
    and "ac_mode (pr_command p) = MODE_CLOSE_NOW"
    and "commit_update db2 p (At n) clock = (db3, out)" and "db3 \<noteq> db2"
    and "db_tenants db3 (tenant_id (pr_tenant p)) = Some (tenant.truncate s)" and "n \<le> m"
  shows "assert_session_allowed s (At m) \<noteq> Inr ()"
proof -
  have next_end: "resolve_next_ends_at (pr_tenant p) (pr_command p) (At n) = Inr (pr_nextEndsAt p)"
    using begin_prepared [OF assms(1)] by blast
  then have stage: "trial_bound_stage (customerStage (pr_tenant p))" and moved: "pr_nextEndsAt p = At n"
    using assms(2) resolve_next_range
    by (auto simp: resolve_next_ends_at_def split: if_splits option.splits)
  from commit_changed [OF assms(3,4)] obtain r
    where "access_transaction db2 p (At n) clock = Inr (db3, r)" by blast
  from access_transaction_success [OF this] obtain row where "claims p row"
    and "db_tenants db3 (tenant_id (pr_tenant p)) = Some (moved_row p clock row)" by auto
  then have "trialEndsAt s = Some (At n)" and "customerStage s = customerStage (pr_tenant p)"
    using assms(5) moved truncate_simps(4,7) [of s]
    by (auto simp: moved_row_def claims_def simp del: truncate_simps dest!: sym [of "tenant.truncate s"])
  then have "\<not> session_spec s m"
    using stage assms(6) by (auto simp: session_spec_def trial_spec_def)
  then show ?thesis
    by (simp add: assert_session_allowed_def session_allowed_iff)
qed

theorem access_close_is_immediate_witness:
  "\<exists>s. tenant_id s = ''t1'' \<and> assert_session_allowed s (At 600) \<noteq> Inr ()"
proof -
  obtain db' r where tr: "access_transaction sample_access_db sample_prepared (At 500) 60 = Inr (db', r)"
    using sample_transaction by blast
  then have cm: "commit_update sample_access_db sample_prepared (At 500) 60 = (db', Inr r)"
    by (simp add: commit_update_def)
  have ne: "db' \<noteq> sample_access_db" by (rule access_transaction_changes [OF tr])
  define s where "s = (sample_subject LC_ACTIVE)
    \<lparr>trialEndsAt := Some (At 500), updatedAt := 60, executionRevision := 5\<rparr>"
  have "moved_row sample_prepared 60 sample_row = tenant.truncate s"
    by (simp add: s_def moved_row_def sample_prepared_def sample_row_def sample_subject_def tenant.truncate_def)
  then have "db_tenants db' ''t1'' = Some (tenant.truncate s)"
    using access_transaction_success [OF tr] by (auto simp: sample_access_db_def sample_prepared_def)
  then have "assert_session_allowed s (At 600) \<noteq> Inr ()"
    using access_close_is_immediate [OF sample_begin _ cm ne]
    by (simp add: sample_prepared_def sample_command_def)
  moreover have "tenant_id s = ''t1''" by (simp add: s_def sample_subject_def)
  ultimately show ?thesis by blast
qed

end
