(* ===== verification/Entitlement_Profile.thy ===== *)
theory Entitlement_Profile
  imports Access_Window
begin

text \<open>
  \<open>TenantEntitlementProfileService\<close> (\<open>tenancy/tenant-entitlement-profile.service.ts\<close>): the complete
  replacement of a tenant's module entitlements by the platform administrator.

  The request body is parsed from \<open>js_value\<close>; the command runs in the two phases \<open>begin_replace\<close>
  (reads, replay, checks) and \<open>commit_replace\<close> (the transaction with its optimistic claim of the
  tenant's row, the fence trigger, the replacement of the entitlement rows and the audit event that
  stores the profile for replays). The stored profile is JSON and is read back by
  \<open>deserialize_profile\<close>.
\<close>

section \<open>Names\<close>

fun mod_name :: "tenant_module \<Rightarrow> string" where
  "mod_name GAMIFICATION = ''GAMIFICATION''"
| "mod_name ASSORTMENT = ''ASSORTMENT''"
| "mod_name STAFF = ''STAFF''"
| "mod_name COMMUNICATIONS = ''COMMUNICATIONS''"
| "mod_name USERS_ROLES = ''USERS_ROLES''"
| "mod_name INTEGRATIONS = ''INTEGRATIONS''"

fun stage_name :: "customer_stage \<Rightarrow> string" where
  "stage_name INTERNAL = ''INTERNAL''"
| "stage_name PILOT = ''PILOT''"
| "stage_name BETA = ''BETA''"
| "stage_name LIVE = ''LIVE''"

fun onboarding_name :: "onboarding_status \<Rightarrow> string" where
  "onboarding_name PROVISIONING = ''PROVISIONING''"
| "onboarding_name OWNER_INVITED = ''OWNER_INVITED''"
| "onboarding_name ONBOARDING = ''ONBOARDING''"
| "onboarding_name READY = ''READY''"
| "onboarding_name OB_ACTIVE = ''ACTIVE''"
| "onboarding_name OFFBOARDING = ''OFFBOARDING''"

fun lifecycle_name :: "lifecycle_status \<Rightarrow> string" where
  "lifecycle_name LC_ACTIVE = ''ACTIVE''"
| "lifecycle_name SUSPENDED = ''SUSPENDED''"
| "lifecycle_name ARCHIVED = ''ARCHIVED''"

definition module_names :: "(string \<times> tenant_module) list" where
  "module_names = map (\<lambda>m. (mod_name m, m)) complete_module_profile"

definition stage_names :: "(string \<times> customer_stage) list" where
  "stage_names = map (\<lambda>s. (stage_name s, s)) [INTERNAL, PILOT, BETA, LIVE]"

definition onboarding_names :: "(string \<times> onboarding_status) list" where
  "onboarding_names = map (\<lambda>s. (onboarding_name s, s))
     [PROVISIONING, OWNER_INVITED, ONBOARDING, READY, OB_ACTIVE, OFFBOARDING]"

lemma parse_module_name [simp]: "parse_enum module_names (JStr (mod_name m)) = Some m"
  by (cases m) (simp_all add: module_names_def complete_module_profile_def)

lemma parse_stage_name [simp]: "parse_enum stage_names (JStr (stage_name s)) = Some s"
  by (cases s) (simp_all add: stage_names_def)

lemma parse_onboarding_name [simp]: "parse_enum onboarding_names (JStr (onboarding_name s)) = Some s"
  by (cases s) (simp_all add: onboarding_names_def)

section \<open>Rows, requests and serialised profiles\<close>

record entitlement_row = entitlement +
  er_reason :: string

record parsed_module =
  pm_module :: tenant_module
  pm_read :: bool
  pm_write :: bool
  pm_outbound :: bool
  pm_from :: "jsdate option"
  pm_until :: "jsdate option"

record parsed_replacement =
  rp_expectedRevision :: int
  rp_reason :: string
  rp_requestId :: string
  rp_supportTicket :: "string option"
  rp_customerStage :: customer_stage
  rp_onboardingStatus :: onboarding_status
  rp_cohortKey :: string
  rp_supportOwner :: string
  rp_trialStartsAt :: "jsdate option"
  rp_trialEndsAt :: "jsdate option"
  rp_modules :: "parsed_module list"

record serialized_module =
  sm_module :: tenant_module
  sm_read :: bool
  sm_write :: bool
  sm_outbound :: bool
  sm_from :: "string option"
  sm_until :: "string option"
  sm_profileRevision :: int
  sm_reason :: string

record serialized_profile =
  sp_tenantId :: string
  sp_tenantName :: string
  sp_tenantSlug :: string
  sp_lifecycleStatus :: string
  sp_customerStage :: customer_stage
  sp_onboardingStatus :: onboarding_status
  sp_cohortKey :: "string option"
  sp_supportOwner :: "string option"
  sp_trialStartsAt :: "string option"
  sp_trialEndsAt :: "string option"
  sp_profileRevision :: int
  sp_executionRevision :: int
  sp_modules :: "serialized_module list"

record replace_result =
  rr_tenantId :: string
  rr_profileRevision :: int
  rr_executionRevision :: int
  rr_customerStage :: customer_stage
  rr_onboardingStatus :: onboarding_status
  rr_cohortKey :: "string option"
  rr_supportOwner :: "string option"
  rr_trialStartsAt :: "string option"
  rr_trialEndsAt :: "string option"
  rr_modules :: "serialized_module list"

datatype profile_error =
  P_Forbidden | P_Tenant_Not_Found | P_Confirmation | P_Request_Id_Reused | P_Stored_Record_Invalid
| P_Revision_Field | P_Text_Required string | P_Text_Length string | P_Text_Not_String string
| P_Not_Enum string | P_Not_Boolean string | P_Not_Timestamp string
| P_Trial_Half_Set | P_Trial_Order | P_Modules_Not_Array | P_Modules_Incomplete | P_Outbound_Workflow
| P_Module_Not_Object string | P_Module_Unsupported string | P_Write_Without_Read string
| P_Outbound_Without_Write string | P_Module_Window string
| P_Stage_Workflow | P_Onboarding_Workflow | P_Trial_Required | P_Profile_Changed
| P_Revision_Exhausted | P_Execution_Exhausted | P_Support_Owner | P_Execution_Changed
| P_Fence fence_error | P_Audit_Unique_Violation

section \<open>Parsing the request\<close>

definition required_text :: "js_value \<Rightarrow> string \<Rightarrow> nat \<Rightarrow> nat \<Rightarrow> profile_error + string" where
  "required_text v field lo hi =
     (case v of
        JStr s \<Rightarrow>
          (let t = js_trim s
           in if length t < lo \<or> hi < length t then Inl (P_Text_Length field) else Inr t)
      | _ \<Rightarrow> Inl (P_Text_Required field))"

definition optional_text :: "js_value \<Rightarrow> string \<Rightarrow> nat \<Rightarrow> profile_error + string option" where
  "optional_text v field hi =
     (if js_missing v then Inr None
      else case v of
        JStr s \<Rightarrow>
          (let t = js_trim s
           in if t = [] \<or> hi < length t then Inl (P_Text_Length field) else Inr (Some t))
      | _ \<Rightarrow> Inl (P_Text_Not_String field))"

definition enum_value :: "(string \<times> 'a) list \<Rightarrow> js_value \<Rightarrow> string \<Rightarrow> profile_error + 'a" where
  "enum_value table v field =
     (case parse_enum table v of None \<Rightarrow> Inl (P_Not_Enum field) | Some x \<Rightarrow> Inr x)"

definition boolean_value :: "js_value \<Rightarrow> string \<Rightarrow> profile_error + bool" where
  "boolean_value v field = (case v of JBool b \<Rightarrow> Inr b | _ \<Rightarrow> Inl (P_Not_Boolean field))"

definition optional_date ::
  "(string \<Rightarrow> jsdate) \<Rightarrow> js_value \<Rightarrow> string \<Rightarrow> profile_error + jsdate option" where
  "optional_date legacy v field =
     (if js_missing v then Inr None
      else case v of
        JStr s \<Rightarrow>
          (let d = js_parse_date legacy s
           in if \<not> valid_date d \<or> CHR ''T'' \<notin> set s then Inl (P_Not_Timestamp field) else Inr (Some d))
      | _ \<Rightarrow> Inl (P_Not_Timestamp field))"

text \<open>\<open>a && b && a >= b\<close> for two optional dates.\<close>

fun window_inverted :: "jsdate option \<Rightarrow> jsdate option \<Rightarrow> bool" where
  "window_inverted (Some a) (Some b) = date_ge a b"
| "window_inverted _ _ = False"

definition field_of :: "nat \<Rightarrow> string \<Rightarrow> string" where
  "field_of i name = ''modules['' @ show_nat i @ '']'' @ name"

definition parse_module :: "(string \<Rightarrow> jsdate) \<Rightarrow> nat \<Rightarrow> js_value \<Rightarrow> profile_error + parsed_module" where
  "parse_module legacy i v =
     (case v of
        JObj o1 \<Rightarrow>
          (case parse_enum module_names (js_prop o1 ''module'') of
             None \<Rightarrow> Inl (P_Module_Unsupported (field_of i ''.module''))
           | Some m \<Rightarrow>
               and_then (boolean_value (js_prop o1 ''readEnabled'') (field_of i ''.readEnabled'')) (\<lambda>rd.
               and_then (boolean_value (js_prop o1 ''writeEnabled'') (field_of i ''.writeEnabled'')) (\<lambda>wr.
               and_then (boolean_value (js_prop o1 ''outboundEnabled'') (field_of i ''.outboundEnabled'')) (\<lambda>ob.
               and_then (throw_if (wr \<and> \<not> rd) (P_Write_Without_Read (field_of i ''''))) (\<lambda>_.
               and_then (throw_if (ob \<and> \<not> wr) (P_Outbound_Without_Write (field_of i ''''))) (\<lambda>_.
               and_then (optional_date legacy (js_prop o1 ''validFrom'') (field_of i ''.validFrom'')) (\<lambda>from.
               and_then (optional_date legacy (js_prop o1 ''validUntil'') (field_of i ''.validUntil'')) (\<lambda>until.
               and_then (throw_if (window_inverted from until) (P_Module_Window (field_of i ''.validFrom''))) (\<lambda>_.
               Inr \<lparr>pm_module = m, pm_read = rd, pm_write = wr, pm_outbound = ob,
                    pm_from = from, pm_until = until\<rparr>)))))))))
      | _ \<Rightarrow> Inl (P_Module_Not_Object (field_of i '''')))"

definition compare_modules :: "tenant_module \<Rightarrow> tenant_module \<Rightarrow> int" where
  "compare_modules m n = int (module_index m) - int (module_index n)"

definition modules_incomplete :: "tenant_module list \<Rightarrow> bool" where
  "modules_incomplete ms \<longleftrightarrow>
     length ms \<noteq> length complete_module_profile \<or> length (js_uniq ms) \<noteq> length ms \<or>
     filter (\<lambda>m. m \<notin> set (js_uniq ms)) complete_module_profile \<noteq> []"

definition parse_modules :: "(string \<Rightarrow> jsdate) \<Rightarrow> js_value \<Rightarrow> profile_error + parsed_module list" where
  "parse_modules legacy v =
     (case v of
        JArr vs \<Rightarrow>
          and_then (map_results (parse_module legacy) 0 vs) (\<lambda>ms.
          and_then (throw_if (modules_incomplete (map pm_module ms)) P_Modules_Incomplete) (\<lambda>_.
          (let sorted = js_sort (\<lambda>a b. compare_modules (pm_module a) (pm_module b)) ms
           in and_then (throw_if (\<exists>m\<in>set sorted. pm_outbound m) P_Outbound_Workflow) (\<lambda>_. Inr sorted))))
      | _ \<Rightarrow> Inl P_Modules_Not_Array)"

definition expected_revision :: "js_value \<Rightarrow> profile_error + int" where
  "expected_revision v =
     (case js_safe_int v of
        None \<Rightarrow> Inl P_Revision_Field
      | Some n \<Rightarrow> if n < 0 then Inl P_Revision_Field else Inr n)"

type_synonym js_object = "(string \<times> js_value) list"

definition parse_replacement ::
  "(string \<Rightarrow> jsdate) \<Rightarrow> js_object \<Rightarrow> profile_error + parsed_replacement" where
  "parse_replacement legacy dto =
     and_then (expected_revision (js_prop dto ''expectedProfileRevision'')) (\<lambda>revision.
     and_then (required_text (js_prop dto ''reason'') ''reason'' 10 500) (\<lambda>reason.
     and_then (required_text (js_prop dto ''requestId'') ''requestId'' 8 200) (\<lambda>rid.
     and_then (optional_text (js_prop dto ''supportTicket'') ''supportTicket'' 200) (\<lambda>ticket.
     and_then (enum_value stage_names (js_prop dto ''customerStage'') ''customerStage'') (\<lambda>stage.
     and_then (enum_value onboarding_names (js_prop dto ''onboardingStatus'') ''onboardingStatus'') (\<lambda>onb.
     and_then (required_text (js_prop dto ''cohortKey'') ''cohortKey'' 3 100) (\<lambda>cohort.
     and_then (required_text (js_prop dto ''supportOwnerUserId'') ''supportOwnerUserId'' 1 100) (\<lambda>owner.
     and_then (optional_date legacy (js_prop dto ''trialStartsAt'') ''trialStartsAt'') (\<lambda>starts.
     and_then (optional_date legacy (js_prop dto ''trialEndsAt'') ''trialEndsAt'') (\<lambda>ends.
     and_then (throw_if ((starts = None) \<noteq> (ends = None)) P_Trial_Half_Set) (\<lambda>_.
     and_then (throw_if (window_inverted starts ends) P_Trial_Order) (\<lambda>_.
     and_then (parse_modules legacy (js_prop dto ''modules'')) (\<lambda>modules.
     Inr \<lparr>rp_expectedRevision = revision, rp_reason = reason, rp_requestId = rid,
          rp_supportTicket = ticket, rp_customerStage = stage, rp_onboardingStatus = onb,
          rp_cohortKey = cohort, rp_supportOwner = owner, rp_trialStartsAt = starts,
          rp_trialEndsAt = ends, rp_modules = modules\<rparr>)))))))))))))"

section \<open>Serialisation\<close>

definition serialize_module :: "entitlement_row \<Rightarrow> serialized_module" where
  "serialize_module e =
     \<lparr>sm_module = ent_module e, sm_read = readEnabled e, sm_write = writeEnabled e,
      sm_outbound = outboundEnabled e, sm_from = map_option iso_of (validFrom e),
      sm_until = map_option iso_of (validUntil e), sm_profileRevision = profileRevision e,
      sm_reason = er_reason e\<rparr>"

definition serialize_profile ::
  "tenant \<Rightarrow> int \<Rightarrow> entitlement_row list \<Rightarrow> serialized_profile" where
  "serialize_profile t revision rows =
     \<lparr>sp_tenantId = tenant_id t, sp_tenantName = tenant_name t, sp_tenantSlug = tenant_slug t,
      sp_lifecycleStatus = lifecycle_name (status t), sp_customerStage = customerStage t,
      sp_onboardingStatus = onboardingStatus t, sp_cohortKey = cohortKey t,
      sp_supportOwner = supportOwnerUserId t,
      sp_trialStartsAt = map_option iso_of (trialStartsAt t),
      sp_trialEndsAt = map_option iso_of (trialEndsAt t),
      sp_profileRevision = revision, sp_executionRevision = executionRevision t,
      sp_modules = map serialize_module
        (js_sort (\<lambda>a b. compare_modules (ent_module a) (ent_module b)) rows)\<rparr>"

fun js_text :: "string option \<Rightarrow> js_value" where
  "js_text None = JNull"
| "js_text (Some s) = JStr s"

text \<open>The profile as the JSON column of the audit event holds it.\<close>

definition json_of_module :: "serialized_module \<Rightarrow> js_value" where
  "json_of_module m = JObj
     [(''module'', JStr (mod_name (sm_module m))), (''readEnabled'', JBool (sm_read m)),
      (''writeEnabled'', JBool (sm_write m)), (''outboundEnabled'', JBool (sm_outbound m)),
      (''validFrom'', js_text (sm_from m)), (''validUntil'', js_text (sm_until m)),
      (''profileRevision'', JNum (of_int (sm_profileRevision m))), (''reason'', JStr (sm_reason m))]"

definition json_of_profile :: "serialized_profile \<Rightarrow> js_value" where
  "json_of_profile p = JObj
     [(''tenantId'', JStr (sp_tenantId p)), (''tenantName'', JStr (sp_tenantName p)),
      (''tenantSlug'', JStr (sp_tenantSlug p)), (''lifecycleStatus'', JStr (sp_lifecycleStatus p)),
      (''customerStage'', JStr (stage_name (sp_customerStage p))),
      (''onboardingStatus'', JStr (onboarding_name (sp_onboardingStatus p))),
      (''cohortKey'', js_text (sp_cohortKey p)), (''supportOwnerUserId'', js_text (sp_supportOwner p)),
      (''trialStartsAt'', js_text (sp_trialStartsAt p)), (''trialEndsAt'', js_text (sp_trialEndsAt p)),
      (''profileRevision'', JNum (of_int (sp_profileRevision p))),
      (''executionRevision'', JNum (of_int (sp_executionRevision p))),
      (''modules'', JArr (map json_of_module (sp_modules p)))]"

fun nullable_string :: "js_value \<Rightarrow> string option option" where
  "nullable_string JNull = Some None"
| "nullable_string (JStr s) = Some (Some s)"
| "nullable_string _ = None"

fun nullable_timestamp :: "(string \<Rightarrow> jsdate) \<Rightarrow> js_value \<Rightarrow> string option option" where
  "nullable_timestamp legacy JNull = Some None"
| "nullable_timestamp legacy (JStr s) =
     (if valid_date (js_parse_date legacy s) \<and> CHR ''T'' \<in> set s then Some (Some s) else None)"
| "nullable_timestamp legacy _ = None"

fun js_string :: "js_value \<Rightarrow> string option" where
  "js_string (JStr s) = Some s"
| "js_string _ = None"

fun js_bool :: "js_value \<Rightarrow> bool option" where
  "js_bool (JBool b) = Some b"
| "js_bool _ = None"

text \<open>Every failing test of the two functions throws the same error; \<open>None\<close> stands for it.\<close>

definition read_module :: "(string \<Rightarrow> jsdate) \<Rightarrow> js_value \<Rightarrow> serialized_module option" where
  "read_module legacy v = (case v of
     JObj o1 \<Rightarrow> do {
       m \<leftarrow> parse_enum module_names (js_prop o1 ''module'');
       rd \<leftarrow> js_bool (js_prop o1 ''readEnabled'');
       wr \<leftarrow> js_bool (js_prop o1 ''writeEnabled'');
       ob \<leftarrow> js_bool (js_prop o1 ''outboundEnabled'');
       from \<leftarrow> nullable_timestamp legacy (js_prop o1 ''validFrom'');
       until \<leftarrow> nullable_timestamp legacy (js_prop o1 ''validUntil'');
       revision \<leftarrow> js_safe_int (js_prop o1 ''profileRevision'');
       reason \<leftarrow> js_string (js_prop o1 ''reason'');
       (if reason = [] then None
        else Some \<lparr>sm_module = m, sm_read = rd, sm_write = wr, sm_outbound = ob, sm_from = from,
                   sm_until = until, sm_profileRevision = revision, sm_reason = reason\<rparr>)
     }
   | _ \<Rightarrow> None)"

definition deserialize_module :: "(string \<Rightarrow> jsdate) \<Rightarrow> js_value \<Rightarrow> profile_error + serialized_module" where
  "deserialize_module legacy v =
     (case read_module legacy v of None \<Rightarrow> Inl P_Stored_Record_Invalid | Some m \<Rightarrow> Inr m)"

definition read_profile ::
  "(string \<Rightarrow> jsdate) \<Rightarrow> js_object \<Rightarrow> serialized_module list \<Rightarrow> serialized_profile option" where
  "read_profile legacy o1 modules = do {
     tid \<leftarrow> js_string (js_prop o1 ''tenantId'');
     name \<leftarrow> js_string (js_prop o1 ''tenantName'');
     slug \<leftarrow> js_string (js_prop o1 ''tenantSlug'');
     lifecycle \<leftarrow> js_string (js_prop o1 ''lifecycleStatus'');
     stage \<leftarrow> parse_enum stage_names (js_prop o1 ''customerStage'');
     onb \<leftarrow> parse_enum onboarding_names (js_prop o1 ''onboardingStatus'');
     revision \<leftarrow> js_safe_int (js_prop o1 ''profileRevision'');
     execution \<leftarrow> js_safe_int (js_prop o1 ''executionRevision'');
     cohort \<leftarrow> nullable_string (js_prop o1 ''cohortKey'');
     owner \<leftarrow> nullable_string (js_prop o1 ''supportOwnerUserId'');
     starts \<leftarrow> nullable_timestamp legacy (js_prop o1 ''trialStartsAt'');
     ends \<leftarrow> nullable_timestamp legacy (js_prop o1 ''trialEndsAt'');
     (if revision < 1 \<or> execution < 0 \<or>
         length modules \<noteq> length complete_module_profile \<or>
         length (js_uniq (map sm_module modules)) \<noteq> length modules \<or>
         (\<exists>m\<in>set complete_module_profile. m \<notin> set (js_uniq (map sm_module modules))) \<or>
         (\<exists>m\<in>set modules. sm_profileRevision m \<noteq> revision)
      then None
      else Some \<lparr>sp_tenantId = tid, sp_tenantName = name, sp_tenantSlug = slug,
                 sp_lifecycleStatus = lifecycle, sp_customerStage = stage, sp_onboardingStatus = onb,
                 sp_cohortKey = cohort, sp_supportOwner = owner, sp_trialStartsAt = starts,
                 sp_trialEndsAt = ends, sp_profileRevision = revision,
                 sp_executionRevision = execution, sp_modules = modules\<rparr>)
   }"

definition deserialize_profile :: "(string \<Rightarrow> jsdate) \<Rightarrow> js_value \<Rightarrow> profile_error + serialized_profile" where
  "deserialize_profile legacy v =
     (case v of
        JObj o1 \<Rightarrow>
          (case js_prop o1 ''modules'' of
             JArr ms \<Rightarrow>
               and_then (map_results (\<lambda>_. deserialize_module legacy) 0 ms) (\<lambda>modules.
               (case read_profile legacy o1 modules of
                  None \<Rightarrow> Inl P_Stored_Record_Invalid | Some p \<Rightarrow> Inr p))
           | _ \<Rightarrow> Inl P_Stored_Record_Invalid)
      | _ \<Rightarrow> Inl P_Stored_Record_Invalid)"

definition result_from_profile :: "serialized_profile \<Rightarrow> replace_result" where
  "result_from_profile p =
     \<lparr>rr_tenantId = sp_tenantId p, rr_profileRevision = sp_profileRevision p,
      rr_executionRevision = sp_executionRevision p, rr_customerStage = sp_customerStage p,
      rr_onboardingStatus = sp_onboardingStatus p, rr_cohortKey = sp_cohortKey p,
      rr_supportOwner = sp_supportOwner p, rr_trialStartsAt = sp_trialStartsAt p,
      rr_trialEndsAt = sp_trialEndsAt p, rr_modules = sp_modules p\<rparr>"

definition request_digest :: "(string \<Rightarrow> string) \<Rightarrow> string \<Rightarrow> parsed_replacement \<Rightarrow> string" where
  "request_digest sha tid r =
     sha (json_stringify (O_Obj
       [(''tenantId'', O_Str tid), (''expectedProfileRevision'', O_Int (rp_expectedRevision r)),
        (''reason'', O_Str (rp_reason r)), (''requestId'', O_Str (rp_requestId r)),
        (''supportTicket'', json_text (rp_supportTicket r)),
        (''customerStage'', O_Str (stage_name (rp_customerStage r))),
        (''onboardingStatus'', O_Str (onboarding_name (rp_onboardingStatus r))),
        (''cohortKey'', O_Str (rp_cohortKey r)), (''supportOwnerUserId'', O_Str (rp_supportOwner r)),
        (''trialStartsAt'', json_text (map_option iso_of (rp_trialStartsAt r))),
        (''trialEndsAt'', json_text (map_option iso_of (rp_trialEndsAt r))),
        (''modules'', O_Arr (map (\<lambda>m. O_Obj
          [(''module'', O_Str (mod_name (pm_module m))), (''readEnabled'', O_Bool (pm_read m)),
           (''writeEnabled'', O_Bool (pm_write m)), (''outboundEnabled'', O_Bool (pm_outbound m)),
           (''validFrom'', json_text (map_option iso_of (pm_from m))),
           (''validUntil'', json_text (map_option iso_of (pm_until m)))]) (rp_modules r)))]))"

section \<open>The command\<close>

record profile_user =
  pu_isActive :: bool
  pu_isPlatformAdmin :: bool

record profile_audit =
  pa_digest :: "string option"
  pa_after :: js_value
  pa_before :: js_value
  pa_actor :: string
  pa_reason :: string
  pa_supportTicket :: "string option"

text \<open>The tables: tenants, their entitlement rows, users, the audit events of this action.\<close>

record profile_db =
  pd_tenants :: "string \<Rightarrow> tenant option"
  pd_rows :: "string \<Rightarrow> entitlement_row list"
  pd_users :: "string \<Rightarrow> profile_user option"
  pd_audit :: "string \<times> string \<Rightarrow> profile_audit option"

definition find_profile_replay ::
  "(string \<Rightarrow> jsdate) \<Rightarrow> profile_db \<Rightarrow> string \<Rightarrow> string \<Rightarrow> string \<Rightarrow> profile_error + replace_result option" where
  "find_profile_replay legacy db tid rid dig =
     (case pd_audit db (tid, rid) of
        None \<Rightarrow> Inr None
      | Some a \<Rightarrow>
          if pa_digest a \<noteq> Some dig then Inl P_Request_Id_Reused
          else and_then (deserialize_profile legacy (pa_after a))
                 (\<lambda>p. Inr (Some (result_from_profile p))))"

definition assert_trial_window ::
  "lifecycle_status \<Rightarrow> customer_stage \<Rightarrow> onboarding_status \<Rightarrow> jsdate option \<Rightarrow> jsdate option \<Rightarrow>
   profile_error + unit" where
  "assert_trial_window lc stage onb starts ends =
     (if stage \<noteq> PILOT \<and> stage \<noteq> BETA then Inr ()
      else if starts \<noteq> None \<and> ends \<noteq> None then Inr ()
      else if lc = SUSPENDED \<and> onb = PROVISIONING then Inr ()
      else Inl P_Trial_Required)"

definition rows_of :: "parsed_replacement \<Rightarrow> int \<Rightarrow> entitlement_row list" where
  "rows_of r revision =
     map (\<lambda>m. \<lparr>ent_module = pm_module m, readEnabled = pm_read m, writeEnabled = pm_write m,
               outboundEnabled = pm_outbound m, validFrom = pm_from m, validUntil = pm_until m,
               profileRevision = revision, er_reason = rp_reason r\<rparr>) (rp_modules r)"

definition after_tenant :: "tenant \<Rightarrow> parsed_replacement \<Rightarrow> tenant" where
  "after_tenant t r =
     t\<lparr>customerStage := rp_customerStage r, onboardingStatus := rp_onboardingStatus r,
       cohortKey := Some (rp_cohortKey r), supportOwnerUserId := Some (rp_supportOwner r),
       trialStartsAt := rp_trialStartsAt r, trialEndsAt := rp_trialEndsAt r,
       executionRevision := executionRevision t + 1\<rparr>"

record prepared_profile =
  pp_tenant :: tenant
  pp_request :: parsed_replacement
  pp_digest :: string
  pp_actor :: string
  pp_before :: serialized_profile
  pp_after :: serialized_profile

definition bad_confirmation :: "js_value \<Rightarrow> string \<Rightarrow> bool" where
  "bad_confirmation v slug \<longleftrightarrow> (case v of JStr s \<Rightarrow> js_trim s \<noteq> slug | _ \<Rightarrow> True)"

definition begin_replace ::
  "(string \<Rightarrow> jsdate) \<Rightarrow> (string \<Rightarrow> string) \<Rightarrow> profile_db \<Rightarrow> actor option \<Rightarrow> string \<Rightarrow> js_object \<Rightarrow>
   profile_error + replace_result + prepared_profile" where
  "begin_replace legacy sha db act tid dto =
     (case act of
        None \<Rightarrow> Inl P_Forbidden
      | Some a \<Rightarrow>
          and_then (throw_if (actor_id a = [] \<or> \<not> actor_isPlatformAdmin a) P_Forbidden) (\<lambda>_.
          and_then (parse_replacement legacy dto) (\<lambda>r.
          (case pd_tenants db tid of
             None \<Rightarrow> Inl P_Tenant_Not_Found
           | Some t \<Rightarrow>
               and_then (throw_if (bad_confirmation (js_prop dto ''confirmation'') (tenant_slug t))
                   P_Confirmation) (\<lambda>_.
               let dig = request_digest sha (tenant_id t) r
               in and_then (find_profile_replay legacy db (tenant_id t) (rp_requestId r) dig) (\<lambda>replay.
               (case replay of
                  Some res \<Rightarrow> Inr (Inl res)
                | None \<Rightarrow>
                    and_then (throw_if (rp_customerStage r \<noteq> customerStage t) P_Stage_Workflow) (\<lambda>_.
                    and_then (throw_if (rp_onboardingStatus r \<noteq> onboardingStatus t) P_Onboarding_Workflow) (\<lambda>_.
                    and_then (assert_trial_window (status t) (rp_customerStage r) (rp_onboardingStatus r)
                        (rp_trialStartsAt r) (rp_trialEndsAt r)) (\<lambda>_.
                    and_then (throw_if (entitlementProfileRevision t \<noteq> rp_expectedRevision r)
                        P_Profile_Changed) (\<lambda>_.
                    and_then (throw_if (\<not> is_safe_int (rp_expectedRevision r + 1)) P_Revision_Exhausted) (\<lambda>_.
                    and_then (throw_if (\<not> is_safe_int (executionRevision t) \<or> executionRevision t < 0 \<or>
                        2147483647 \<le> executionRevision t) P_Execution_Exhausted) (\<lambda>_.
                    Inr (Inr \<lparr>pp_tenant = t, pp_request = r, pp_digest = dig, pp_actor = actor_id a,
                              pp_before = serialize_profile t (entitlementProfileRevision t)
                                (pd_rows db (tenant_id t)),
                              pp_after = serialize_profile (after_tenant t r) (rp_expectedRevision r + 1)
                                (rows_of r (rp_expectedRevision r + 1))\<rparr>))))))))))))))"

definition profile_claims :: "prepared_profile \<Rightarrow> tenant \<Rightarrow> bool" where
  "profile_claims p row \<longleftrightarrow>
     tenant_id row = tenant_id (pp_tenant p) \<and>
     entitlementProfileRevision row = rp_expectedRevision (pp_request p) \<and>
     executionRevision row = executionRevision (pp_tenant p) \<and>
     updatedAt row = updatedAt (pp_tenant p)"

definition claimed_row :: "prepared_profile \<Rightarrow> int \<Rightarrow> tenant \<Rightarrow> tenant" where
  "claimed_row p clock row =
     (let r = pp_request p
      in row\<lparr>customerStage := rp_customerStage r, onboardingStatus := rp_onboardingStatus r,
             cohortKey := Some (rp_cohortKey r), supportOwnerUserId := Some (rp_supportOwner r),
             trialStartsAt := rp_trialStartsAt r, trialEndsAt := rp_trialEndsAt r,
             entitlementProfileRevision := rp_expectedRevision r + 1, updatedAt := clock\<rparr>)"

definition profile_audit_of :: "prepared_profile \<Rightarrow> profile_audit" where
  "profile_audit_of p =
     \<lparr>pa_digest = Some (pp_digest p), pa_after = json_of_profile (pp_after p),
      pa_before = json_of_profile (pp_before p), pa_actor = pp_actor p,
      pa_reason = rp_reason (pp_request p), pa_supportTicket = rp_supportTicket (pp_request p)\<rparr>"

definition profile_transaction ::
  "profile_db \<Rightarrow> int \<Rightarrow> prepared_profile \<Rightarrow> profile_error + profile_db \<times> replace_result" where
  "profile_transaction db clock p =
     (let tid = tenant_id (pp_tenant p); r = pp_request p; revision = rp_expectedRevision r + 1
      in and_then (throw_if (case pd_users db (rp_supportOwner r) of
             None \<Rightarrow> True | Some u \<Rightarrow> \<not> pu_isActive u \<or> \<not> pu_isPlatformAdmin u) P_Support_Owner) (\<lambda>_.
         (case pd_tenants db tid of
            None \<Rightarrow> Inl P_Profile_Changed
          | Some row \<Rightarrow>
              and_then (throw_if (\<not> profile_claims p row) P_Profile_Changed) (\<lambda>_.
              (case tenant_fence_trigger row (claimed_row p clock row) of
                 Inl e \<Rightarrow> Inl (P_Fence e)
               | Inr advanced \<Rightarrow>
                   and_then (throw_if (entitlementProfileRevision advanced \<noteq> revision \<or>
                       executionRevision advanced \<noteq> executionRevision (pp_tenant p) + 1)
                     P_Execution_Changed) (\<lambda>_.
                   and_then (throw_if (pd_audit db (tid, rp_requestId r) \<noteq> None)
                     P_Audit_Unique_Violation) (\<lambda>_.
                   Inr (db\<lparr>pd_tenants := (pd_tenants db)(tid \<mapsto> advanced),
                           pd_rows := (pd_rows db)(tid := rows_of r revision),
                           pd_audit := (pd_audit db)((tid, rp_requestId r) \<mapsto> profile_audit_of p)\<rparr>,
                        result_from_profile (pp_after p)))))))))"

definition profile_replay ::
  "(string \<Rightarrow> jsdate) \<Rightarrow> profile_db \<Rightarrow> prepared_profile \<Rightarrow> profile_error + replace_result option" where
  "profile_replay legacy db p =
     find_profile_replay legacy db (tenant_id (pp_tenant p)) (rp_requestId (pp_request p)) (pp_digest p)"

definition commit_replace ::
  "(string \<Rightarrow> jsdate) \<Rightarrow> profile_db \<Rightarrow> int \<Rightarrow> prepared_profile \<Rightarrow> profile_db \<times> (profile_error + replace_result)" where
  "commit_replace legacy = audited_commit profile_transaction (profile_replay legacy)"

definition replace_profile ::
  "(string \<Rightarrow> jsdate) \<Rightarrow> (string \<Rightarrow> string) \<Rightarrow> profile_db \<Rightarrow> actor option \<Rightarrow> string \<Rightarrow> js_object \<Rightarrow> int \<Rightarrow>
   profile_db \<times> (profile_error + replace_result)" where
  "replace_profile legacy sha db act tid dto clock =
     (case begin_replace legacy sha db act tid dto of
        Inl e \<Rightarrow> (db, Inl e)
      | Inr (Inl res) \<Rightarrow> (db, Inr res)
      | Inr (Inr p) \<Rightarrow> commit_replace legacy db clock p)"

section \<open>A parsed request is well formed\<close>

interpretation module_order: js_total_comparator compare_modules
  by unfold_locales (auto simp: compare_modules_def sgn_if intro: module_index_inj)

lemma modules_incomplete_iff: "modules_incomplete ms \<longleftrightarrow> mset ms \<noteq> mset complete_module_profile"
proof -
  have "modules_incomplete ms \<longleftrightarrow> profile_incomplete (map sample_entitlement ms)"
    by (auto simp: modules_incomplete_def profile_incomplete_def Let_def sample_entitlement_def
        comp_def filter_empty_conv)
  also have "\<dots> \<longleftrightarrow> mset ms \<noteq> mset complete_module_profile"
    by (simp add: profile_incomplete_iff complete_spec_def sample_entitlement_def comp_def)
  finally show ?thesis .
qed

lemma sorted_complete_modules:
  assumes "mset ms = mset complete_module_profile"
  shows "js_sort compare_modules ms = complete_module_profile"
proof -
  have "js_sort compare_modules ms = js_sort compare_modules complete_module_profile"
    using assms by (rule module_order.sort_cong_mset)
  also have "\<dots> = complete_module_profile"
    by (rule module_order.sort_sorted) (simp add: complete_module_profile_def compare_modules_def)
  finally show ?thesis .
qed

fun optional_date_ok :: "jsdate option \<Rightarrow> bool" where
  "optional_date_ok None = True"
| "optional_date_ok (Some (At t)) = in_date_range t"
| "optional_date_ok (Some Invalid_Date) = False"

text \<open>The dates an implementation makes of other texts are dates, too: their time value is clipped.\<close>

definition legacy_clipped :: "(string \<Rightarrow> jsdate) \<Rightarrow> bool" where
  "legacy_clipped legacy \<longleftrightarrow> (\<forall>s t. legacy s = At t \<longrightarrow> in_date_range t)"

definition module_wf :: "parsed_module \<Rightarrow> bool" where
  "module_wf m \<longleftrightarrow>
     (pm_write m \<longrightarrow> pm_read m) \<and> \<not> pm_outbound m \<and> \<not> window_inverted (pm_from m) (pm_until m) \<and>
     optional_date_ok (pm_from m) \<and> optional_date_ok (pm_until m)"

definition replacement_wf :: "parsed_replacement \<Rightarrow> bool" where
  "replacement_wf r \<longleftrightarrow>
     0 \<le> rp_expectedRevision r \<and> is_safe_int (rp_expectedRevision r) \<and> rp_reason r \<noteq> [] \<and>
     map pm_module (rp_modules r) = complete_module_profile \<and> (\<forall>m\<in>set (rp_modules r). module_wf m) \<and>
     (rp_trialStartsAt r = None \<longleftrightarrow> rp_trialEndsAt r = None) \<and>
     \<not> window_inverted (rp_trialStartsAt r) (rp_trialEndsAt r) \<and>
     optional_date_ok (rp_trialStartsAt r) \<and> optional_date_ok (rp_trialEndsAt r)"

lemma optional_date_result:
  assumes "legacy_clipped legacy" and "optional_date legacy v field = Inr d"
  shows "optional_date_ok d"
proof (cases d)
  case None
  then show ?thesis by simp
next
  case (Some x)
  then obtain s where "js_parse_date legacy s = x" "valid_date x"
    using assms(2) by (auto simp: optional_date_def Let_def split: if_splits js_value.splits)
  then obtain t where "x = At t" "js_parse_date legacy s = At t" by (cases x) auto
  then have "in_date_range t"
    using assms(1) by (auto simp: js_parse_date_def legacy_clipped_def in_date_range_def
        split: option.splits if_splits)
  with \<open>x = At t\<close> Some show ?thesis by simp
qed

lemma parse_module_result:
  assumes "legacy_clipped legacy" and "parse_module legacy i v = Inr m" and "\<not> pm_outbound m"
  shows "module_wf m"
  using assms optional_date_result [OF assms(1)]
  by (auto simp: parse_module_def module_wf_def split: js_value.splits option.splits)

lemma parse_modules_result:
  assumes "legacy_clipped legacy" and "parse_modules legacy v = Inr ms"
  shows "map pm_module ms = complete_module_profile \<and> (\<forall>m\<in>set ms. module_wf m)"
proof -
  from assms(2) obtain vs ms0 where
    ms0: "map_results (parse_module legacy) 0 vs = Inr ms0"
    and complete: "\<not> modules_incomplete (map pm_module ms0)"
    and ms: "ms = js_sort (\<lambda>a b. compare_modules (pm_module a) (pm_module b)) ms0"
    and outbound: "\<forall>m\<in>set ms. \<not> pm_outbound m"
    by (auto simp: parse_modules_def Let_def split: js_value.splits)
  have "map pm_module ms = complete_module_profile"
    using complete sorted_complete_modules unfolding ms map_js_sort modules_incomplete_iff by simp
  moreover have "module_wf m" if "m \<in> set ms" for m
    using that outbound ms map_results_all [OF ms0, of m] parse_module_result [OF assms(1)] by auto
  ultimately show ?thesis by blast
qed

lemma js_safe_int_range: "js_safe_int v = Some n \<Longrightarrow> is_safe_int n"
  by (cases v) (auto simp: is_safe_int_def abs_le_iff split: if_splits)

lemma required_text_result: "required_text v field lo hi = Inr t \<Longrightarrow> 0 < lo \<Longrightarrow> t \<noteq> []"
  by (auto simp: required_text_def Let_def split: js_value.splits if_splits)

lemma parse_replacement_result:
  assumes "legacy_clipped legacy" and "parse_replacement legacy dto = Inr r"
  shows "replacement_wf r"
  using assms parse_modules_result [OF assms(1)] optional_date_result [OF assms(1)]
  by (auto simp: parse_replacement_def replacement_wf_def expected_revision_def
      dest: js_safe_int_range required_text_result split: option.splits if_splits)

section \<open>The stored profile can be read back\<close>

fun stamp_ok :: "string option \<Rightarrow> bool" where
  "stamp_ok None = True"
| "stamp_ok (Some s) = (\<exists>t. s = to_iso t \<and> in_date_range t)"

definition profile_wf :: "serialized_profile \<Rightarrow> bool" where
  "profile_wf p \<longleftrightarrow>
     1 \<le> sp_profileRevision p \<and> is_safe_int (sp_profileRevision p) \<and>
     0 \<le> sp_executionRevision p \<and> is_safe_int (sp_executionRevision p) \<and>
     stamp_ok (sp_trialStartsAt p) \<and> stamp_ok (sp_trialEndsAt p) \<and>
     mset (map sm_module (sp_modules p)) = mset complete_module_profile \<and>
     (\<forall>m\<in>set (sp_modules p). sm_profileRevision m = sp_profileRevision p \<and> sm_reason m \<noteq> [] \<and>
        stamp_ok (sm_from m) \<and> stamp_ok (sm_until m))"

lemma stamp_iso: "optional_date_ok d \<Longrightarrow> stamp_ok (map_option iso_of d)"
  by (cases d rule: optional_date_ok.cases) auto

lemma nullable_timestamp_stamp [simp]: "stamp_ok s \<Longrightarrow> nullable_timestamp legacy (js_text s) = Some s"
  by (cases s) auto

lemma nullable_string_text [simp]: "nullable_string (js_text s) = Some s"
  by (cases s) auto

lemma js_safe_int_num [simp]: "is_safe_int n \<Longrightarrow> js_safe_int (JNum (of_int n)) = Some n"
  by (simp add: is_safe_int_def abs_le_iff)

lemma deserialize_json_module:
  assumes "stamp_ok (sm_from m)" "stamp_ok (sm_until m)" "is_safe_int (sm_profileRevision m)" "sm_reason m \<noteq> []"
  shows "deserialize_module legacy (json_of_module m) = Inr m"
  using assms
  by (simp add: deserialize_module_def read_module_def json_of_module_def del: js_safe_int.simps parse_enum.simps js_safe_int_of_int)

lemma deserialize_json_profile:
  assumes "profile_wf p"
  shows "deserialize_profile legacy (json_of_profile p) = Inr p"
proof -
  have ms: "map_results (\<lambda>_. deserialize_module legacy) 0 (map json_of_module (sp_modules p)) = Inr (sp_modules p)"
    using assms by (intro map_results_map) (auto simp: profile_wf_def deserialize_json_module)
  have "\<not> modules_incomplete (map sm_module (sp_modules p))"
    using assms by (simp add: modules_incomplete_iff profile_wf_def)
  then have "length (sp_modules p) = length complete_module_profile"
    "length (js_uniq (map sm_module (sp_modules p))) = length (sp_modules p)"
    "\<forall>m\<in>set complete_module_profile. m \<in> set (js_uniq (map sm_module (sp_modules p)))"
    by (auto simp: modules_incomplete_def filter_empty_conv simp del: set_js_uniq)
  then show ?thesis
    using assms ms
    by (simp add: deserialize_profile_def json_of_profile_def read_profile_def profile_wf_def
        del: js_safe_int.simps set_js_uniq parse_enum.simps js_safe_int_of_int)
qed

section \<open>The transaction\<close>

lemma profile_transaction_success:
  assumes "profile_transaction db clock p = Inr (db', res)"
  shows "\<exists>row. pd_tenants db (tenant_id (pp_tenant p)) = Some row \<and> profile_claims p row \<and>
    pd_audit db (tenant_id (pp_tenant p), rp_requestId (pp_request p)) = None \<and>
    res = result_from_profile (pp_after p) \<and>
    pd_tenants db' = (pd_tenants db)(tenant_id (pp_tenant p) \<mapsto>
      (claimed_row p clock row)\<lparr>executionRevision := executionRevision row + 1\<rparr>) \<and>
    pd_rows db' = (pd_rows db)(tenant_id (pp_tenant p) :=
      rows_of (pp_request p) (rp_expectedRevision (pp_request p) + 1)) \<and>
    pd_audit db' = (pd_audit db)((tenant_id (pp_tenant p), rp_requestId (pp_request p)) \<mapsto> profile_audit_of p)"
proof -
  from assms obtain row advanced where
    row: "pd_tenants db (tenant_id (pp_tenant p)) = Some row" "profile_claims p row"
    and trg: "tenant_fence_trigger row (claimed_row p clock row) = Inr advanced"
    and adv: "executionRevision advanced = executionRevision (pp_tenant p) + 1"
    and free: "pd_audit db (tenant_id (pp_tenant p), rp_requestId (pp_request p)) = None"
    and res: "res = result_from_profile (pp_after p)"
    and db': "db' = db\<lparr>pd_tenants := (pd_tenants db)(tenant_id (pp_tenant p) \<mapsto> advanced),
      pd_rows := (pd_rows db)(tenant_id (pp_tenant p) :=
        rows_of (pp_request p) (rp_expectedRevision (pp_request p) + 1)),
      pd_audit := (pd_audit db)((tenant_id (pp_tenant p), rp_requestId (pp_request p)) \<mapsto> profile_audit_of p)\<rparr>"
    unfolding profile_transaction_def Let_def
    by (auto split: option.splits sum.splits)
  have "executionRevision (claimed_row p clock row) = executionRevision row"
    by (simp add: claimed_row_def Let_def)
  moreover have "executionRevision row = executionRevision (pp_tenant p)"
    using row(2) by (simp add: profile_claims_def)
  ultimately have "advanced = (claimed_row p clock row)\<lparr>executionRevision := executionRevision row + 1\<rparr>"
    using trg adv by (auto simp: tenant_fence_trigger_def split: if_splits)
  then show ?thesis
    using row free res db' by auto
qed

definition profile_ready :: "prepared_profile \<Rightarrow> bool" where
  "profile_ready p \<longleftrightarrow> profile_wf (pp_after p)"

interpretation profile: audited_command profile_transaction "profile_replay legacy" profile_ready for legacy
proof
  fix p db db' env r
  assume "profile_ready p" and "profile_transaction db env p = Inr (db', r)"
  with profile_transaction_success [OF this(2)] show "profile_replay legacy db' p = Inr (Some r)"
    by (auto simp: profile_replay_def find_profile_replay_def profile_audit_of_def profile_ready_def
        deserialize_json_profile)
next
  fix p db db' env r
  assume "profile_transaction db env p = Inr (db', r)"
  from profile_transaction_success [OF this] show "profile_replay legacy db p = Inr None"
    by (auto simp: profile_replay_def find_profile_replay_def)
qed

lemma commit_replace_changed:
  "commit_replace legacy db clock p = (db', out) \<Longrightarrow> db' \<noteq> db \<Longrightarrow>
    \<exists>r. out = Inr r \<and> profile_transaction db clock p = Inr (db', r)"
  unfolding commit_replace_def by (rule profile.commit_changed)

section \<open>What the first phase prepares\<close>

lemma begin_replace_prepared:
  assumes "begin_replace legacy sha db act tid dto = Inr (Inr p)"
  shows "pd_tenants db tid = Some (pp_tenant p) \<and>
    parse_replacement legacy dto = Inr (pp_request p) \<and>
    pp_digest p = request_digest sha (tenant_id (pp_tenant p)) (pp_request p) \<and>
    profile_replay legacy db p = Inr None \<and>
    rp_customerStage (pp_request p) = customerStage (pp_tenant p) \<and>
    rp_onboardingStatus (pp_request p) = onboardingStatus (pp_tenant p) \<and>
    entitlementProfileRevision (pp_tenant p) = rp_expectedRevision (pp_request p) \<and>
    is_safe_int (rp_expectedRevision (pp_request p) + 1) \<and>
    is_safe_int (executionRevision (pp_tenant p)) \<and> 0 \<le> executionRevision (pp_tenant p) \<and>
    executionRevision (pp_tenant p) < 2147483647 \<and>
    pp_after p = serialize_profile (after_tenant (pp_tenant p) (pp_request p))
      (rp_expectedRevision (pp_request p) + 1)
      (rows_of (pp_request p) (rp_expectedRevision (pp_request p) + 1))"
  using assms unfolding begin_replace_def Let_def profile_replay_def
  by (auto split: option.splits)

lemma sorted_rows:
  assumes "map pm_module (rp_modules r) = complete_module_profile"
  shows "map ent_module (rows_of r n) = complete_module_profile"
  using assms by (simp add: rows_of_def comp_def)

lemma begin_replace_ready:
  assumes "legacy_clipped legacy" and "begin_replace legacy sha db act tid dto = Inr (Inr p)"
  shows "profile_ready p"
proof -
  let ?r = "pp_request p" and ?n = "rp_expectedRevision (pp_request p) + 1"
  note b = begin_replace_prepared [OF assms(2)]
  have wf: "replacement_wf ?r"
    using b parse_replacement_result [OF assms(1)] by blast
  have "mset (map ent_module (rows_of ?r ?n)) = mset complete_module_profile"
    using sorted_rows wf by (simp add: replacement_wf_def del: mset_map)
  then have "mset (map sm_module (sp_modules (pp_after p))) = mset complete_module_profile"
    using b by (simp add: serialize_profile_def serialize_module_def comp_def)
  moreover have "sm_profileRevision m = ?n \<and> sm_reason m \<noteq> [] \<and> stamp_ok (sm_from m) \<and> stamp_ok (sm_until m)"
    if "m \<in> set (sp_modules (pp_after p))" for m
    using that b wf
    by (auto simp: serialize_profile_def serialize_module_def rows_of_def replacement_wf_def module_wf_def
        intro!: stamp_iso)
  moreover have "is_safe_int (executionRevision (pp_tenant p) + 1)"
    using b by (simp add: is_safe_int_def)
  ultimately show ?thesis
    using b wf unfolding profile_ready_def profile_wf_def
    by (auto simp: serialize_profile_def after_tenant_def replacement_wf_def intro!: stamp_iso)
qed

text \<open>The subject the policy sees of the tables.\<close>

definition subject_of :: "profile_db \<Rightarrow> string \<Rightarrow> subject option" where
  "subject_of db tid =
     map_option (\<lambda>t. tenant.extend t (subject.fields (Some (map entitlement.truncate (pd_rows db tid)))))
       (pd_tenants db tid)"

lemma subject_of_simps:
  assumes "subject_of db tid = Some s"
  shows "\<exists>t. pd_tenants db tid = Some t \<and> tenant.truncate s = t \<and>
    entitlement_rows s = map entitlement.truncate (pd_rows db tid)"
  using assms
  by (auto simp: subject_of_def tenant.defs subject.defs entitlement_rows_def)

section \<open>Properties\<close>

definition sample_live :: tenant where
  "sample_live = sample_row\<lparr>customerStage := LIVE, trialStartsAt := None, trialEndsAt := None\<rparr>"

definition sample_profile_db :: profile_db where
  "sample_profile_db =
     \<lparr>pd_tenants = Map.empty(''t1'' \<mapsto> sample_live), pd_rows = (\<lambda>_. []),
      pd_users = Map.empty(''u1'' \<mapsto> \<lparr>pu_isActive = True, pu_isPlatformAdmin = True\<rparr>),
      pd_audit = Map.empty\<rparr>"

definition sample_module_json :: "tenant_module \<Rightarrow> js_value" where
  "sample_module_json m = JObj
     [(''module'', JStr (mod_name m)), (''readEnabled'', JBool True), (''writeEnabled'', JBool (m = STAFF)),
      (''outboundEnabled'', JBool False)]"

definition sample_profile_dto :: js_object where
  "sample_profile_dto =
     [(''expectedProfileRevision'', JNum 1), (''reason'', JStr ''initial profile''),
      (''requestId'', JStr ''request-1''), (''customerStage'', JStr ''LIVE''),
      (''onboardingStatus'', JStr ''READY''), (''cohortKey'', JStr ''c01''),
      (''supportOwnerUserId'', JStr ''u1''), (''confirmation'', JStr ''club''),
      (''modules'', JArr (map sample_module_json
         [STAFF, GAMIFICATION, INTEGRATIONS, ASSORTMENT, COMMUNICATIONS, USERS_ROLES]))]"

definition sample_parsed_module :: "tenant_module \<Rightarrow> parsed_module" where
  "sample_parsed_module m =
     \<lparr>pm_module = m, pm_read = True, pm_write = (m = STAFF), pm_outbound = False,
      pm_from = None, pm_until = None\<rparr>"

definition sample_replacement :: parsed_replacement where
  "sample_replacement =
     \<lparr>rp_expectedRevision = 1, rp_reason = ''initial profile'', rp_requestId = ''request-1'',
      rp_supportTicket = None, rp_customerStage = LIVE, rp_onboardingStatus = READY,
      rp_cohortKey = ''c01'', rp_supportOwner = ''u1'', rp_trialStartsAt = None, rp_trialEndsAt = None,
      rp_modules = map sample_parsed_module complete_module_profile\<rparr>"

lemma sample_parse_replacement:
  "parse_replacement (\<lambda>_. Invalid_Date) sample_profile_dto = Inr sample_replacement"
  by code_simp

lemma sample_clipped: "legacy_clipped (\<lambda>_. Invalid_Date)"
  by (simp add: legacy_clipped_def)

lemma sample_live_simps [simp]:
  "tenant_id sample_live = ''t1''" "tenant_slug sample_live = ''club''" "executionRevision sample_live = 4"
  "customerStage sample_live = LIVE" "onboardingStatus sample_live = READY" "status sample_live = LC_ACTIVE"
  "entitlementProfileRevision sample_live = 1" "updatedAt sample_live = 50"
  by (simp_all add: sample_live_def) (simp_all add: sample_row_def sample_subject_def tenant.truncate_def)

lemma sample_begin_replace:
  "\<exists>p. begin_replace (\<lambda>_. Invalid_Date) (\<lambda>_. ''h'') sample_profile_db (Some sample_admin) ''t1'' sample_profile_dto
      = Inr (Inr p) \<and> pp_tenant p = sample_live \<and> pp_request p = sample_replacement"
proof -
  have conf: "\<not> bad_confirmation (js_prop sample_profile_dto ''confirmation'') ''club''"
    by code_simp
  show ?thesis
    using sample_parse_replacement conf
    by (simp add: begin_replace_def sample_admin_def sample_profile_db_def Let_def throw_if_simps
        find_profile_replay_def request_digest_def assert_trial_window_def is_safe_int_def
        sample_replacement_def)
qed

lemma sample_profile_commit:
  "\<exists>p db' res. begin_replace (\<lambda>_. Invalid_Date) (\<lambda>_. ''h'') sample_profile_db (Some sample_admin) ''t1'' sample_profile_dto
      = Inr (Inr p) \<and> pp_tenant p = sample_live \<and> pp_request p = sample_replacement \<and>
    commit_replace (\<lambda>_. Invalid_Date) sample_profile_db 60 p = (db', Inr res) \<and> db' \<noteq> sample_profile_db"
proof -
  obtain p where p: "begin_replace (\<lambda>_. Invalid_Date) (\<lambda>_. ''h'') sample_profile_db (Some sample_admin) ''t1'' sample_profile_dto
      = Inr (Inr p)" "pp_tenant p = sample_live" "pp_request p = sample_replacement"
    using sample_begin_replace by blast
  have "\<exists>db' res. profile_transaction sample_profile_db 60 p = Inr (db', res)"
    using p(2,3)
    by (simp add: profile_transaction_def Let_def sample_profile_db_def sample_replacement_def
        profile_claims_def claimed_row_def tenant_fence_trigger_def execution_columns_differ_def)
  then obtain db' res where tr: "profile_transaction sample_profile_db 60 p = Inr (db', res)" by blast
  then have "commit_replace (\<lambda>_. Invalid_Date) sample_profile_db 60 p = (db', Inr res)"
    by (simp add: commit_replace_def audited_commit_def)
  moreover have "db' \<noteq> sample_profile_db"
    using profile.transact_changes [OF begin_replace_ready [OF sample_clipped p(1)] tr] .
  ultimately show ?thesis using p by blast
qed

text \<open>
  A parsed profile is complete and consistent. A request that passes the parser names every
  module exactly once, in the order of the complete profile, enables writing only together with
  reading, enables no outbound action, and has ordered validity and trial windows.
\<close>

theorem profile_request_well_formed:
  assumes "legacy_clipped legacy" and "parse_replacement legacy dto = Inr r"
  shows "map pm_module (rp_modules r) = complete_module_profile \<and>
    (\<forall>m\<in>set (rp_modules r). (pm_write m \<longrightarrow> pm_read m) \<and> \<not> pm_outbound m \<and>
       \<not> window_inverted (pm_from m) (pm_until m)) \<and>
    (rp_trialStartsAt r = None \<longleftrightarrow> rp_trialEndsAt r = None) \<and>
    \<not> window_inverted (rp_trialStartsAt r) (rp_trialEndsAt r)"
  using parse_replacement_result [OF assms] by (auto simp: replacement_wf_def module_wf_def)

theorem profile_request_well_formed_witness:
  "map pm_module (rp_modules sample_replacement) = complete_module_profile"
  using profile_request_well_formed [OF sample_clipped sample_parse_replacement] by blast

text \<open>
  C9: The stored profile reads back. The JSON document written to the audit event of a replacement is
  always accepted by the reader used for replays, and gives the same profile.
\<close>

theorem profile_record_roundtrip:
  assumes "legacy_clipped legacy" and "begin_replace legacy sha db act tid dto = Inr (Inr p)"
  shows "deserialize_profile legacy (json_of_profile (pp_after p)) = Inr (pp_after p)"
  using begin_replace_ready [OF assms] by (simp add: profile_ready_def deserialize_json_profile)

theorem profile_record_roundtrip_witness:
  "\<exists>p. begin_replace (\<lambda>_. Invalid_Date) (\<lambda>_. ''h'') sample_profile_db (Some sample_admin) ''t1'' sample_profile_dto
      = Inr (Inr p) \<and> deserialize_profile (\<lambda>_. Invalid_Date) (json_of_profile (pp_after p)) = Inr (pp_after p)"
  using sample_begin_replace profile_record_roundtrip [OF sample_clipped] by blast

text \<open>
  The answer is the new state. When the transaction of a replacement changes the database, the
  answer equals the profile one would serialise from the tables afterwards, revisions included.
\<close>

theorem profile_answer_is_state:
  assumes "begin_replace legacy sha db act tid dto = Inr (Inr p)"
    and "commit_replace legacy db2 clock p = (db3, Inr res)" and "db3 \<noteq> db2"
  shows "\<exists>t. pd_tenants db3 (tenant_id (pp_tenant p)) = Some t \<and>
    res = result_from_profile (serialize_profile t (entitlementProfileRevision t)
      (pd_rows db3 (tenant_id (pp_tenant p))))"
proof -
  from commit_replace_changed [OF assms(2,3)]
  have "profile_transaction db2 clock p = Inr (db3, res)" by auto
  from profile_transaction_success [OF this] begin_replace_prepared [OF assms(1)]
  show ?thesis
    by (auto simp: result_from_profile_def serialize_profile_def after_tenant_def claimed_row_def
        Let_def profile_claims_def)
qed

theorem profile_answer_is_state_witness:
  "\<exists>(db3 :: profile_db) t res. pd_tenants db3 ''t1'' = Some t \<and>
    res = result_from_profile (serialize_profile t (entitlementProfileRevision t) (pd_rows db3 ''t1''))"
proof -
  obtain p db' res where p: "begin_replace (\<lambda>_. Invalid_Date) (\<lambda>_. ''h'') sample_profile_db (Some sample_admin)
      ''t1'' sample_profile_dto = Inr (Inr p)" "pp_tenant p = sample_live"
    and c: "commit_replace (\<lambda>_. Invalid_Date) sample_profile_db 60 p = (db', Inr res)" "db' \<noteq> sample_profile_db"
    using sample_profile_commit by blast
  from profile_answer_is_state [OF p(1) c] p(2) show ?thesis by auto
qed

text \<open>
  C6: Replays of a replacement are idempotent. A replacement that was answered can be sent again at
  any later time; the database does not change again and the answer is the same.
\<close>

theorem profile_replay_idempotent:
  assumes "replace_profile legacy sha db act tid dto clock = (db', Inr res)"
    and "legacy_clipped legacy" and "\<And>t. pd_tenants db tid = Some t \<Longrightarrow> tenant_id t = tid"
  shows "replace_profile legacy sha db' act tid dto clock' = (db', Inr res)"
proof (cases "begin_replace legacy sha db act tid dto")
  case (Inl e)
  then show ?thesis using assms(1) by (simp add: replace_profile_def)
next
  case (Inr out)
  show ?thesis
  proof (cases out)
    case (Inl r0)
    then show ?thesis using assms(1) Inr by (auto simp: replace_profile_def)
  next
    case prep: (Inr p)
    note b = begin_replace_prepared [OF Inr [unfolded prep]]
    have tid: "tenant_id (pp_tenant p) = tid" using b assms(3) by blast
    have "commit_replace legacy db clock p = (db', Inr res)"
      using assms(1) Inr prep by (simp add: replace_profile_def)
    then have "profile_transaction db clock p = Inr (db', res)"
      and again: "profile_replay legacy db' p = Inr (Some res)"
      using b profile.commit_fresh profile.commit_result_recorded
        begin_replace_ready [OF assms(2) Inr [unfolded prep]]
      unfolding commit_replace_def by blast+
    from profile_transaction_success [OF this(1)] b tid obtain t'
      where "pd_tenants db' tid = Some t'" "tenant_id t' = tid" "tenant_slug t' = tenant_slug (pp_tenant p)"
      by (auto simp: claimed_row_def Let_def)
    then have "begin_replace legacy sha db' act tid dto = Inr (Inl res)"
      using Inr prep b tid again unfolding begin_replace_def Let_def profile_replay_def
      by (auto split: option.splits)
    then show ?thesis by (simp add: replace_profile_def)
  qed
qed

theorem profile_replay_idempotent_witness:
  "\<exists>db' res. db' \<noteq> sample_profile_db \<and>
    replace_profile (\<lambda>_. Invalid_Date) (\<lambda>_. ''h'') db' (Some sample_admin) ''t1'' sample_profile_dto 90
      = (db', Inr res)"
proof -
  obtain p db' res where p: "begin_replace (\<lambda>_. Invalid_Date) (\<lambda>_. ''h'') sample_profile_db (Some sample_admin)
      ''t1'' sample_profile_dto = Inr (Inr p)"
    and c: "commit_replace (\<lambda>_. Invalid_Date) sample_profile_db 60 p = (db', Inr res)" "db' \<noteq> sample_profile_db"
    using sample_profile_commit by blast
  then have "replace_profile (\<lambda>_. Invalid_Date) (\<lambda>_. ''h'') sample_profile_db (Some sample_admin) ''t1''
      sample_profile_dto 60 = (db', Inr res)"
    by (simp add: replace_profile_def)
  from profile_replay_idempotent [OF this sample_clipped, of 90] c(2) show ?thesis
    by (auto simp: sample_profile_db_def)
qed

text \<open>
  No lost profile. Once a replacement has changed the profile of a tenant, every other one that
  expects the same profile revision leaves the database alone.
\<close>

theorem profile_no_lost_update:
  assumes "commit_replace legacy db clock p = (db', out)" and "db' \<noteq> db"
    and "tenant_id (pp_tenant q) = tenant_id (pp_tenant p)"
    and "rp_expectedRevision (pp_request q) = rp_expectedRevision (pp_request p)"
  shows "fst (commit_replace legacy db' clock' q) = db'"
proof (rule ccontr)
  assume "fst (commit_replace legacy db' clock' q) \<noteq> db'"
  then obtain db3 out3 where "commit_replace legacy db' clock' q = (db3, out3)" "db3 \<noteq> db'"
    by (cases "commit_replace legacy db' clock' q") auto
  from commit_replace_changed [OF this] obtain r3
    where "profile_transaction db' clock' q = Inr (db3, r3)" by blast
  from profile_transaction_success [OF this] obtain row'
    where "pd_tenants db' (tenant_id (pp_tenant p)) = Some row'"
      and "entitlementProfileRevision row' = rp_expectedRevision (pp_request p)"
    using assms(3,4) by (auto simp: profile_claims_def)
  moreover from commit_replace_changed [OF assms(1,2)] obtain r
    where "profile_transaction db clock p = Inr (db', r)" by blast
  ultimately show False
    using profile_transaction_success [of db clock p db' r] by (auto simp: claimed_row_def Let_def)
qed

theorem profile_no_lost_update_witness:
  "\<exists>db' p. db' \<noteq> sample_profile_db \<and> fst (commit_replace (\<lambda>_. Invalid_Date) db' 70 p) = db'"
proof -
  obtain p db' res where
    c: "commit_replace (\<lambda>_. Invalid_Date) sample_profile_db 60 p = (db', Inr res)" "db' \<noteq> sample_profile_db"
    using sample_profile_commit by blast
  from profile_no_lost_update [OF c, of p 70] c(2) show ?thesis by auto
qed

text \<open>
  C3: A replacement grants what it says. After a committed replacement the policy lets the tenant
  read or write a module at an instant exactly when the session is admitted then, the request enabled
  that for the module, and the instant lies in the requested validity window; nothing outbound is
  admitted.
\<close>

theorem profile_grants_exactly:
  assumes "legacy_clipped legacy" and "begin_replace legacy sha db act tid dto = Inr (Inr p)"
    and "commit_replace legacy db2 clock p = (db3, out)" and "db3 \<noteq> db2"
    and "subject_of db3 (tenant_id (pp_tenant p)) = Some s"
  shows "allowed (evaluate_module s m a (At t)) \<longleftrightarrow>
    allowed (evaluate_session s (At t)) \<and> a \<noteq> OUTBOUND \<and>
    (\<exists>pm\<in>set (rp_modules (pp_request p)). pm_module pm = m \<and> grant_window (pm_from pm) (pm_until pm) t \<and>
       (if a = READ then pm_read pm else pm_write pm))"
proof -
  let ?r = "pp_request p" and ?n = "rp_expectedRevision (pp_request p) + 1"
  note b = begin_replace_prepared [OF assms(2)]
  have wf: "replacement_wf ?r" using b parse_replacement_result [OF assms(1)] by blast
  from commit_replace_changed [OF assms(3,4)] obtain res
    where "profile_transaction db2 clock p = Inr (db3, res)" by blast
  from profile_transaction_success [OF this] obtain row where
    row: "pd_tenants db3 (tenant_id (pp_tenant p)) = Some row" "entitlementProfileRevision row = ?n"
    and rows: "pd_rows db3 (tenant_id (pp_tenant p)) = rows_of ?r ?n"
    by (auto simp: claimed_row_def Let_def)
  from subject_of_simps [OF assms(5)] row rows
  have s: "entitlementProfileRevision s = ?n" and es: "entitlement_rows s = map entitlement.truncate (rows_of ?r ?n)"
    using truncate_simps(2) [of s] by auto
  have rev: "revision_spec ?n" using b wf by (simp add: revision_spec_def is_safe_int_def replacement_wf_def)
  have "map ent_module (entitlement_rows s) = complete_module_profile"
    using sorted_rows wf unfolding es by (simp add: replacement_wf_def comp_def entitlement.defs)
  then have "complete_spec (entitlement_rows s)" by (simp add: complete_spec_def del: mset_map)
  then obtain e where e: "filter (\<lambda>e. ent_module e = m) (entitlement_rows s) = [e]"
    using complete_spec_single by blast
  then obtain pm where pm: "pm \<in> set (rp_modules ?r)" "pm_module pm = m"
    and fields: "readEnabled e = pm_read pm" "writeEnabled e = pm_write pm" "outboundEnabled e = pm_outbound pm"
      "validFrom e = pm_from pm" "validUntil e = pm_until pm" "profileRevision e = ?n"
    using filter_single_mem [OF e] unfolding es by (auto simp: rows_of_def entitlement.defs)
  have "distinct (map pm_module (rp_modules ?r))"
    using wf distinct_complete_profile by (simp add: replacement_wf_def)
  then have unique: "pm' = pm" if "pm' \<in> set (rp_modules ?r)" "pm_module pm' = m" for pm'
    using that pm by (metis distinct_map inj_on_def)
  have wfm: "module_wf pm" using wf pm by (simp add: replacement_wf_def)
  have "entitlement_spec s e a t \<longleftrightarrow> a \<noteq> OUTBOUND \<and> grant_window (pm_from pm) (pm_until pm) t \<and>
      (if a = READ then pm_read pm else pm_write pm)"
    using wfm rev s fields by (cases a) (auto simp: entitlement_spec_def module_wf_def)
  then have "allowed (evaluate_module s m a (At t)) \<longleftrightarrow> session_spec s t \<and> a \<noteq> OUTBOUND \<and>
      grant_window (pm_from pm) (pm_until pm) t \<and> (if a = READ then pm_read pm else pm_write pm)"
    using e rev s by (auto simp: module_allowed_iff module_spec_def)
  moreover have "(\<exists>pm'\<in>set (rp_modules ?r). pm_module pm' = m \<and> Q pm') \<longleftrightarrow> Q pm" for Q
    using pm unique by metis
  ultimately show ?thesis
    by (simp only: session_allowed_iff)
qed

theorem profile_grants_exactly_witness:
  "\<exists>db3 s. subject_of db3 ''t1'' = Some s \<and> \<not> allowed (evaluate_module s USERS_ROLES WRITE (At 500)) \<and>
    (allowed (evaluate_module s STAFF WRITE (At 500)) \<longleftrightarrow> allowed (evaluate_session s (At 500)))"
proof -
  obtain p db' res where p: "begin_replace (\<lambda>_. Invalid_Date) (\<lambda>_. ''h'') sample_profile_db (Some sample_admin)
      ''t1'' sample_profile_dto = Inr (Inr p)" "pp_tenant p = sample_live" "pp_request p = sample_replacement"
    and c: "commit_replace (\<lambda>_. Invalid_Date) sample_profile_db 60 p = (db', Inr res)" "db' \<noteq> sample_profile_db"
    using sample_profile_commit by blast
  from commit_replace_changed [OF c] profile_transaction_success [of sample_profile_db 60 p db' res] p(2)
  obtain t where "pd_tenants db' ''t1'' = Some t" by auto
  then obtain s where s: "subject_of db' ''t1'' = Some s" by (auto simp: subject_of_def)
  note grants = profile_grants_exactly [OF sample_clipped p(1) c, unfolded p(2,3) sample_live_simps, OF s]
  have mods: "(\<exists>pm\<in>set (rp_modules sample_replacement). pm_module pm = m \<and> Q pm) \<longleftrightarrow> Q (sample_parsed_module m)" for m Q
    by (auto simp: sample_replacement_def sample_parsed_module_def complete_profile_all)
  have "\<not> allowed (evaluate_module s USERS_ROLES WRITE (At 500))"
    and "allowed (evaluate_module s STAFF WRITE (At 500)) \<longleftrightarrow> allowed (evaluate_session s (At 500))"
    unfolding grants mods by (simp_all add: sample_parsed_module_def)
  with s show ?thesis by blast
qed

end
