(* ===== verification/Capabilities.thy ===== *)
theory Capabilities
  imports Tenant_Model
begin

text \<open>
  \<open>auth/capabilities.ts\<close>: the capabilities a user of a tenant may hold, what each role grants, and
  how a custom role or a role override of the tenant replaces the role's set.

  The type \<open>AccessCapability\<close> is the union of the catalogue's keys, here one constructor per key with
  \<open>capability_key\<close> for its text (the Russian labels and descriptions of the catalogue are texts of the
  administration screens). Stored permissions are arbitrary strings, of which
  \<open>normalizeCapabilities\<close> keeps those that are keys. \<open>null\<close> and \<open>undefined\<close> lists of permissions are
  \<open>None\<close>. The tables are evaluated once, in \<open>role_tables\<close> and \<open>implied_tables\<close>; every later fact
  about a role rests on these.
\<close>

section \<open>The catalogue and the tables\<close>

datatype user_role =
  OWNER | MANAGER | BUYER | ADMIN | MARKETER | CLUB_MANAGER | STANDARDS_MANAGER
| SENIOR_ADMINISTRATOR | CLUB_ADMINISTRATOR | TRAINEE

datatype (plugins only: code) access_capability =
  view_dashboard | view_reports | view_assortment_reports | export_reports
 | manage_assortment_reports | view_assortment_products | view_assortment_catalog
 | view_assortment_stores | view_guests | export_guests | manage_guest_crm
 | view_guest_gamification | manage_guest_game_rules | approve_guest_game_rewards
 | operate_guest_game_ledger | view_guest_game_pii | view_marketing | manage_marketing
 | view_communications | manage_communications | view_support_tickets | manage_support_tickets
 | view_staff | view_staff_shift_workspace | view_staff_tasks | manage_staff_tasks
 | view_staff_standards | manage_staff_standards | view_staff_training | manage_staff_training
 | view_staff_knowledge | view_staff_control | manage_staff_control | view_staff_directory
 | manage_staff_directory | view_staff_salary | manage_staff_salary | edit_staff_knowledge
 | review_staff_knowledge | publish_staff_knowledge | manage_users | manage_integrations
 | run_sync | import_guest_foundation | import_data | use_utilities | edit_products
 | edit_catalog | edit_stores

primrec capability_key :: "access_capability \<Rightarrow> string" where
  "capability_key view_dashboard = ''view_dashboard''"
| "capability_key view_reports = ''view_reports''"
| "capability_key view_assortment_reports = ''view_assortment_reports''"
| "capability_key export_reports = ''export_reports''"
| "capability_key manage_assortment_reports = ''manage_assortment_reports''"
| "capability_key view_assortment_products = ''view_assortment_products''"
| "capability_key view_assortment_catalog = ''view_assortment_catalog''"
| "capability_key view_assortment_stores = ''view_assortment_stores''"
| "capability_key view_guests = ''view_guests''"
| "capability_key export_guests = ''export_guests''"
| "capability_key manage_guest_crm = ''manage_guest_crm''"
| "capability_key view_guest_gamification = ''view_guest_gamification''"
| "capability_key manage_guest_game_rules = ''manage_guest_game_rules''"
| "capability_key approve_guest_game_rewards = ''approve_guest_game_rewards''"
| "capability_key operate_guest_game_ledger = ''operate_guest_game_ledger''"
| "capability_key view_guest_game_pii = ''view_guest_game_pii''"
| "capability_key view_marketing = ''view_marketing''"
| "capability_key manage_marketing = ''manage_marketing''"
| "capability_key view_communications = ''view_communications''"
| "capability_key manage_communications = ''manage_communications''"
| "capability_key view_support_tickets = ''view_support_tickets''"
| "capability_key manage_support_tickets = ''manage_support_tickets''"
| "capability_key view_staff = ''view_staff''"
| "capability_key view_staff_shift_workspace = ''view_staff_shift_workspace''"
| "capability_key view_staff_tasks = ''view_staff_tasks''"
| "capability_key manage_staff_tasks = ''manage_staff_tasks''"
| "capability_key view_staff_standards = ''view_staff_standards''"
| "capability_key manage_staff_standards = ''manage_staff_standards''"
| "capability_key view_staff_training = ''view_staff_training''"
| "capability_key manage_staff_training = ''manage_staff_training''"
| "capability_key view_staff_knowledge = ''view_staff_knowledge''"
| "capability_key view_staff_control = ''view_staff_control''"
| "capability_key manage_staff_control = ''manage_staff_control''"
| "capability_key view_staff_directory = ''view_staff_directory''"
| "capability_key manage_staff_directory = ''manage_staff_directory''"
| "capability_key view_staff_salary = ''view_staff_salary''"
| "capability_key manage_staff_salary = ''manage_staff_salary''"
| "capability_key edit_staff_knowledge = ''edit_staff_knowledge''"
| "capability_key review_staff_knowledge = ''review_staff_knowledge''"
| "capability_key publish_staff_knowledge = ''publish_staff_knowledge''"
| "capability_key manage_users = ''manage_users''"
| "capability_key manage_integrations = ''manage_integrations''"
| "capability_key run_sync = ''run_sync''"
| "capability_key import_guest_foundation = ''import_guest_foundation''"
| "capability_key import_data = ''import_data''"
| "capability_key use_utilities = ''use_utilities''"
| "capability_key edit_products = ''edit_products''"
| "capability_key edit_catalog = ''edit_catalog''"
| "capability_key edit_stores = ''edit_stores''"

definition access_capability_catalog :: "access_capability list" where
  "access_capability_catalog =
     [view_dashboard, view_reports, view_assortment_reports, export_reports,
      manage_assortment_reports, view_assortment_products, view_assortment_catalog,
      view_assortment_stores, view_guests, export_guests, manage_guest_crm,
      view_guest_gamification, manage_guest_game_rules, approve_guest_game_rewards,
      operate_guest_game_ledger, view_guest_game_pii, view_marketing, manage_marketing,
      view_communications, manage_communications, view_support_tickets, manage_support_tickets,
      view_staff, view_staff_shift_workspace, view_staff_tasks, manage_staff_tasks,
      view_staff_standards, manage_staff_standards, view_staff_training, manage_staff_training,
      view_staff_knowledge, view_staff_control, manage_staff_control, view_staff_directory,
      manage_staff_directory, view_staff_salary, manage_staff_salary, edit_staff_knowledge,
      review_staff_knowledge, publish_staff_knowledge, manage_users, manage_integrations,
      run_sync, import_guest_foundation, import_data, use_utilities, edit_products, edit_catalog,
      edit_stores]"

definition SHARED_BETA_INITIAL_OWNER_CAPABILITIES :: "access_capability list" where
  "SHARED_BETA_INITIAL_OWNER_CAPABILITIES =
     [view_dashboard, view_reports, view_assortment_reports, export_reports,
      manage_assortment_reports, view_assortment_products, view_assortment_catalog,
      view_assortment_stores, view_guest_gamification, manage_guest_game_rules,
      approve_guest_game_rewards, operate_guest_game_ledger, view_communications,
      manage_communications, view_staff, view_staff_shift_workspace, view_staff_tasks,
      manage_staff_tasks, view_staff_standards, manage_staff_standards, view_staff_training,
      manage_staff_training, view_staff_knowledge, edit_staff_knowledge, review_staff_knowledge,
      publish_staff_knowledge, view_staff_control, manage_staff_control, view_staff_directory,
      manage_staff_directory, view_staff_salary, manage_staff_salary, manage_users,
      manage_integrations, run_sync, import_guest_foundation, import_data, use_utilities,
      edit_products, edit_catalog, edit_stores]"

definition staff_section_capabilities :: "access_capability list" where
  "staff_section_capabilities =
     [view_staff_shift_workspace, view_staff_tasks, view_staff_standards, view_staff_training,
      view_staff_knowledge, view_staff_control, view_staff_directory, view_staff_salary]"

definition assortment_section_capabilities :: "access_capability list" where
  "assortment_section_capabilities =
     [view_assortment_reports, view_assortment_products, view_assortment_catalog,
      view_assortment_stores]"

definition report_action_capabilities :: "access_capability list" where
  "report_action_capabilities =
     [export_reports, manage_assortment_reports]"

definition guest_action_capabilities :: "access_capability list" where
  "guest_action_capabilities =
     [export_guests, manage_guest_crm]"

definition staff_knowledge_write_capabilities :: "access_capability list" where
  "staff_knowledge_write_capabilities =
     [edit_staff_knowledge, review_staff_knowledge, publish_staff_knowledge]"

definition staff_action_capabilities :: "access_capability list" where
  "staff_action_capabilities =
     [manage_staff_tasks, manage_staff_standards, manage_staff_training, manage_staff_control,
      manage_staff_directory, manage_staff_salary]"

definition product_edit_capabilities :: "access_capability list" where
  "product_edit_capabilities =
     [edit_products, edit_catalog, edit_stores]"

definition owner_staff_capabilities :: "access_capability list" where
  "owner_staff_capabilities =
     [view_staff] @
     staff_section_capabilities @
     staff_action_capabilities @
     staff_knowledge_write_capabilities"

definition shift_staff_capabilities :: "access_capability list" where
  "shift_staff_capabilities =
     [view_staff, view_staff_shift_workspace, view_staff_tasks, view_staff_standards,
      view_staff_training, view_staff_knowledge, manage_staff_tasks, manage_staff_training]"

definition trainee_staff_capabilities :: "access_capability list" where
  "trainee_staff_capabilities =
     [view_staff_shift_workspace, view_staff_tasks, view_staff_standards, view_staff_training,
      view_staff_knowledge, manage_staff_training]"

definition standards_manager_staff_capabilities :: "access_capability list" where
  "standards_manager_staff_capabilities =
     [view_staff, view_staff_tasks, view_staff_standards, view_staff_training,
      view_staff_knowledge, view_staff_control, view_staff_directory, view_staff_salary,
      manage_staff_salary, manage_staff_tasks, manage_staff_standards, manage_staff_training,
      manage_staff_control, manage_staff_directory] @
     staff_knowledge_write_capabilities"

definition elevated_knowledge_capabilities :: "access_capability list" where
  "elevated_knowledge_capabilities =
     [view_staff_knowledge] @
     staff_knowledge_write_capabilities"

definition universal_communication_capabilities :: "access_capability list" where
  "universal_communication_capabilities =
     [view_communications]"

definition administrator_workspace_capabilities :: "access_capability list" where
  "administrator_workspace_capabilities =
     [view_staff, view_staff_tasks, view_staff_standards, view_staff_knowledge]"

definition support_administration_capabilities :: "access_capability list" where
  "support_administration_capabilities =
     [view_support_tickets, manage_support_tickets]"

fun role_capabilities :: "user_role \<Rightarrow> access_capability list" where
  "role_capabilities OWNER =
     [view_dashboard, view_reports] @
     assortment_section_capabilities @
     report_action_capabilities @
     [view_guests] @
     guest_action_capabilities @
     [view_guest_gamification, manage_guest_game_rules, approve_guest_game_rewards,
      operate_guest_game_ledger, view_guest_game_pii, view_marketing, manage_marketing,
      view_communications, manage_communications, view_support_tickets, manage_support_tickets] @
     owner_staff_capabilities @
     [manage_users, manage_integrations, run_sync, import_guest_foundation, import_data,
      use_utilities] @
     product_edit_capabilities"
| "role_capabilities ADMIN =
     [view_dashboard, view_reports] @
     assortment_section_capabilities @
     report_action_capabilities @
     [view_guests] @
     guest_action_capabilities @
     [view_guest_gamification, manage_guest_game_rules, approve_guest_game_rewards,
      operate_guest_game_ledger, view_guest_game_pii, view_marketing, manage_marketing,
      view_communications, manage_communications, view_support_tickets, manage_support_tickets] @
     owner_staff_capabilities @
     [manage_users, manage_integrations, run_sync, import_guest_foundation, import_data,
      use_utilities] @
     product_edit_capabilities"
| "role_capabilities MANAGER =
     [view_dashboard, view_reports] @
     assortment_section_capabilities @
     report_action_capabilities @
     [view_guests] @
     guest_action_capabilities @
     [view_guest_gamification, manage_guest_game_rules, approve_guest_game_rewards,
      operate_guest_game_ledger, view_guest_game_pii, view_marketing, manage_marketing,
      view_communications, manage_communications] @
     owner_staff_capabilities @
     [manage_users, import_data, use_utilities] @
     product_edit_capabilities"
| "role_capabilities BUYER =
     [view_dashboard, view_reports, view_assortment_reports, export_reports,
      view_assortment_products, view_assortment_catalog, view_communications, use_utilities,
      edit_products]"
| "role_capabilities MARKETER =
     [view_dashboard, view_reports, view_assortment_reports, view_guests, manage_guest_crm,
      view_guest_gamification, manage_guest_game_rules, approve_guest_game_rewards,
      view_marketing, manage_marketing, view_communications]"
| "role_capabilities CLUB_MANAGER =
     [view_dashboard, view_reports] @
     assortment_section_capabilities @
     report_action_capabilities @
     [view_guests] @
     guest_action_capabilities @
     [view_guest_gamification, manage_guest_game_rules, approve_guest_game_rewards,
      view_guest_game_pii, view_marketing, manage_marketing, view_communications,
      manage_communications] @
     owner_staff_capabilities"
| "role_capabilities STANDARDS_MANAGER =
     [view_dashboard, view_communications, manage_communications, manage_users] @
     standards_manager_staff_capabilities"
| "role_capabilities SENIOR_ADMINISTRATOR =
     [view_communications, manage_communications, approve_guest_game_rewards] @
     shift_staff_capabilities"
| "role_capabilities CLUB_ADMINISTRATOR =
     [view_communications, manage_communications, approve_guest_game_rewards] @
     shift_staff_capabilities"
| "role_capabilities TRAINEE =
     [view_communications, manage_communications] @
     trainee_staff_capabilities"

fun minimum_role_capabilities :: "user_role \<Rightarrow> access_capability list" where
  "minimum_role_capabilities OWNER =
     universal_communication_capabilities @
     support_administration_capabilities @
     elevated_knowledge_capabilities"
| "minimum_role_capabilities ADMIN =
     universal_communication_capabilities @
     support_administration_capabilities @
     administrator_workspace_capabilities @
     elevated_knowledge_capabilities"
| "minimum_role_capabilities MANAGER =
     universal_communication_capabilities @
     elevated_knowledge_capabilities"
| "minimum_role_capabilities BUYER = universal_communication_capabilities"
| "minimum_role_capabilities MARKETER = universal_communication_capabilities"
| "minimum_role_capabilities CLUB_MANAGER = universal_communication_capabilities"
| "minimum_role_capabilities STANDARDS_MANAGER = role_capabilities STANDARDS_MANAGER"
| "minimum_role_capabilities SENIOR_ADMINISTRATOR =
     universal_communication_capabilities @
     administrator_workspace_capabilities"
| "minimum_role_capabilities CLUB_ADMINISTRATOR =
     universal_communication_capabilities @
     administrator_workspace_capabilities"
| "minimum_role_capabilities TRAINEE = universal_communication_capabilities"

text \<open>\<open>parentCapabilityChildren\<close> and \<open>requestedCapabilityAlternatives\<close>: partial tables.\<close>

definition parent_capability_children :: "(access_capability \<times> access_capability list) list" where
  "parent_capability_children =
     [(view_reports, assortment_section_capabilities),
      (view_staff, staff_section_capabilities),
      (view_staff_knowledge, []),
      (view_assortment_products, []),
      (view_assortment_catalog, []),
      (view_assortment_stores, [])]"

definition requested_capability_alternatives :: "(access_capability \<times> access_capability list) list" where
  "requested_capability_alternatives =
     [(view_reports, assortment_section_capabilities @ report_action_capabilities),
      (view_assortment_reports, report_action_capabilities),
      (view_assortment_products, [edit_products]),
      (view_assortment_catalog, [edit_catalog]),
      (view_assortment_stores, [edit_stores]),
      (view_guests, guest_action_capabilities),
      (view_marketing, [manage_marketing]),
      (view_communications, [manage_communications]),
      (view_support_tickets, [manage_support_tickets]),
      (view_staff, staff_section_capabilities @ staff_action_capabilities),
      (view_staff_tasks, [manage_staff_tasks]),
      (view_staff_standards, [manage_staff_standards]),
      (view_staff_training, [manage_staff_training]),
      (view_staff_knowledge, staff_knowledge_write_capabilities),
      (view_staff_control, [manage_staff_control]),
      (view_staff_directory, [manage_staff_directory]),
      (view_staff_salary, [manage_staff_salary])]"

section \<open>Operations\<close>

definition merge_capabilities :: "access_capability list option list \<Rightarrow> access_capability list" where
  "merge_capabilities sets = js_uniq (concat (map (\<lambda>s. get_or s []) sets))"

text \<open>\<open>validCapabilities.has(permission)\<close>, with the capability it narrows the string to.\<close>

definition valid_capability :: "string \<Rightarrow> access_capability option" where
  "valid_capability permission = find (\<lambda>c. capability_key c = permission) access_capability_catalog"

fun normalize_capabilities :: "string list option \<Rightarrow> access_capability list" where
  "normalize_capabilities None = []"
| "normalize_capabilities (Some permissions) =
     js_uniq (List.map_filter valid_capability permissions)"

text \<open>The permissions of the custom role, of the role override, or of the role, in this order.\<close>

fun resolve_user_capabilities ::
  "user_role \<Rightarrow> string list option \<Rightarrow> string list option \<Rightarrow> access_capability list" where
  "resolve_user_capabilities role (Some custom) role_override =
     merge_capabilities
       [Some (minimum_role_capabilities role), Some (normalize_capabilities (Some custom))]"
| "resolve_user_capabilities role None (Some permissions) =
     merge_capabilities
       [Some (minimum_role_capabilities role), Some (normalize_capabilities (Some permissions))]"
| "resolve_user_capabilities role None None = role_capabilities role"

definition capability_matches :: "access_capability \<Rightarrow> access_capability \<Rightarrow> bool" where
  "capability_matches owned requested \<longleftrightarrow>
     owned = requested \<or>
     requested \<in> set (get_or (map_of parent_capability_children owned) []) \<or>
     owned \<in> set (get_or (map_of requested_capability_alternatives requested) [])"

definition has_capability :: "access_capability list option \<Rightarrow> access_capability \<Rightarrow> bool" where
  "has_capability permissions capability \<longleftrightarrow>
     (case permissions of None \<Rightarrow> False
      | Some ps \<Rightarrow> (\<exists>p\<in>set ps. capability_matches p capability))"

definition has_any_capability ::
  "access_capability list option \<Rightarrow> access_capability list \<Rightarrow> bool" where
  "has_any_capability permissions capabilities \<longleftrightarrow>
     (\<exists>c\<in>set capabilities. has_capability permissions c)"

section \<open>The tables, checked\<close>

lemmas capability_groups =
  staff_section_capabilities_def assortment_section_capabilities_def report_action_capabilities_def
  guest_action_capabilities_def staff_knowledge_write_capabilities_def
  staff_action_capabilities_def product_edit_capabilities_def owner_staff_capabilities_def
  shift_staff_capabilities_def trainee_staff_capabilities_def
  standards_manager_staff_capabilities_def elevated_knowledge_capabilities_def
  universal_communication_capabilities_def administrator_workspace_capabilities_def
  support_administration_capabilities_def

lemma catalog_complete: "c \<in> set access_capability_catalog"
  by (cases c) (simp_all add: access_capability_catalog_def)

lemma distinct_capability_keys: "distinct (map capability_key access_capability_catalog)"
  by (simp add: access_capability_catalog_def)

lemma minimum_in_role: "set (minimum_role_capabilities r) \<subseteq> set (role_capabilities r)"
  by (cases r) (simp_all add: capability_groups)

lemma distinct_role_capabilities: "distinct (role_capabilities r)"
  by (cases r) (simp_all add: capability_groups)

lemmas role_tables = minimum_in_role distinct_role_capabilities

declare role_capabilities.simps [simp del] minimum_role_capabilities.simps [simp del]

lemma capability_key_inj: "capability_key c = capability_key d \<Longrightarrow> c = d"
  using distinct_capability_keys catalog_complete by (metis distinct_map inj_onD)

lemma valid_capability_iff: "valid_capability s = Some c \<longleftrightarrow> s = capability_key c"
proof
  assume "valid_capability s = Some c"
  then show "s = capability_key c"
    unfolding valid_capability_def by (auto dest: find_SomeD)
next
  assume s: "s = capability_key c"
  then have "valid_capability s \<noteq> None"
    using catalog_complete by (auto simp: valid_capability_def find_None_iff)
  then obtain d where d: "valid_capability s = Some d" by blast
  then have "capability_key d = s"
    unfolding valid_capability_def by (auto dest: find_SomeD)
  with s d show "valid_capability s = Some c" by (auto dest: capability_key_inj)
qed

lemma valid_capability_key [simp]: "valid_capability (capability_key c) = Some c"
  by (simp add: valid_capability_iff)

section \<open>Which capabilities imply which\<close>

text \<open>The capabilities that let a user look at something; every other one lets a user change
  something or take data out.\<close>

definition is_view :: "access_capability \<Rightarrow> bool" where
  "is_view c \<longleftrightarrow> take 5 (capability_key c) = ''view_''"

lemma implied_tables:
  "list_all (\<lambda>(k, vs). list_all is_view vs) parent_capability_children"
  "list_all (\<lambda>(k, vs). is_view k) requested_capability_alternatives"
  by (simp_all add: parent_capability_children_def requested_capability_alternatives_def
      capability_groups is_view_def)

lemma in_get_or_map_of:
  "x \<in> set (get_or (map_of m k) []) \<Longrightarrow> \<exists>vs. (k, vs) \<in> set m \<and> x \<in> set vs"
  by (cases "map_of m k") (auto dest: map_of_SomeD)

lemma implied_is_view: "capability_matches p c \<Longrightarrow> p \<noteq> c \<Longrightarrow> is_view c"
  using implied_tables
  by (auto simp: capability_matches_def list_all_iff dest!: in_get_or_map_of)

lemma has_capability_Some:
  "has_capability (Some ps) c \<longleftrightarrow> (\<exists>p\<in>set ps. capability_matches p c)"
  by (simp add: has_capability_def)

lemma has_capability_None [simp]: "\<not> has_capability None c"
  by (simp add: has_capability_def)

lemma has_capability_own: "c \<in> set ps \<Longrightarrow> has_capability (Some ps) c"
  by (auto simp: has_capability_Some capability_matches_def)

lemma has_capability_mono:
  "has_capability (Some ps) c \<Longrightarrow> set ps \<subseteq> set qs \<Longrightarrow> has_capability (Some qs) c"
  by (auto simp: has_capability_Some)

lemma write_capability_own: "has_capability (Some ps) c \<Longrightarrow> \<not> is_view c \<Longrightarrow> c \<in> set ps"
  using implied_is_view by (auto simp: has_capability_Some)

section \<open>What a user ends up with\<close>

lemma set_map_filter_valid:
  "set (List.map_filter valid_capability ps) = {c. capability_key c \<in> set ps}"
  by (auto simp: map_filter_def valid_capability_iff image_iff split: option.splits)
    (metis option.sel valid_capability_key)+

lemma set_normalize_capabilities [simp]:
  "set (normalize_capabilities ps) = {c. capability_key c \<in> set (get_or ps [])}"
  by (cases ps) (auto simp: set_map_filter_valid)

lemma map_filter_valid_keys [simp]:
  "List.map_filter valid_capability (map capability_key cs) = cs"
  by (induction cs) (simp_all add: List.map_filter_simps)

lemma normalize_of_valid: "distinct cs \<Longrightarrow> normalize_capabilities (Some (map capability_key cs)) = cs"
  by (simp add: js_uniq_distinct)

lemma set_resolve_user_capabilities:
  "set (resolve_user_capabilities role custom role_override) =
     (case or_else custom role_override of
        None \<Rightarrow> set (role_capabilities role)
      | Some ps \<Rightarrow> set (minimum_role_capabilities role) \<union> {c. capability_key c \<in> set ps})"
  by (cases custom; cases role_override)
    (auto simp: merge_capabilities_def set_map_filter_valid)

lemma distinct_resolve [simp]: "distinct (resolve_user_capabilities role custom role_override)"
  by (cases custom; cases role_override)
    (simp_all add: merge_capabilities_def distinct_role_capabilities)

lemma resolve_keeps_minimum:
  "set (minimum_role_capabilities role) \<subseteq> set (resolve_user_capabilities role custom role_override)"
  using minimum_in_role [of role]
  by (auto simp: set_resolve_user_capabilities split: option.splits)

lemma normalize_resolve [simp]:
  "normalize_capabilities (Some (map capability_key (resolve_user_capabilities role custom role_override))) =
     resolve_user_capabilities role custom role_override"
  by (rule normalize_of_valid [OF distinct_resolve])

text \<open>
  The capabilities resolved for a user are well formed whatever strings are stored for the
  custom role or the role override: they do not repeat, they contain the minimum set of the role and,
  beyond it, only capabilities whose key is stored; and normalising their keys again (as the fresh
  scope check does) gives them back in the same order.
\<close>

theorem resolved_capabilities_well_formed:
  "distinct (resolve_user_capabilities role custom role_override) \<and>
   set (resolve_user_capabilities role custom role_override) =
     (case or_else custom role_override of
        None \<Rightarrow> set (role_capabilities role)
      | Some ps \<Rightarrow> set (minimum_role_capabilities role) \<union> {c. capability_key c \<in> set ps}) \<and>
   set (minimum_role_capabilities role) \<subseteq> set (resolve_user_capabilities role custom role_override) \<and>
   normalize_capabilities (Some (map capability_key (resolve_user_capabilities role custom role_override))) =
     resolve_user_capabilities role custom role_override"
  using resolve_keeps_minimum distinct_resolve normalize_resolve set_resolve_user_capabilities
  by blast

text \<open>
  A capability to change something is never implied by another one. When the access check
  passes for a capability that is not a \<open>view_\<close> capability, it was granted itself: it is in the
  minimum set of the role or its key is among the stored permissions that replace the role's set, or
  it is in the role's set when nothing replaces it. The looser matching of \<open>capabilityMatches\<close> only
  ever widens what may be looked at.
\<close>

theorem change_capability_is_granted:
  assumes "has_capability (Some (resolve_user_capabilities role custom role_override)) c"
    and "\<not> is_view c"
  shows "case or_else custom role_override of
       None \<Rightarrow> c \<in> set (role_capabilities role)
     | Some permissions \<Rightarrow>
         c \<in> set (minimum_role_capabilities role) \<or> capability_key c \<in> set permissions"
  using write_capability_own [OF assms]
  by (auto simp: set_resolve_user_capabilities split: option.splits)

lemma change_capability_is_granted_witness:
  "manage_staff_tasks \<in> set (minimum_role_capabilities BUYER) \<or>
   capability_key manage_staff_tasks \<in> set [''manage_staff_tasks'', ''not_a_capability'']"
proof -
  have "has_capability (Some (resolve_user_capabilities BUYER
          (Some [''manage_staff_tasks'', ''not_a_capability'']) None)) manage_staff_tasks"
    by (rule has_capability_own) (simp add: set_resolve_user_capabilities del: resolve_user_capabilities.simps)
  moreover have "\<not> is_view manage_staff_tasks"
    by (simp add: is_view_def)
  ultimately show ?thesis
    using change_capability_is_granted
      [of BUYER "Some [''manage_staff_tasks'', ''not_a_capability'']" None manage_staff_tasks]
    by simp
qed

section \<open>The first cohort\<close>

definition outside_first_cohort :: "access_capability list" where
  "outside_first_cohort =
     [view_guests, export_guests, manage_guest_crm, view_guest_game_pii, view_marketing,
      manage_marketing]"

lemma first_cohort_table:
  "set SHARED_BETA_INITIAL_OWNER_CAPABILITIES \<subseteq> set (role_capabilities OWNER)"
  "list_all (\<lambda>c. \<not> has_capability (Some SHARED_BETA_INITIAL_OWNER_CAPABILITIES) c)
     outside_first_cohort"
  by (simp_all add: SHARED_BETA_INITIAL_OWNER_CAPABILITIES_def capability_groups
      outside_first_cohort_def has_capability_def capability_matches_def role_capabilities.simps
      parent_capability_children_def requested_capability_alternatives_def)

text \<open>
  The ceiling of the first shared-beta owners lies inside the OWNER role, and neither
  directly nor through an implied capability does it reach the marketing section, the guest CRM or
  the personal data of guests.
\<close>

theorem first_cohort_ceiling:
  "set SHARED_BETA_INITIAL_OWNER_CAPABILITIES \<subseteq> set (role_capabilities OWNER) \<and>
   {c. has_capability (Some SHARED_BETA_INITIAL_OWNER_CAPABILITIES) c} \<inter>
     {view_guests, export_guests, manage_guest_crm, view_guest_game_pii, view_marketing,
      manage_marketing} = {}"
  using first_cohort_table by (auto simp: list_all_iff outside_first_cohort_def)

end
