(* ===== verification/Auth_User.thy ===== *)
theory Auth_User
  imports Capabilities
begin

text \<open>
  \<open>auth/auth.types.ts\<close>: the user that the authentication guard attaches to a request. The field
  \<open>accessScope\<close> is kept as the string it is at run time, because \<open>AccessScopeService\<close> parses it
  again; optional fields are options.
\<close>

record authenticated_user =
  au_id :: string
  au_email :: string
  au_fullName :: "string option"
  au_role :: user_role
  au_customRoleId :: "string option"
  au_customRoleName :: "string option"
  au_hasRoleOverride :: "bool option"
  au_permissions :: "access_capability list option"
  au_isActive :: "bool option"
  au_isPlatformAdmin :: bool
  au_platformTenantContext :: "bool option"
  au_tenantId :: string
  au_tenantSlug :: string
  au_tenantStatus :: "lifecycle_status option"
  au_tenantCustomerStage :: "customer_stage option"
  au_tenantOnboardingStatus :: "onboarding_status option"
  au_tenantTrialStartsAt :: "jsdate option"
  au_tenantTrialEndsAt :: "jsdate option"
  au_tenantEntitlementProfileRevision :: "int option"
  au_accessScope :: "string option"
  au_allowedStoreIds :: "string list"

text \<open>\<open>user?.role\<close>, \<open>user?.permissions\<close> of a request that may carry no user.\<close>

definition role_of :: "authenticated_user option \<Rightarrow> user_role option" where
  "role_of user = map_option au_role user"

definition permissions_of :: "authenticated_user option \<Rightarrow> access_capability list option" where
  "permissions_of user = (case user of None \<Rightarrow> None | Some u \<Rightarrow> au_permissions u)"

lemma role_of_simps [simp]: "role_of None = None" "role_of (Some u) = Some (au_role u)"
  by (simp_all add: role_of_def)

lemma permissions_of_simps [simp]:
  "permissions_of None = None" "permissions_of (Some u) = au_permissions u"
  by (simp_all add: permissions_of_def)

end
