(* ===== verification/Access_Scope.thy ===== *)
theory Access_Scope
  imports Auth_User
begin

text \<open>
  \<open>tenancy/access-scope.service.ts\<close>: which stores of the tenant a user may act on. A scope is the
  whole network, without explicit stores, or an explicit non-empty list of stores.

  The exceptions are constructors of \<open>scope_error\<close>, one per message, classified by the exception class
  of the source (\<open>is_forbidden\<close>: \<open>ForbiddenException\<close>). The abstract view of a scope is \<open>reach\<close>, the
  set of stores it opens; the theorems say that requested, delegated and managed scopes never leave it.
\<close>

section \<open>Scopes and errors\<close>

datatype scope_mode = NETWORK | STORES

datatype scope_error =
  SCOPE_REQUIRED | INVALID_SCOPE | FRESH_SCOPE_REQUIRED | STALE_SCOPE
| NETWORK_REQUIRED | OUTSIDE_SCOPE | OUTSIDE_TENANT | INVALID_STORE_SCOPE
| NETWORK_WITH_STORES | STORE_USER_GRANTS_NETWORK | EMPTY_DELEGATION
| RESOURCE_NOT_FOUND

fun is_forbidden :: "scope_error \<Rightarrow> bool" where
  "is_forbidden SCOPE_REQUIRED = False"
| "is_forbidden INVALID_SCOPE = False"
| "is_forbidden FRESH_SCOPE_REQUIRED = False"
| "is_forbidden STALE_SCOPE = False"
| "is_forbidden RESOURCE_NOT_FOUND = False"
| "is_forbidden _ = True"

record requested_scope =
  rs_mode :: scope_mode
  rs_storeIds :: "string list"

record resolved_scope =
  sc_tenantId :: string
  sc_tenantSlug :: string
  sc_mode :: scope_mode
  sc_allowedStoreIds :: "string list"

text \<open>A row of the store accesses. The tenant of the joined store is absent (\<open>undefined\<close>), null or
  an id.\<close>

record persisted_access =
  pa_storeId :: string
  pa_storeTenant :: "string option option"

record persisted_subject =
  ps_tenantId :: string
  ps_accessScope :: "string option"
  ps_storeAccesses :: "persisted_access list"

section \<open>The service\<close>

definition parse_persisted_mode :: "string option \<Rightarrow> scope_error + scope_mode" where
  "parse_persisted_mode v =
     (if v = Some ''NETWORK'' then Inr NETWORK
      else if v = Some ''STORES'' then Inr STORES
      else Inl INVALID_SCOPE)"

text \<open>The loop of \<open>validatePersistedStoreIds\<close>; \<open>seen\<close> and \<open>storeIds\<close> hold the same ids.\<close>

fun validate_store_ids ::
  "string \<Rightarrow> persisted_access list \<Rightarrow> string list \<Rightarrow> scope_error + string list" where
  "validate_store_ids tenant [] storeIds = Inr storeIds"
| "validate_store_ids tenant (access # rest) storeIds =
     (let storeId = js_trim (pa_storeId access) in
      if storeId = [] \<or> storeId \<in> set storeIds \<or>
         (pa_storeTenant access \<noteq> None \<and> pa_storeTenant access \<noteq> Some (Some tenant))
      then Inl INVALID_SCOPE
      else validate_store_ids tenant rest (storeIds @ [storeId]))"

definition validate_persisted_store_ids :: "persisted_subject \<Rightarrow> scope_error + string list" where
  "validate_persisted_store_ids s = validate_store_ids (ps_tenantId s) (ps_storeAccesses s) []"

definition from_persisted :: "persisted_subject \<Rightarrow> scope_error + requested_scope" where
  "from_persisted s =
     and_then (validate_persisted_store_ids s) (\<lambda>storeIds.
     and_then (parse_persisted_mode (ps_accessScope s)) (\<lambda>mode.
       if mode = NETWORK \<and> storeIds \<noteq> [] then Inl INVALID_SCOPE
       else if mode = STORES \<and> storeIds = [] then Inl INVALID_SCOPE
       else Inr \<lparr>rs_mode = mode, rs_storeIds = storeIds\<rparr>))"

definition subject_of_user :: "authenticated_user \<Rightarrow> persisted_subject" where
  "subject_of_user u =
     \<lparr>ps_tenantId = au_tenantId u, ps_accessScope = au_accessScope u,
      ps_storeAccesses =
        map (\<lambda>s. \<lparr>pa_storeId = s, pa_storeTenant = None\<rparr>) (au_allowedStoreIds u)\<rparr>"

definition resolve_scope :: "authenticated_user option \<Rightarrow> scope_error + resolved_scope" where
  "resolve_scope user =
     (case user of None \<Rightarrow> Inl SCOPE_REQUIRED
      | Some u \<Rightarrow>
          if au_tenantId u = [] \<or> au_tenantSlug u = [] then Inl SCOPE_REQUIRED
          else and_then (from_persisted (subject_of_user u)) (\<lambda>p.
            Inr \<lparr>sc_tenantId = au_tenantId u, sc_tenantSlug = au_tenantSlug u,
                 sc_mode = rs_mode p, sc_allowedStoreIds = rs_storeIds p\<rparr>))"

definition assert_network :: "authenticated_user option \<Rightarrow> scope_error + resolved_scope" where
  "assert_network user =
     and_then (resolve_scope user) (\<lambda>scope.
       if sc_mode scope \<noteq> NETWORK then Inl NETWORK_REQUIRED else Inr scope)"

definition assert_store_allowed :: "authenticated_user \<Rightarrow> string \<Rightarrow> scope_error + unit" where
  "assert_store_allowed user storeId =
     and_then (resolve_scope (Some user)) (\<lambda>scope.
       if sc_mode scope = NETWORK then Inr ()
       else if storeId \<notin> set (sc_allowedStoreIds scope) then Inl OUTSIDE_SCOPE
       else Inr ())"

definition assert_resource_store_allowed :: "authenticated_user \<Rightarrow> string \<Rightarrow> scope_error + unit" where
  "assert_resource_store_allowed user storeId =
     and_then (resolve_scope (Some user)) (\<lambda>scope.
       if sc_mode scope = STORES \<and> storeId \<notin> set (sc_allowedStoreIds scope)
       then Inl RESOURCE_NOT_FOUND
       else Inr ())"

definition normalize_requested_store_ids :: "string list \<Rightarrow> scope_error + string list" where
  "normalize_requested_store_ids storeIds =
     (let normalized = filter (\<lambda>s. s \<noteq> []) (map js_trim storeIds) in
      if length normalized \<noteq> length storeIds \<or> length (js_uniq normalized) \<noteq> length normalized
      then Inl INVALID_STORE_SCOPE
      else Inr normalized)"

definition assert_subset :: "string list \<Rightarrow> string list \<Rightarrow> scope_error + unit" where
  "assert_subset requested allowed_ids =
     (if \<exists>s\<in>set requested. s \<notin> set allowed_ids then Inl OUTSIDE_SCOPE else Inr ())"

definition resolve_requested_store_ids ::
  "authenticated_user \<Rightarrow> string list option \<Rightarrow> scope_error + string list option" where
  "resolve_requested_store_ids user requested =
     and_then (resolve_scope (Some user)) (\<lambda>scope.
       case requested of
         None \<Rightarrow> Inr (if sc_mode scope = NETWORK then None else Some (sc_allowedStoreIds scope))
       | Some ids \<Rightarrow>
           and_then (normalize_requested_store_ids ids) (\<lambda>normalized.
             if sc_mode scope = NETWORK then Inr (Some normalized)
             else and_then (assert_subset normalized (sc_allowedStoreIds scope)) (\<lambda>_.
               Inr (Some normalized))))"

definition assert_can_delegate :: "authenticated_user \<Rightarrow> requested_scope \<Rightarrow> scope_error + unit" where
  "assert_can_delegate actor target =
     and_then (resolve_scope (Some actor)) (\<lambda>scope.
       if rs_mode target = NETWORK then
         (if rs_storeIds target \<noteq> [] then Inl NETWORK_WITH_STORES
          else if sc_mode scope \<noteq> NETWORK then Inl STORE_USER_GRANTS_NETWORK
          else Inr ())
       else if rs_storeIds target = [] then Inl EMPTY_DELEGATION
       else if sc_mode scope = STORES
       then assert_subset (rs_storeIds target) (sc_allowedStoreIds scope)
       else Inr ())"

definition assert_can_manage_target ::
  "authenticated_user \<Rightarrow> requested_scope \<Rightarrow> scope_error + unit" where
  "assert_can_manage_target actor target =
     (if rs_mode target = STORES \<and> rs_storeIds target = []
      then and_then (assert_network (Some actor)) (\<lambda>_. Inr ())
      else assert_can_delegate actor target)"

definition is_visible_target :: "authenticated_user \<Rightarrow> requested_scope \<Rightarrow> scope_error + bool" where
  "is_visible_target actor target =
     (case assert_can_manage_target actor target of
        Inr _ \<Rightarrow> Inr True
      | Inl e \<Rightarrow> if is_forbidden e then Inr False else Inl e)"

section \<open>Persisted scopes\<close>

definition well_formed_scope :: "requested_scope \<Rightarrow> bool" where
  "well_formed_scope s \<longleftrightarrow>
     (rs_mode s = NETWORK \<longleftrightarrow> rs_storeIds s = []) \<and> distinct (rs_storeIds s) \<and>
     (\<forall>i\<in>set (rs_storeIds s). i \<noteq> [] \<and> js_trim i = i)"

lemma filter_same_length: "length (filter P xs) = length xs \<Longrightarrow> filter P xs = xs"
proof (induction xs)
  case (Cons x xs)
  have "length (filter P xs) \<noteq> Suc (length xs)"
    using length_filter_le [of P xs] by linarith
  with Cons show ?case by (auto split: if_splits)
qed simp

lemma distinct_append_single: "x \<notin> set xs \<Longrightarrow> distinct xs \<Longrightarrow> distinct (xs @ [x])"
  by simp

lemma validate_store_ids_result:
  assumes "validate_store_ids tenant accesses acc = Inr ids"
  shows "ids = acc @ map (js_trim \<circ> pa_storeId) accesses"
    and "distinct acc \<Longrightarrow> distinct ids"
    and "\<forall>i\<in>set (map (js_trim \<circ> pa_storeId) accesses). i \<noteq> []"
    and "\<forall>a\<in>set accesses. pa_storeTenant a = None \<or> pa_storeTenant a = Some (Some tenant)"
proof -
  have "ids = acc @ map (js_trim \<circ> pa_storeId) accesses \<and> (distinct acc \<longrightarrow> distinct ids) \<and>
    (\<forall>i\<in>set (map (js_trim \<circ> pa_storeId) accesses). i \<noteq> []) \<and>
    (\<forall>a\<in>set accesses. pa_storeTenant a = None \<or> pa_storeTenant a = Some (Some tenant))"
    using assms
  proof (induction accesses arbitrary: acc)
    case Nil
    then show ?case by simp
  next
    case (Cons a accesses)
    then have step: "validate_store_ids tenant accesses (acc @ [js_trim (pa_storeId a)]) = Inr ids"
      and a: "js_trim (pa_storeId a) \<noteq> []" "js_trim (pa_storeId a) \<notin> set acc"
        "pa_storeTenant a = None \<or> pa_storeTenant a = Some (Some tenant)"
      by (auto simp: Let_def split: if_splits)
    have "distinct acc \<longrightarrow> distinct ids"
      using Cons.IH [OF step] a(2) by (meson distinct.simps distinct_append_single)
    with Cons.IH [OF step] a(1,3) show ?case by auto
  qed
  then show "ids = acc @ map (js_trim \<circ> pa_storeId) accesses" and "distinct acc \<Longrightarrow> distinct ids"
    and "\<forall>i\<in>set (map (js_trim \<circ> pa_storeId) accesses). i \<noteq> []"
    and "\<forall>a\<in>set accesses. pa_storeTenant a = None \<or> pa_storeTenant a = Some (Some tenant)"
    by blast+
qed

lemma validate_accepts:
  "distinct (acc @ ids) \<Longrightarrow> \<forall>i\<in>set ids. i \<noteq> [] \<and> js_trim i = i \<Longrightarrow>
   validate_store_ids tenant (map (\<lambda>s. \<lparr>pa_storeId = s, pa_storeTenant = None\<rparr>) ids) acc = Inr (acc @ ids)"
  by (induction ids arbitrary: acc) (auto simp: Let_def)

lemma from_persisted_well_formed: "from_persisted s = Inr scope \<Longrightarrow> well_formed_scope scope"
  using validate_store_ids_result(1-3) [of "ps_tenantId s" "ps_storeAccesses s" "[]"]
  by (auto simp: from_persisted_def validate_persisted_store_ids_def well_formed_scope_def
      split: if_splits) (metis scope_mode.exhaust)+

lemma from_persisted_stores:
  "from_persisted s = Inr scope \<Longrightarrow> rs_storeIds scope = map (js_trim \<circ> pa_storeId) (ps_storeAccesses s)"
  using validate_store_ids_result(1) [of "ps_tenantId s" "ps_storeAccesses s" "[]"]
  by (auto simp: from_persisted_def validate_persisted_store_ids_def split: if_splits)

text \<open>A user whose fields come from a well formed scope resolves to that scope.\<close>

lemma resolve_scope_of_well_formed:
  assumes "well_formed_scope scope" and "au_tenantId u \<noteq> []" and "au_tenantSlug u \<noteq> []"
    and "au_accessScope u = Some (case rs_mode scope of NETWORK \<Rightarrow> ''NETWORK'' | STORES \<Rightarrow> ''STORES'')"
    and "au_allowedStoreIds u = rs_storeIds scope"
  shows "resolve_scope (Some u) = Inr \<lparr>sc_tenantId = au_tenantId u, sc_tenantSlug = au_tenantSlug u,
    sc_mode = rs_mode scope, sc_allowedStoreIds = rs_storeIds scope\<rparr>"
  using assms validate_accepts [of "[]" "rs_storeIds scope" "au_tenantId u"]
  by (auto simp: resolve_scope_def subject_of_user_def from_persisted_def well_formed_scope_def
      validate_persisted_store_ids_def parse_persisted_mode_def split: scope_mode.splits)

section \<open>Reach\<close>

definition reach :: "scope_mode \<Rightarrow> string list \<Rightarrow> string set" where
  "reach mode ids = (case mode of NETWORK \<Rightarrow> UNIV | STORES \<Rightarrow> set ids)"

lemma reach_simps [simp]: "reach NETWORK ids = UNIV" "reach STORES ids = set ids"
  by (simp_all add: reach_def)

lemma resolve_scope_well_formed:
  assumes "resolve_scope (Some u) = Inr scope"
  shows "well_formed_scope \<lparr>rs_mode = sc_mode scope, rs_storeIds = sc_allowedStoreIds scope\<rparr>"
proof -
  obtain p where p: "from_persisted (subject_of_user u) = Inr p"
    and "rs_mode p = sc_mode scope" "rs_storeIds p = sc_allowedStoreIds scope"
    using assms by (auto simp: resolve_scope_def split: if_splits)
  then have "p = \<lparr>rs_mode = sc_mode scope, rs_storeIds = sc_allowedStoreIds scope\<rparr>"
    by (cases p) simp
  with from_persisted_well_formed [OF p] show ?thesis by simp
qed

lemma assert_subset_iff [simp]: "assert_subset xs ys = Inr () \<longleftrightarrow> set xs \<subseteq> set ys"
  by (auto simp: assert_subset_def)

lemma assert_can_delegate_iff:
  "assert_can_delegate actor target = Inr () \<longleftrightarrow>
     (\<exists>scope. resolve_scope (Some actor) = Inr scope \<and>
        (rs_mode target = NETWORK \<longleftrightarrow> rs_storeIds target = []) \<and>
        reach (rs_mode target) (rs_storeIds target) \<subseteq> reach (sc_mode scope) (sc_allowedStoreIds scope))"
proof -
  have "\<not> (UNIV :: string set) \<subseteq> set ids" for ids :: "string list"
    using infinite_UNIV_listI finite_subset by blast
  then show ?thesis
  proof (cases "resolve_scope (Some actor)")
    case (Inr scope)
    then show ?thesis
      using \<open>\<And>ids. \<not> UNIV \<subseteq> set ids\<close>
      by (cases "rs_mode target"; cases "sc_mode scope")
        (simp_all add: assert_can_delegate_def)
  qed (simp add: assert_can_delegate_def)
qed

lemma assert_can_delegate_error:
  "assert_can_delegate actor target = Inl e \<Longrightarrow> resolve_scope (Some actor) = Inr scope \<Longrightarrow> is_forbidden e"
  by (auto simp: assert_can_delegate_def assert_subset_def split: if_splits)

text \<open>
  C15: A persisted scope that is accepted is well formed: it is the whole network exactly when it
  lists no store, the stores are distinct, trimmed and not blank, each is one of the rows, and no row
  of a store of another tenant is among them. Everything else is refused with the unauthorized error.
\<close>

theorem persisted_scope_well_formed:
  assumes "from_persisted s = Inr scope"
  shows "well_formed_scope scope \<and>
    rs_storeIds scope = map (js_trim \<circ> pa_storeId) (ps_storeAccesses s) \<and>
    (\<forall>a\<in>set (ps_storeAccesses s). \<forall>t. pa_storeTenant a = Some t \<longrightarrow> t = Some (ps_tenantId s))"
proof -
  obtain ids where "validate_store_ids (ps_tenantId s) (ps_storeAccesses s) [] = Inr ids"
    using assms by (auto simp: from_persisted_def validate_persisted_store_ids_def)
  from validate_store_ids_result(4) [OF this] show ?thesis
    using from_persisted_well_formed [OF assms] from_persisted_stores [OF assms] by fastforce
qed

definition sample_subject_rows :: persisted_subject where
  "sample_subject_rows =
     \<lparr>ps_tenantId = ''t1'', ps_accessScope = Some ''STORES'',
      ps_storeAccesses = [\<lparr>pa_storeId = '' s1 '', pa_storeTenant = Some (Some ''t1'')\<rparr>,
        \<lparr>pa_storeId = ''s2'', pa_storeTenant = None\<rparr>]\<rparr>"

lemma persisted_scope_well_formed_witness:
  "well_formed_scope \<lparr>rs_mode = STORES, rs_storeIds = [''s1'', ''s2'']\<rparr>"
proof -
  have "from_persisted sample_subject_rows = Inr \<lparr>rs_mode = STORES, rs_storeIds = [''s1'', ''s2'']\<rparr>"
    by code_simp
  from persisted_scope_well_formed [OF this] show ?thesis by (rule conjunct1)
qed

text \<open>
  The stores a request works on stay inside the user's scope. When requested store ids are
  resolved, the answer is the requested list (trimmed, distinct, no blank id) or, without a request,
  the user's own scope; it never leaves the scope, and it means "every store" only for a network user
  who asked for no store in particular.
\<close>

theorem requested_stores_within_scope:
  assumes "resolve_requested_store_ids u requested = Inr answer"
    and "resolve_scope (Some u) = Inr scope"
  shows "(case answer of None \<Rightarrow> UNIV | Some ids \<Rightarrow> set ids) \<subseteq>
      reach (sc_mode scope) (sc_allowedStoreIds scope) \<and>
    (answer = None \<longleftrightarrow> requested = None \<and> sc_mode scope = NETWORK) \<and>
    (\<forall>ids. answer = Some ids \<longrightarrow> distinct ids \<and> (\<forall>i\<in>set ids. i \<noteq> [] \<and> js_trim i = i)) \<and>
    (\<forall>asked. requested = Some asked \<longrightarrow> answer = Some (map js_trim asked))"
proof (cases requested)
  case None
  then show ?thesis
    using assms resolve_scope_well_formed [OF assms(2)]
    by (cases "sc_mode scope") (auto simp: resolve_requested_store_ids_def well_formed_scope_def)
next
  case (Some asked)
  obtain ids where ids: "normalize_requested_store_ids asked = Inr ids" "answer = Some ids"
    and sub: "sc_mode scope = STORES \<longrightarrow> set ids \<subseteq> set (sc_allowedStoreIds scope)"
    using assms Some by (cases "sc_mode scope") (auto simp: resolve_requested_store_ids_def)
  have all: "length (filter (\<lambda>s. s \<noteq> []) (map js_trim asked)) = length asked"
    and ids_def: "ids = filter (\<lambda>s. s \<noteq> []) (map js_trim asked)"
    and uniq: "length (js_uniq ids) = length ids"
    using ids(1) by (auto simp: normalize_requested_store_ids_def Let_def split: if_splits)
  have full: "ids = map js_trim asked"
    unfolding ids_def by (rule filter_same_length) (use all in simp)
  have "\<forall>i\<in>set ids. i \<noteq> []"
    unfolding ids_def by simp
  moreover have "distinct ids"
    using uniq distinct_card [OF distinct_js_uniq, of ids] by (intro card_distinct) simp
  ultimately show ?thesis
    using sub ids(2) Some full by (cases "sc_mode scope") auto
qed

definition sample_actor :: "string \<Rightarrow> string list \<Rightarrow> authenticated_user" where
  "sample_actor mode ids =
     \<lparr>au_id = ''u'', au_email = '''', au_fullName = None, au_role = MANAGER,
      au_customRoleId = None, au_customRoleName = None, au_hasRoleOverride = None,
      au_permissions = None, au_isActive = None, au_isPlatformAdmin = False,
      au_platformTenantContext = None, au_tenantId = ''t1'', au_tenantSlug = ''club'',
      au_tenantStatus = None, au_tenantCustomerStage = None, au_tenantOnboardingStatus = None,
      au_tenantTrialStartsAt = None, au_tenantTrialEndsAt = None,
      au_tenantEntitlementProfileRevision = None, au_accessScope = Some mode,
      au_allowedStoreIds = ids\<rparr>"

lemma requested_stores_within_scope_witness:
  "set [''s2''] \<subseteq> reach STORES [''s1'', ''s2''] \<and>
   resolve_requested_store_ids (sample_actor ''STORES'' [''s1'', ''s2'']) (Some [''s3'']) = Inl OUTSIDE_SCOPE"
proof -
  let ?u = "sample_actor ''STORES'' [''s1'', ''s2'']"
  have a: "resolve_requested_store_ids ?u (Some ['' s2'']) = Inr (Some [''s2''])"
    and b: "resolve_scope (Some ?u) = Inr \<lparr>sc_tenantId = ''t1'', sc_tenantSlug = ''club'',
      sc_mode = STORES, sc_allowedStoreIds = [''s1'', ''s2'']\<rparr>"
    and c: "resolve_requested_store_ids ?u (Some [''s3'']) = Inl OUTSIDE_SCOPE"
    by code_simp+
  from requested_stores_within_scope [OF a b] c show ?thesis by simp
qed

section \<open>Delegation\<close>

definition mode_name :: "scope_mode \<Rightarrow> string" where
  "mode_name m = (case m of NETWORK \<Rightarrow> ''NETWORK'' | STORES \<Rightarrow> ''STORES'')"

text \<open>A user that an actor has given a scope to: the check passed and the scope was stored.\<close>

definition delegated :: "authenticated_user \<Rightarrow> authenticated_user \<Rightarrow> bool" where
  "delegated actor user \<longleftrightarrow>
     (\<exists>target. assert_can_delegate actor target = Inr () \<and>
        au_accessScope user = Some (mode_name (rs_mode target)) \<and>
        au_allowedStoreIds user = rs_storeIds target)"

lemma resolve_scope_fields:
  assumes "resolve_scope (Some u) = Inr scope"
  shows "sc_allowedStoreIds scope = map js_trim (au_allowedStoreIds u)"
    and "au_accessScope u = Some (mode_name (sc_mode scope))"
proof -
  obtain p where p: "from_persisted (subject_of_user u) = Inr p"
    and eq: "rs_mode p = sc_mode scope" "rs_storeIds p = sc_allowedStoreIds scope"
    using assms by (auto simp: resolve_scope_def split: if_splits)
  show "sc_allowedStoreIds scope = map js_trim (au_allowedStoreIds u)"
    using from_persisted_stores [OF p] eq by (simp add: subject_of_user_def comp_def)
  show "au_accessScope u = Some (mode_name (sc_mode scope))"
    using p eq(1)
    by (auto simp: from_persisted_def parse_persisted_mode_def subject_of_user_def mode_name_def
        split: if_splits)
qed

lemma delegated_step:
  assumes "delegated actor user" and "resolve_scope (Some user) = Inr su"
  obtains sa where "resolve_scope (Some actor) = Inr sa"
    and "reach (sc_mode su) (sc_allowedStoreIds su) \<subseteq> reach (sc_mode sa) (sc_allowedStoreIds sa)"
proof -
  obtain target where ok: "assert_can_delegate actor target = Inr ()"
    and user: "au_accessScope user = Some (mode_name (rs_mode target))"
      "au_allowedStoreIds user = rs_storeIds target"
    using assms(1) by (auto simp: delegated_def)
  obtain sa where sa: "resolve_scope (Some actor) = Inr sa"
    and sub: "reach (rs_mode target) (rs_storeIds target) \<subseteq> reach (sc_mode sa) (sc_allowedStoreIds sa)"
    using ok by (auto simp: assert_can_delegate_iff)
  have mode: "sc_mode su = rs_mode target"
    using resolve_scope_fields(2) [OF assms(2)] user(1)
    by (cases "sc_mode su"; cases "rs_mode target") (simp_all add: mode_name_def)
  have ids: "sc_allowedStoreIds su = map js_trim (rs_storeIds target)"
    using resolve_scope_fields(1) [OF assms(2)] user(2) by simp
  have "\<forall>i\<in>set (sc_allowedStoreIds sa). js_trim i = i"
    using resolve_scope_well_formed [OF sa] by (simp add: well_formed_scope_def)
  then have "reach (sc_mode su) (sc_allowedStoreIds su) \<subseteq> reach (sc_mode sa) (sc_allowedStoreIds sa)"
    using sub mode ids by (cases "rs_mode target"; cases "sc_mode sa") (auto simp: subset_iff)
  with sa that show thesis by blast
qed

text \<open>
  C14: Delegation never widens authority. Along any chain of delegations, each one accepted by
  \<open>assertCanDelegate\<close> and stored as the scope of the next user, the stores that the last user can reach
  are stores that the first one can reach.
\<close>

theorem delegation_never_widens:
  assumes "delegated\<^sup>*\<^sup>* u v" and "resolve_scope (Some v) = Inr sv"
  shows "\<exists>su. resolve_scope (Some u) = Inr su \<and>
    reach (sc_mode sv) (sc_allowedStoreIds sv) \<subseteq> reach (sc_mode su) (sc_allowedStoreIds su)"
  using assms
proof (induction arbitrary: sv rule: rtranclp_induct)
  case base
  then show ?case by blast
next
  case (step w v)
  from delegated_step [OF step.hyps(2) step.prems] obtain sw
    where "resolve_scope (Some w) = Inr sw"
      "reach (sc_mode sv) (sc_allowedStoreIds sv) \<subseteq> reach (sc_mode sw) (sc_allowedStoreIds sw)" .
  with step.IH show ?case by blast
qed

lemma delegation_never_widens_witness:
  "\<exists>su. resolve_scope (Some (sample_actor ''STORES'' [''s1'', ''s2''])) = Inr su \<and>
     {''s2''} \<subseteq> reach (sc_mode su) (sc_allowedStoreIds su)"
proof -
  have a: "assert_can_delegate (sample_actor ''STORES'' [''s1'', ''s2''])
      \<lparr>rs_mode = STORES, rs_storeIds = [''s2'']\<rparr> = Inr ()"
    and b: "resolve_scope (Some (sample_actor ''STORES'' [''s2''])) =
      Inr \<lparr>sc_tenantId = ''t1'', sc_tenantSlug = ''club'', sc_mode = STORES, sc_allowedStoreIds = [''s2'']\<rparr>"
    by code_simp+
  have "delegated (sample_actor ''STORES'' [''s1'', ''s2'']) (sample_actor ''STORES'' [''s2''])"
    unfolding delegated_def
    by (rule exI [of _ "\<lparr>rs_mode = STORES, rs_storeIds = [''s2'']\<rparr>"])
      (simp add: a, simp add: sample_actor_def mode_name_def)
  then have "delegated\<^sup>*\<^sup>* (sample_actor ''STORES'' [''s1'', ''s2'']) (sample_actor ''STORES'' [''s2''])"
    by blast
  from delegation_never_widens [OF this b] show ?thesis by simp
qed

text \<open>
  C16: For a user with a valid scope, asking whether a target is visible always gets an answer, no
  exception escapes, and the answer is exact: a user without any store is visible to network
  users only, every other target exactly when its scope is valid and lies inside the user's.
\<close>

theorem visibility_is_decided:
  assumes "resolve_scope (Some actor) = Inr scope"
  shows "is_visible_target actor target = Inr
    (if rs_mode target = STORES \<and> rs_storeIds target = [] then sc_mode scope = NETWORK
     else (rs_mode target = NETWORK \<longleftrightarrow> rs_storeIds target = []) \<and>
       reach (rs_mode target) (rs_storeIds target) \<subseteq> reach (sc_mode scope) (sc_allowedStoreIds scope))"
proof (cases "rs_mode target = STORES \<and> rs_storeIds target = []")
  case True
  then show ?thesis
    using assms by (simp add: is_visible_target_def assert_can_manage_target_def assert_network_def)
next
  case False
  then have manage: "assert_can_manage_target actor target = assert_can_delegate actor target"
    unfolding assert_can_manage_target_def by (rule if_not_P)
  have "is_visible_target actor target = Inr (assert_can_delegate actor target = Inr ())"
    using assert_can_delegate_error [OF _ assms]
    by (auto simp: is_visible_target_def manage split: sum.splits)
  then show ?thesis
    using False assms assert_can_delegate_iff [of actor target] by auto
qed

lemma visibility_is_decided_witness:
  "is_visible_target (sample_actor ''STORES'' [''s1'']) \<lparr>rs_mode = STORES, rs_storeIds = []\<rparr> = Inr False"
proof -
  have "resolve_scope (Some (sample_actor ''STORES'' [''s1''])) =
      Inr \<lparr>sc_tenantId = ''t1'', sc_tenantSlug = ''club'', sc_mode = STORES, sc_allowedStoreIds = [''s1'']\<rparr>"
    by code_simp
  from visibility_is_decided [OF this, of "\<lparr>rs_mode = STORES, rs_storeIds = []\<rparr>"] show ?thesis by simp
qed

end
