(* ===== verification/Roles_Guard.thy ===== *)
theory Roles_Guard
  imports Auth_User Http_Policy
begin

text \<open>
  \<open>auth/roles.guard.ts\<close>: the second guard of every request. It maps the path and the method to the
  capability the request needs, keeps the shift roles inside their part of the staff section, and
  admits or rejects the request.

  The metadata of \<open>@Roles\<close> on the handler and on its class are the two arguments
  \<open>handler_roles\<close> and \<open>class_roles\<close>. The regular expressions on the path are tests on the path split
  at its slashes, as in \<open>Http_Policy\<close>.
\<close>

section \<open>Constants\<close>

definition staff_attachment_capabilities :: "access_capability list" where
  "staff_attachment_capabilities =
     [view_communications, view_staff_shift_workspace, view_staff_tasks, view_staff_standards,
      view_staff_training, view_staff_knowledge, approve_guest_game_rewards]"

definition langame_integration_management_paths :: "string list" where
  "langame_integration_management_paths =
     [''/integrations/langame/settings'',
      ''/integrations/langame/settings/preview'',
      ''/integrations/langame/onboarding/preview'',
      ''/integrations/langame/onboarding/activate'',
      ''/integrations/langame/onboarding/status'',
      ''/integrations/langame/onboarding/reconcile'',
      ''/integrations/langame/onboarding/initial-sync/preflight'',
      ''/integrations/langame/routes-diagnostics'',
      ''/integrations/langame/service-diagnostics'',
      ''/integrations/langame/endpoint-profile-diagnostics'',
      ''/integrations/langame/endpoint-snapshot'',
      ''/integrations/langame/guests/search-diagnostics'']"

definition langame_sync_paths :: "string list" where
  "langame_sync_paths =
     [''/integrations/langame/business-snapshots/status'',
      ''/integrations/langame/business-snapshots/run'',
      ''/integrations/langame/sync'',
      ''/integrations/langame/guests/foundation/sync'',
      ''/integrations/langame/guests/foundation/sync/start'',
      ''/integrations/langame/guests/foundation/sync/status'']"

definition langame_sync_job_discrepancy_path :: path_pattern where
  "langame_sync_job_discrepancy_path =
     [[Lit ''integrations'', Lit ''langame'', Lit ''sync-jobs'', Any, Lit ''discrepancy-log'']]"

section \<open>Path and method of a request\<close>

definition before_query :: "string \<Rightarrow> string" where
  "before_query s = takeWhile (\<lambda>c. c \<noteq> CHR ''?'') s"

definition guard_normalize_path :: "http_request \<Rightarrow> string" where
  "guard_normalize_path request =
     (let raw = get_or (or_else (r_path request)
                  (or_else (map_option before_query (r_url request))
                     (map_option before_query (r_originalUrl request)))) []
      in if raw = [] then []
         else let p = with_leading_slash raw
              in if 1 < length p \<and> last p = CHR ''/'' then butlast p else p)"

definition guard_method :: "http_request \<Rightarrow> string" where
  "guard_method request = (case r_method request of None \<Rightarrow> ''GET'' | Some m \<Rightarrow> js_upper m)"

definition is_read_method :: "string \<Rightarrow> bool" where
  "is_read_method m \<longleftrightarrow> m = ''GET'' \<or> m = ''HEAD'' \<or> m = ''OPTIONS''"

definition by_method :: "string \<Rightarrow> 'a \<Rightarrow> 'a \<Rightarrow> 'a" where
  "by_method m r w = (if is_read_method m then r else w)"

text \<open>\<open>path.includes(part)\<close>.\<close>

fun js_includes :: "string \<Rightarrow> string \<Rightarrow> bool" where
  "js_includes [] part = (part = [])"
| "js_includes (c # cs) part = (starts_with (c # cs) part \<or> js_includes cs part)"

definition is_shift_staff_role :: "user_role option \<Rightarrow> bool" where
  "is_shift_staff_role role \<longleftrightarrow>
     role = Some SENIOR_ADMINISTRATOR \<or> role = Some CLUB_ADMINISTRATOR \<or> role = Some TRAINEE"

definition is_staff_salary_role :: "user_role option \<Rightarrow> bool" where
  "is_staff_salary_role role \<longleftrightarrow>
     role = Some OWNER \<or> role = Some ADMIN \<or> role = Some MANAGER \<or> role = Some STANDARDS_MANAGER"

definition is_own_discipline_read_path :: "string \<Rightarrow> string \<Rightarrow> bool" where
  "is_own_discipline_read_path path m \<longleftrightarrow> path = ''/staff/discipline/me'' \<and> is_read_method m"

definition is_self_discipline_read_path :: "string \<Rightarrow> string \<Rightarrow> user_role option \<Rightarrow> bool" where
  "is_self_discipline_read_path path m role \<longleftrightarrow>
     (path = ''/staff/discipline'' \<or> path = ''/staff/discipline/me'') \<and> is_read_method m \<and>
     (role = Some SENIOR_ADMINISTRATOR \<or> role = Some CLUB_ADMINISTRATOR)"

section \<open>The capability a request needs\<close>

definition resolve_reports_capability :: "string \<Rightarrow> string \<Rightarrow> access_capability" where
  "resolve_reports_capability path m =
     (if js_includes path ''/export'' \<or> js_includes path ''/email'' \<or> js_includes path ''/digest''
      then export_reports
      else by_method m view_assortment_reports manage_assortment_reports)"

definition resolve_langame_capability :: "string \<Rightarrow> access_capability option" where
  "resolve_langame_capability path =
     (if path \<in> set langame_integration_management_paths then Some manage_integrations
      else if path \<in> set langame_sync_paths \<or> pattern_test langame_sync_job_discrepancy_path path
      then Some run_sync
      else None)"

definition resolve_additional_capabilities :: "http_request \<Rightarrow> access_capability list" where
  "resolve_additional_capabilities request =
     (let path = guard_normalize_path request in
      if guard_method request \<noteq> ''POST'' then []
      else if path = ''/integrations/langame/sync'' then [import_data]
      else if path = ''/integrations/langame/guests/foundation/sync'' \<or>
              path = ''/integrations/langame/guests/foundation/sync/start''
      then [import_guest_foundation]
      else if path = ''/integrations/langame/business-snapshots/run''
      then [manage_assortment_reports]
      else [])"

definition resolve_guest_capability :: "string \<Rightarrow> string \<Rightarrow> access_capability" where
  "resolve_guest_capability path m =
     (if js_includes path ''/export'' then export_guests
      else by_method m view_guests manage_guest_crm)"

definition crm_task_path :: path_pattern where
  "crm_task_path = [[Lit ''guests'', Lit ''crm'', Lit ''tasks'', Any]]"

definition resolve_guest_communications_capability ::
  "string \<Rightarrow> string \<Rightarrow> access_capability option" where
  "resolve_guest_communications_capability path m =
     (if m = ''GET'' \<and>
         path \<in> set [''/guests/crm/tasks'', ''/guests/crm/tasks/report'', ''/guests/crm/tasks/export'',
                 ''/guests/crm/users'', ''/guests/crm/contact-events'']
      then Some view_communications
      else if m = ''POST'' \<and> path \<in> set [''/guests/crm/tasks'', ''/guests/crm/contact-events''] \<or>
              m = ''PATCH'' \<and> pattern_test crm_task_path path
      then Some manage_communications
      else None)"

text \<open>\<open>/^\/staff\/tasks\/[^/]+\/comments(?:\/|$)/\<close>: the first segments of the path.\<close>

definition staff_task_comments_path :: "string \<Rightarrow> bool" where
  "staff_task_comments_path path \<longleftrightarrow>
     (case split_slash path of
        a # b # c # d # e # rest \<Rightarrow>
          a = [] \<and> b = ''staff'' \<and> c = ''tasks'' \<and> d \<noteq> [] \<and> e = ''comments''
      | _ \<Rightarrow> False)"

definition any_prefix :: "string \<Rightarrow> string list \<Rightarrow> bool" where
  "any_prefix path prefixes \<longleftrightarrow> (\<exists>p\<in>set prefixes. starts_with path p)"

definition resolve_staff_capability ::
  "string \<Rightarrow> string \<Rightarrow> user_role option \<Rightarrow> access_capability" where
  "resolve_staff_capability path m role =
     (if any_prefix path [''/staff/team-chat'', ''/staff/notifications'']
      then by_method m view_communications manage_communications
      else if starts_with path ''/staff/shift-workspace'' then view_staff_shift_workspace
      else if starts_with path ''/staff/shift-reports'' then view_staff_shift_workspace
      else if staff_task_comments_path path then view_staff_tasks
      else if any_prefix path [''/staff/tasks'', ''/staff/task-rules'', ''/staff/task-templates'']
      then by_method m view_staff_tasks manage_staff_tasks
      else if starts_with path ''/staff/checklists'' then
        (if \<not> is_read_method m \<and> is_shift_staff_role role then view_staff_standards
         else by_method m view_staff_standards manage_staff_standards)
      else if starts_with path ''/staff/attachments'' then
        (if \<not> is_read_method m \<and> is_shift_staff_role role then view_staff_standards
         else by_method m view_staff_standards manage_staff_standards)
      else if any_prefix path [''/staff/shift-regulations'', ''/staff/checklist-templates'']
      then by_method m view_staff_standards manage_staff_standards
      else if any_prefix path [''/staff/training-courses'', ''/staff/training-profiles'',
                 ''/staff/readiness-report'', ''/staff/onboarding'', ''/staff/assessments'']
      then by_method m view_staff_training manage_staff_training
      else if starts_with path ''/staff/knowledge-base''
      then by_method m view_staff_knowledge edit_staff_knowledge
      else if starts_with path ''/staff/discipline'' then
        (if is_own_discipline_read_path path m \<or> is_self_discipline_read_path path m role
         then view_staff_shift_workspace
         else by_method m view_staff_control manage_staff_control)
      else if any_prefix path [''/staff/operations-dashboard'', ''/staff/administrator-ratings'',
                 ''/staff/ai-assistant'']
      then by_method m view_staff_control manage_staff_control
      else if starts_with path ''/staff/directory''
      then by_method m view_staff_directory manage_staff_directory
      else if starts_with path ''/staff/salary''
      then by_method m view_staff_salary manage_staff_salary
      else view_staff)"

definition resolve_guest_gamification_capability :: "string \<Rightarrow> string \<Rightarrow> access_capability" where
  "resolve_guest_gamification_capability path m =
     (if starts_with path ''/guests/gamification/bonus-ledger''
      then by_method m view_guest_gamification operate_guest_game_ledger
      else if is_read_method m then
        (if starts_with path ''/guests/gamification/rewards/export'' then approve_guest_game_rewards
         else if starts_with path ''/guests/gamification/deliveries/export''
         then approve_guest_game_rewards
         else view_guest_gamification)
      else if any_prefix path [''/guests/gamification/rewards'',
                 ''/guests/gamification/deliveries/prepare'',
                 ''/guests/gamification/deliveries/dispatch'',
                 ''/guests/gamification/deliveries/'']
      then approve_guest_game_rewards
      else if any_prefix path [''/guests/gamification/dry-run'', ''/guests/gamification/facts'']
      then view_guest_gamification
      else manage_guest_game_rules)"

text \<open>\<open>resolveRequiredCapability\<close> on the normalised path and method.\<close>

definition required_capability ::
  "string \<Rightarrow> string \<Rightarrow> user_role option \<Rightarrow> access_capability option" where
  "required_capability path m role =
     (if starts_with path ''/settings'' then Some manage_integrations
      else if starts_with path ''/dashboard'' then Some view_dashboard
      else if starts_with path ''/integrations/langame'' then resolve_langame_capability path
      else if starts_with path ''/imports'' then Some import_data
      else if starts_with path ''/utilities'' then Some use_utilities
      else if starts_with path ''/users'' then Some manage_users
      else if starts_with path ''/reports'' then Some (resolve_reports_capability path m)
      else if starts_with path ''/products''
      then Some (by_method m view_assortment_products edit_products)
      else if starts_with path ''/categories'' \<or> starts_with path ''/suppliers''
      then Some (by_method m view_assortment_catalog edit_catalog)
      else if starts_with path ''/stores''
      then Some (by_method m view_assortment_stores edit_stores)
      else if starts_with path ''/guests/gamification''
      then Some (resolve_guest_gamification_capability path m)
      else if starts_with path ''/guests/staff-control''
      then Some (by_method m view_staff_control manage_staff_control)
      else case resolve_guest_communications_capability path m of
        Some c \<Rightarrow> Some c
      | None \<Rightarrow>
          if starts_with path ''/guests'' then Some (resolve_guest_capability path m)
          else if starts_with path ''/marketing''
          then Some (by_method m view_marketing manage_marketing)
          else if starts_with path ''/support/bug-reports''
          then Some (by_method m view_support_tickets manage_support_tickets)
          else if starts_with path ''/staff/team-chat'' \<or> starts_with path ''/staff/notifications''
          then Some (by_method m view_communications manage_communications)
          else if starts_with path ''/staff'' then Some (resolve_staff_capability path m role)
          else None)"

definition resolve_required_capability ::
  "http_request \<Rightarrow> user_role option \<Rightarrow> access_capability option" where
  "resolve_required_capability request role =
     required_capability (guard_normalize_path request) (guard_method request) role"

section \<open>Special paths\<close>

definition is_gamification_approval_chat_access :: "http_request \<Rightarrow> bool" where
  "is_gamification_approval_chat_access request \<longleftrightarrow>
     (let path = guard_normalize_path request; m = guard_method request in
      if m = ''GET'' then path = ''/staff/team-chat'' \<or> path = ''/staff/team-chat/events''
      else m = ''POST'' \<and> path = ''/staff/team-chat/read'')"

definition is_staff_salary_path :: "http_request \<Rightarrow> bool" where
  "is_staff_salary_path request \<longleftrightarrow> starts_with (guard_normalize_path request) ''/staff/salary''"

definition is_staff_attachment_path :: "http_request \<Rightarrow> bool" where
  "is_staff_attachment_path request \<longleftrightarrow>
     starts_with (guard_normalize_path request) ''/staff/attachments''"

definition is_integration_path :: "http_request \<Rightarrow> bool" where
  "is_integration_path request \<longleftrightarrow>
     (let path = guard_normalize_path request in
      path = ''/integrations'' \<or> starts_with path ''/integrations/'')"

definition is_user_access_path :: "http_request \<Rightarrow> bool" where
  "is_user_access_path request \<longleftrightarrow> starts_with (guard_normalize_path request) ''/users''"

definition denied_shift_prefixes :: "string list" where
  "denied_shift_prefixes =
     [''/staff/checklists/report'', ''/staff/task-templates'', ''/staff/training-profiles'',
      ''/staff/readiness-report'', ''/staff/operations-dashboard'',
      ''/staff/administrator-ratings'', ''/staff/discipline'', ''/staff/salary'',
      ''/staff/directory'', ''/staff/onboarding'', ''/staff/ai-assistant'']"

definition allowed_shift_prefixes :: "string list" where
  "allowed_shift_prefixes =
     [''/staff/tasks'', ''/staff/task-rules'', ''/staff/shift-regulations'', ''/staff/checklists'',
      ''/staff/checklist-templates'', ''/staff/training-courses'', ''/staff/assessments'',
      ''/staff/knowledge-base'', ''/staff/shift-workspace'', ''/staff/shift-reports'',
      ''/staff/team-chat'', ''/staff/notifications'', ''/staff/attachments'']"

definition is_restricted_shift_staff_path :: "http_request \<Rightarrow> user_role \<Rightarrow> bool" where
  "is_restricted_shift_staff_path request role \<longleftrightarrow>
     (if role \<noteq> SENIOR_ADMINISTRATOR \<and> role \<noteq> CLUB_ADMINISTRATOR \<and> role \<noteq> TRAINEE then False
      else let path = guard_normalize_path request; m = guard_method request in
        if \<not> starts_with path ''/staff'' then False
        else if starts_with path ''/staff/checklist-templates'' then \<not> is_read_method m
        else if starts_with path ''/staff/discipline''
        then \<not> is_self_discipline_read_path path m (Some role)
        else if any_prefix path denied_shift_prefixes then True
        else \<not> any_prefix path allowed_shift_prefixes)"

section \<open>The guard\<close>

datatype forbidden = INSUFFICIENT_ROLE_PERMISSIONS

abbreviation rejected :: "forbidden + unit" where
  "rejected \<equiv> Inl INSUFFICIENT_ROLE_PERMISSIONS"

abbreviation admitted :: "forbidden + unit" where
  "admitted \<equiv> Inr ()"

definition must_use_capability_decision :: "authenticated_user option \<Rightarrow> bool" where
  "must_use_capability_decision user \<longleftrightarrow>
     (case user of None \<Rightarrow> False
      | Some u \<Rightarrow> get_or (au_customRoleId u) [] \<noteq> [] \<or> get_or (au_hasRoleOverride u) False \<or>
          au_role u = TRAINEE)"

text \<open>\<open>role && roles.includes(role)\<close>.\<close>

definition role_in :: "user_role option \<Rightarrow> user_role list \<Rightarrow> bool" where
  "role_in role roles \<longleftrightarrow> (case role of None \<Rightarrow> False | Some r \<Rightarrow> r \<in> set roles)"

text \<open>The part of \<open>canActivate\<close> after the special paths.\<close>

definition decide_by_capability ::
  "user_role list \<Rightarrow> user_role list option \<Rightarrow> http_request \<Rightarrow> authenticated_user option \<Rightarrow>
   forbidden + unit" where
  "decide_by_capability allowed_roles handler_roles request user =
     (let role = role_of user;
          capability = resolve_required_capability request role;
          additional = resolve_additional_capabilities request
      in if is_integration_path request \<and> capability = None then rejected
         else case capability of
           Some c \<Rightarrow>
             (let role_allows = must_use_capability_decision user \<or> get_or handler_roles [] = [] \<or>
                    role_in role (get_or handler_roles [])
              in if role_allows \<and> has_capability (permissions_of user) c \<and>
                    list_all (has_capability (permissions_of user)) additional
                 then admitted else rejected)
         | None \<Rightarrow>
             (if role_in role allowed_roles \<and> \<not> must_use_capability_decision user
              then admitted else rejected))"

definition roles_can_activate ::
  "user_role list option \<Rightarrow> user_role list option \<Rightarrow> http_request \<Rightarrow> authenticated_user option \<Rightarrow>
   forbidden + unit" where
  "roles_can_activate handler_roles class_roles request user =
     (let allowed_roles = get_or (or_else handler_roles class_roles) [];
          role = role_of user
      in if allowed_roles = [] then admitted
         else if (case role of None \<Rightarrow> False | Some r \<Rightarrow> is_restricted_shift_staff_path request r)
         then rejected
         else if is_staff_salary_path request \<and> \<not> is_staff_salary_role role then rejected
         else if is_user_access_path request then
           (if role_in role allowed_roles \<and>
               has_capability (permissions_of user) manage_users
            then admitted else rejected)
         else if is_gamification_approval_chat_access request \<and>
                 has_capability (permissions_of user) approve_guest_game_rewards
         then admitted
         else if is_staff_attachment_path request then
           (if has_any_capability (permissions_of user) staff_attachment_capabilities
            then admitted else rejected)
         else decide_by_capability allowed_roles handler_roles request user)"

section \<open>Facts about paths\<close>

lemma starts_with_iff: "starts_with s p \<longleftrightarrow> (\<exists>rest. s = p @ rest)"
proof
  assume "starts_with s p"
  then have "s = p @ drop (length p) s"
    unfolding starts_with_def by (metis append_take_drop_id)
  then show "\<exists>rest. s = p @ rest" ..
qed (auto simp: starts_with_def)

lemma starts_with_simps [simp]:
  "starts_with s []"
  "\<not> starts_with [] (d # p)"
  "starts_with (c # s) (d # p) \<longleftrightarrow> c = d \<and> starts_with s p"
  by (auto simp: starts_with_def)

lemma starts_with_trans: "starts_with s p \<Longrightarrow> starts_with p q \<Longrightarrow> starts_with s q"
  by (auto simp: starts_with_iff)

lemma by_method_simps:
  "is_read_method m \<Longrightarrow> by_method m r w = r"
  "\<not> is_read_method m \<Longrightarrow> by_method m r w = w"
  by (simp_all add: by_method_def)

lemma view_capabilities:
  "\<not> is_view manage_integrations" "\<not> is_view import_data" "\<not> is_view use_utilities"
  "\<not> is_view manage_users" "\<not> is_view export_reports" "\<not> is_view manage_assortment_reports"
  "\<not> is_view edit_products" "\<not> is_view edit_catalog" "\<not> is_view edit_stores"
  "\<not> is_view operate_guest_game_ledger" "\<not> is_view approve_guest_game_rewards"
  "\<not> is_view manage_guest_game_rules" "\<not> is_view manage_staff_control"
  "\<not> is_view manage_communications" "\<not> is_view export_guests" "\<not> is_view manage_guest_crm"
  "\<not> is_view manage_marketing" "\<not> is_view manage_support_tickets" "\<not> is_view run_sync"
  "\<not> is_view manage_staff_salary"
  by (simp_all add: is_view_def)

section \<open>What an admitted request has shown\<close>

text \<open>The paths on which a request that is not a read is let through by a \<open>view_\<close> capability.\<close>

definition write_by_view_prefixes :: "string list" where
  "write_by_view_prefixes =
     [''/dashboard'', ''/guests/gamification/dry-run'', ''/guests/gamification/facts'', ''/staff'']"

text \<open>The capability, if there is one, is not a \<open>view_\<close> capability.\<close>

definition needs_change :: "access_capability option \<Rightarrow> bool" where
  "needs_change capability \<longleftrightarrow> (\<forall>c. capability = Some c \<longrightarrow> \<not> is_view c)"

lemma needs_change_simps [simp]:
  "needs_change None" "needs_change (Some c) \<longleftrightarrow> \<not> is_view c"
  by (simp_all add: needs_change_def)

lemma needs_change_if [intro]:
  "(b \<Longrightarrow> needs_change x) \<Longrightarrow> (\<not> b \<Longrightarrow> needs_change y) \<Longrightarrow> needs_change (if b then x else y)"
  by simp

lemma needs_change_case [intro]:
  "needs_change x \<Longrightarrow> (x = None \<Longrightarrow> needs_change y) \<Longrightarrow>
   needs_change (case x of Some c \<Rightarrow> Some c | None \<Rightarrow> y)"
  by (cases x) simp_all

lemma communications_write:
  "\<not> is_read_method m \<Longrightarrow> needs_change (resolve_guest_communications_capability path m)"
  by (auto simp: resolve_guest_communications_capability_def is_read_method_def view_capabilities)

lemma langame_change: "needs_change (resolve_langame_capability path)"
  by (simp add: resolve_langame_capability_def view_capabilities)

lemma gamification_write:
  "\<not> is_read_method m \<Longrightarrow> \<not> starts_with path ''/guests/gamification/dry-run'' \<Longrightarrow>
   \<not> starts_with path ''/guests/gamification/facts'' \<Longrightarrow>
   \<not> is_view (resolve_guest_gamification_capability path m)"
  by (simp add: resolve_guest_gamification_capability_def by_method_simps view_capabilities
      any_prefix_def)

lemma reports_write: "\<not> is_read_method m \<Longrightarrow> \<not> is_view (resolve_reports_capability path m)"
  by (simp add: resolve_reports_capability_def by_method_simps view_capabilities)

lemma guest_write: "\<not> is_read_method m \<Longrightarrow> \<not> is_view (resolve_guest_capability path m)"
  by (simp add: resolve_guest_capability_def by_method_simps view_capabilities)

lemma required_for_write:
  assumes "\<not> is_read_method m" and "\<not> any_prefix path write_by_view_prefixes"
  shows "needs_change (required_capability path m role)"
proof -
  have outside: "\<not> starts_with path ''/dashboard''" "\<not> starts_with path ''/staff''"
    "\<not> starts_with path ''/guests/gamification/dry-run''"
    "\<not> starts_with path ''/guests/gamification/facts''"
    using assms(2) by (simp_all add: any_prefix_def write_by_view_prefixes_def)
  show ?thesis
    unfolding required_capability_def
    by (intro needs_change_if needs_change_case communications_write langame_change)
      (simp_all add: assms(1) outside view_capabilities by_method_simps gamification_write
        reports_write guest_write del: not_None_eq)
qed

lemma required_on_users:
  assumes "starts_with path ''/users''"
  shows "required_capability path m role = Some manage_users"
proof -
  obtain rest where "path = ''/users'' @ rest"
    using assms starts_with_iff by blast
  then show ?thesis by (simp add: required_capability_def)
qed

lemma required_on_salary:
  assumes "starts_with path ''/staff/salary''"
  shows "required_capability path m role = Some (by_method m view_staff_salary manage_staff_salary)"
proof -
  obtain rest where path: "path = ''/staff/salary'' @ rest"
    using assms starts_with_iff by blast
  have "\<not> pattern_test crm_task_path path"
    by (auto simp: path pattern_test_def crm_task_path_def split: list.splits)
  moreover have "\<not> staff_task_comments_path path"
    by (auto simp: path staff_task_comments_path_def split: list.splits)
  ultimately show ?thesis
    by (simp add: path required_capability_def resolve_guest_communications_capability_def
        resolve_staff_capability_def any_prefix_def)
qed

lemma required_on_integrations:
  assumes "is_integration_path request"
  shows "resolve_required_capability request role = resolve_langame_capability (guard_normalize_path request)
    \<or> resolve_required_capability request role = None"
proof -
  define path where "path = guard_normalize_path request"
  consider (root) "path = ''/integrations''" | (below) rest where "path = ''/integrations/'' @ rest"
    using assms starts_with_iff [of path "''/integrations/''"]
    by (auto simp: is_integration_path_def Let_def path_def)
  then show ?thesis
  proof cases
    case root
    then show ?thesis
      by (simp add: resolve_required_capability_def required_capability_def path_def [symmetric]
          resolve_guest_communications_capability_def pattern_test_def crm_task_path_def)
  next
    case below
    then have "\<not> pattern_test crm_task_path path"
      by (auto simp: pattern_test_def crm_task_path_def split: list.splits)
    with below show ?thesis
      by (simp add: resolve_required_capability_def required_capability_def path_def [symmetric]
          resolve_guest_communications_capability_def)
  qed
qed

section \<open>The cases of an admission\<close>

lemma decide_by_capability_admitted:
  "decide_by_capability allowed_roles handler_roles request user = admitted \<longleftrightarrow>
     (case resolve_required_capability request (role_of user) of
        None \<Rightarrow> \<not> is_integration_path request \<and> \<not> must_use_capability_decision user \<and>
          role_in (role_of user) allowed_roles
      | Some c \<Rightarrow>
          (must_use_capability_decision user \<or> get_or handler_roles [] = [] \<or>
             role_in (role_of user) (get_or handler_roles [])) \<and>
          has_capability (permissions_of user) c \<and>
          list_all (has_capability (permissions_of user)) (resolve_additional_capabilities request))"
  by (cases "resolve_required_capability request (role_of user)")
    (auto simp: decide_by_capability_def Let_def)

lemma admitted_cases:
  assumes "roles_can_activate handler_roles class_roles request user = admitted"
    and "get_or (or_else handler_roles class_roles) [] \<noteq> []"
  obtains (users) "is_user_access_path request"
      "has_capability (permissions_of user) manage_users"
    | (chat) "is_gamification_approval_chat_access request"
    | (attachments) "is_staff_attachment_path request"
      "has_any_capability (permissions_of user) staff_attachment_capabilities"
    | (decided) "decide_by_capability (get_or (or_else handler_roles class_roles) []) handler_roles
        request user = admitted"
  using assms by (auto simp: roles_can_activate_def Let_def split: if_splits)

lemma admitted_not_restricted:
  assumes "roles_can_activate handler_roles class_roles request (Some u) = admitted"
    and "get_or (or_else handler_roles class_roles) [] \<noteq> []"
  shows "\<not> is_restricted_shift_staff_path request (au_role u)"
    and "is_staff_salary_path request \<Longrightarrow> is_staff_salary_role (Some (au_role u))"
  using assms by (auto simp: roles_can_activate_def Let_def split: if_splits)

lemma chat_path_staff:
  "is_gamification_approval_chat_access request \<Longrightarrow> starts_with (guard_normalize_path request) ''/staff/team-chat''"
  by (auto simp: is_gamification_approval_chat_access_def Let_def split: if_splits)

lemma staff_is_write_by_view: "starts_with path ''/staff'' \<Longrightarrow> any_prefix path write_by_view_prefixes"
  by (simp add: any_prefix_def write_by_view_prefixes_def)

lemma admitted_write_has_capability:
  assumes "roles_can_activate handler_roles class_roles request (Some u) = admitted"
    and "get_or (or_else handler_roles class_roles) [] \<noteq> []"
    and "\<not> is_read_method (guard_method request)"
    and "\<not> any_prefix (guard_normalize_path request) write_by_view_prefixes"
    and "resolve_required_capability request (Some (au_role u)) = Some c"
  shows "has_capability (au_permissions u) c" and "\<not> is_view c"
proof -
  show "\<not> is_view c"
    using required_for_write [OF assms(3,4)] assms(5)
    by (auto simp: resolve_required_capability_def needs_change_def)
  show "has_capability (au_permissions u) c"
    using assms(1,2)
  proof (cases rule: admitted_cases)
    case users
    then show ?thesis
      using assms(5) by (simp add: is_user_access_path_def resolve_required_capability_def required_on_users)
  next
    case chat
    have "starts_with ''/staff/team-chat'' ''/staff''" by simp
    with chat assms(4) show ?thesis
      by (meson chat_path_staff staff_is_write_by_view starts_with_trans)
  next
    case attachments
    have "starts_with ''/staff/attachments'' ''/staff''" by simp
    with attachments assms(4) show ?thesis
      unfolding is_staff_attachment_path_def
      by (meson staff_is_write_by_view starts_with_trans)
  next
    case decided
    then show ?thesis
      using assms(5) by (simp add: decide_by_capability_admitted)
  qed
qed

text \<open>
  A request that changes something needs the right to change something. When the guard admits a
  request whose method is not a read, on a path for which a capability is defined and which is
  outside the staff section, the dashboard and the two simulation routes of the gamification, then
  that capability is not a \<open>view_\<close> capability and it has been granted to the user: by the role, or by
  the minimum of the role and the permissions stored for the custom role or role override that
  replace it. No looser match of capabilities, and no list of roles on the handler, stands in for it.
\<close>

theorem writes_need_a_granted_capability:
  assumes "roles_can_activate handler_roles class_roles request (Some u) = admitted"
    and "get_or (or_else handler_roles class_roles) [] \<noteq> []"
    and "\<not> is_read_method (guard_method request)"
    and "\<not> any_prefix (guard_normalize_path request) write_by_view_prefixes"
    and "resolve_required_capability request (Some (au_role u)) = Some c"
    and "au_permissions u = Some (resolve_user_capabilities (au_role u) custom role_override)"
  shows "\<not> is_view c \<and>
    (case or_else custom role_override of
       None \<Rightarrow> c \<in> set (role_capabilities (au_role u))
     | Some permissions \<Rightarrow>
         c \<in> set (minimum_role_capabilities (au_role u)) \<or> capability_key c \<in> set permissions)"
  using write_capability_own [of _ c] admitted_write_has_capability [OF assms(1-5)] assms(6)
  by (fastforce simp: set_resolve_user_capabilities split: option.splits)

definition sample_user :: authenticated_user where
  "sample_user =
     \<lparr>au_id = ''u1'', au_email = ''u1@club'', au_fullName = None, au_role = BUYER,
      au_customRoleId = None, au_customRoleName = None, au_hasRoleOverride = Some False,
      au_permissions = Some (resolve_user_capabilities BUYER None None), au_isActive = Some True,
      au_isPlatformAdmin = False, au_platformTenantContext = Some False, au_tenantId = ''t1'',
      au_tenantSlug = ''club'', au_tenantStatus = Some LC_ACTIVE, au_tenantCustomerStage = Some BETA,
      au_tenantOnboardingStatus = Some OB_ACTIVE, au_tenantTrialStartsAt = None,
      au_tenantTrialEndsAt = None, au_tenantEntitlementProfileRevision = Some 1,
      au_accessScope = Some ''NETWORK'', au_allowedStoreIds = []\<rparr>"

definition sample_request :: "string \<Rightarrow> string \<Rightarrow> http_request" where
  "sample_request m path =
     \<lparr>r_method = Some m, r_path = Some path, r_originalUrl = None, r_url = None\<rparr>"

lemma sample_request_simps:
  "guard_method (sample_request m path) = js_upper m"
  "guard_normalize_path (sample_request m path) =
     (if path = [] then [] else let p = with_leading_slash path
              in if 1 < length p \<and> last p = CHR ''/'' then butlast p else p)"
  by (simp_all add: guard_method_def guard_normalize_path_def sample_request_def)

lemma writes_need_a_granted_capability_witness:
  "\<not> is_view edit_products \<and> edit_products \<in> set (role_capabilities BUYER)"
proof -
  have a: "roles_can_activate None (Some [OWNER, BUYER]) (sample_request ''patch'' ''/products/7'') (Some sample_user)
      = admitted"
    and b: "resolve_required_capability (sample_request ''patch'' ''/products/7'') (Some BUYER) = Some edit_products"
    and c: "\<not> is_read_method (guard_method (sample_request ''patch'' ''/products/7''))"
    and d: "\<not> any_prefix (guard_normalize_path (sample_request ''patch'' ''/products/7'')) write_by_view_prefixes"
    by code_simp+
  show ?thesis
    using writes_need_a_granted_capability [OF a _ c d, of edit_products None None] b
    by (simp add: sample_user_def)
qed

text \<open>
  C19: The shift roles stay in their part of the staff section. Whatever capabilities, custom role or
  role override a senior administrator, a club administrator or a trainee has, and whatever roles the
  handler names, an admitted request under \<open>/staff\<close> goes to one of the shift sections and to none of
  the reserved ones (salary, directory, onboarding, readiness report, dashboards, task templates,
  the checklist report, the assistant), or it reads the discipline records as an administrator; and it
  never changes a checklist template.
\<close>

theorem shift_roles_confined:
  assumes "roles_can_activate handler_roles class_roles request (Some u) = admitted"
    and "get_or (or_else handler_roles class_roles) [] \<noteq> []"
    and "is_shift_staff_role (Some (au_role u))"
    and "starts_with (guard_normalize_path request) ''/staff''"
  shows "(any_prefix (guard_normalize_path request) allowed_shift_prefixes \<and>
      \<not> any_prefix (guard_normalize_path request) denied_shift_prefixes \<and>
      (starts_with (guard_normalize_path request) ''/staff/checklist-templates'' \<longrightarrow>
         is_read_method (guard_method request))) \<or>
    (guard_normalize_path request \<in> {''/staff/discipline'', ''/staff/discipline/me''} \<and>
     is_read_method (guard_method request) \<and> au_role u \<noteq> TRAINEE)"
proof -
  let ?p = "guard_normalize_path request" and ?m = "guard_method request"
  have free: "\<not> is_restricted_shift_staff_path request (au_role u)"
    using assms(1,2) by (rule admitted_not_restricted)
  have shift: "au_role u = SENIOR_ADMINISTRATOR \<or> au_role u = CLUB_ADMINISTRATOR \<or> au_role u = TRAINEE"
    using assms(3) by (simp add: is_shift_staff_role_def)
  consider (templates) "starts_with ?p ''/staff/checklist-templates''" "is_read_method ?m"
    | (discipline) "is_self_discipline_read_path ?p ?m (Some (au_role u))"
    | (inside) "\<not> starts_with ?p ''/staff/checklist-templates''"
        "\<not> any_prefix ?p denied_shift_prefixes" "any_prefix ?p allowed_shift_prefixes"
  proof -
    have "if starts_with ?p ''/staff/checklist-templates'' then is_read_method ?m
      else if starts_with ?p ''/staff/discipline''
      then is_self_discipline_read_path ?p ?m (Some (au_role u))
      else \<not> any_prefix ?p denied_shift_prefixes \<and> any_prefix ?p allowed_shift_prefixes"
      using free shift assms(4) unfolding is_restricted_shift_staff_path_def Let_def
      by (auto split: if_splits)
    then show ?thesis
      using that by (simp split: if_splits)
  qed
  then show ?thesis
  proof cases
    case templates
    then obtain rest where "?p = ''/staff/checklist-templates'' @ rest"
      using starts_with_iff by blast
    with templates(2) show ?thesis
      by (simp add: any_prefix_def allowed_shift_prefixes_def denied_shift_prefixes_def)
  next
    case discipline
    then show ?thesis by (auto simp: is_self_discipline_read_path_def)
  next
    case inside
    then show ?thesis by simp
  qed
qed

lemma shift_roles_confined_witness:
  "any_prefix ''/staff/tasks/5'' allowed_shift_prefixes \<and>
   \<not> any_prefix ''/staff/tasks/5'' denied_shift_prefixes"
proof -
  let ?r = "sample_request ''PATCH'' ''/staff/tasks/5''"
  let ?u = "sample_user\<lparr>au_role := CLUB_ADMINISTRATOR,
    au_permissions := Some (role_capabilities CLUB_ADMINISTRATOR)\<rparr>"
  have a: "roles_can_activate None (Some [CLUB_ADMINISTRATOR]) ?r (Some ?u) = admitted"
    and b: "guard_normalize_path ?r = ''/staff/tasks/5''"
    by code_simp+
  have "starts_with (guard_normalize_path ?r) ''/staff''" by (simp add: b)
  with shift_roles_confined [OF a] b show ?thesis
    by (simp add: is_shift_staff_role_def)
qed

text \<open>
  Salaries are reachable for the four leading roles only, and only with the salary capability.
  A request that changes salary data needs \<open>manage_staff_salary\<close> itself.
\<close>

theorem salary_needs_role_and_capability:
  assumes "roles_can_activate handler_roles class_roles request (Some u) = admitted"
    and "get_or (or_else handler_roles class_roles) [] \<noteq> []"
    and "starts_with (guard_normalize_path request) ''/staff/salary''"
  shows "au_role u \<in> {OWNER, ADMIN, MANAGER, STANDARDS_MANAGER} \<and>
    has_capability (au_permissions u) view_staff_salary \<and>
    (is_read_method (guard_method request) \<or>
     (\<exists>ps. au_permissions u = Some ps \<and> manage_staff_salary \<in> set ps))"
proof -
  let ?p = "guard_normalize_path request" and ?m = "guard_method request"
  have role: "au_role u \<in> {OWNER, ADMIN, MANAGER, STANDARDS_MANAGER}"
    using admitted_not_restricted(2) [OF assms(1,2)] assms(3)
    by (auto simp: is_staff_salary_path_def is_staff_salary_role_def)
  obtain rest where path: "?p = ''/staff/salary'' @ rest"
    using assms(3) starts_with_iff by blast
  have "has_capability (au_permissions u) (by_method ?m view_staff_salary manage_staff_salary)"
    using assms(1,2)
  proof (cases rule: admitted_cases)
    case users
    then show ?thesis by (simp add: is_user_access_path_def path)
  next
    case chat
    then have "starts_with ?p ''/staff/team-chat''" by (rule chat_path_staff)
    then show ?thesis by (simp add: path)
  next
    case attachments
    then show ?thesis by (simp add: is_staff_attachment_path_def path)
  next
    case decided
    then show ?thesis
      by (simp add: decide_by_capability_admitted resolve_required_capability_def
          required_on_salary [OF assms(3)])
  qed
  moreover have "capability_matches manage_staff_salary view_staff_salary"
    by (simp add: capability_matches_def requested_capability_alternatives_def)
  ultimately show ?thesis
    using role write_capability_own [of _ manage_staff_salary] view_capabilities
    by (cases "au_permissions u"; cases "is_read_method ?m")
      (auto simp: by_method_simps has_capability_Some)
qed

lemma salary_needs_role_and_capability_witness:
  "has_capability (Some (role_capabilities MANAGER)) view_staff_salary"
proof -
  let ?r = "sample_request ''GET'' ''/staff/salary/report''"
  let ?u = "sample_user\<lparr>au_role := MANAGER, au_permissions := Some (role_capabilities MANAGER)\<rparr>"
  have a: "roles_can_activate (Some [MANAGER]) None ?r (Some ?u) = admitted"
    and b: "starts_with (guard_normalize_path ?r) ''/staff/salary''"
    by code_simp+
  from salary_needs_role_and_capability [OF a _ b] show ?thesis by simp
qed

text \<open>
  Integration routes are closed by default. A guarded request under \<open>/integrations\<close> is admitted
  only on one of the listed paths: on a management path with \<open>manage_integrations\<close>, on a
  synchronisation path with \<open>run_sync\<close> granted itself, and a POST that starts a synchronisation also
  needs the capability for what it imports. Every other integration path is rejected for every user.
\<close>

theorem integration_routes_closed_by_default:
  assumes "roles_can_activate handler_roles class_roles request (Some u) = admitted"
    and "get_or (or_else handler_roles class_roles) [] \<noteq> []"
    and "is_integration_path request"
  shows "\<exists>ps. au_permissions u = Some ps \<and>
    (guard_normalize_path request \<in> set langame_integration_management_paths \<and>
       manage_integrations \<in> set ps \<or>
     (guard_normalize_path request \<in> set langame_sync_paths \<or>
      pattern_test langame_sync_job_discrepancy_path (guard_normalize_path request)) \<and>
       run_sync \<in> set ps) \<and>
    set (resolve_additional_capabilities request) \<subseteq> set ps"
proof -
  let ?p = "guard_normalize_path request"
  have start: "starts_with ?p ''/integrations''"
    using assms(3) starts_with_iff [of ?p "''/integrations/''"]
    by (auto simp: is_integration_path_def Let_def)
  then obtain rest where path: "?p = ''/integrations'' @ rest"
    using starts_with_iff by blast
  have additional: "c \<in> set (resolve_additional_capabilities request) \<Longrightarrow> \<not> is_view c" for c
    by (auto simp: resolve_additional_capabilities_def Let_def is_view_def split: if_splits)
  from assms(1,2) show ?thesis
  proof (cases rule: admitted_cases)
    case users
    then show ?thesis by (simp add: is_user_access_path_def path)
  next
    case chat
    then have "starts_with ?p ''/staff/team-chat''" by (rule chat_path_staff)
    then show ?thesis by (simp add: path)
  next
    case attachments
    then show ?thesis by (simp add: is_staff_attachment_path_def path)
  next
    case decided
    then obtain c ps where c: "resolve_langame_capability ?p = Some c" "au_permissions u = Some ps"
        "has_capability (Some ps) c"
        "list_all (has_capability (Some ps)) (resolve_additional_capabilities request)"
      using required_on_integrations [OF assms(3), of "Some (au_role u)"] assms(3)
      by (cases "au_permissions u"; cases "resolve_langame_capability ?p")
        (auto simp: decide_by_capability_admitted split: option.splits)
    then have "c \<in> set ps"
      using langame_change [of ?p] write_capability_own by (auto simp: needs_change_def)
    moreover have "set (resolve_additional_capabilities request) \<subseteq> set ps"
      using c(4) additional write_capability_own by (auto simp: list_all_iff)
    ultimately show ?thesis
      using c(1,2) by (auto simp: resolve_langame_capability_def split: if_splits)
  qed
qed

lemma integration_routes_closed_by_default_witness:
  "\<exists>ps. Some (role_capabilities OWNER) = Some ps \<and> run_sync \<in> set ps \<and> import_data \<in> set ps"
proof -
  let ?r = "sample_request ''POST'' ''/integrations/langame/sync''"
  let ?u = "sample_user\<lparr>au_role := OWNER, au_permissions := Some (role_capabilities OWNER)\<rparr>"
  have a: "roles_can_activate (Some [OWNER]) None ?r (Some ?u) = admitted"
    and b: "is_integration_path ?r"
    and c: "resolve_additional_capabilities ?r = [import_data]"
    and d: "guard_normalize_path ?r \<notin> set langame_integration_management_paths"
    by code_simp+
  from integration_routes_closed_by_default [OF a _ b] c d show ?thesis by simp
qed

lemma has_any_capability_mono:
  "has_any_capability (Some ps) cs \<Longrightarrow> set ps \<subseteq> set qs \<Longrightarrow> has_any_capability (Some qs) cs"
  unfolding has_any_capability_def by (blast intro: has_capability_mono)

text \<open>
  Permissions are monotone: a user who is given more permissions, all else unchanged, is still
  admitted to every request that was admitted before.
\<close>

theorem roles_guard_monotone:
  assumes "roles_can_activate handler_roles class_roles request
      (Some (u\<lparr>au_permissions := Some ps\<rparr>)) = admitted"
    and "set ps \<subseteq> set qs"
  shows "roles_can_activate handler_roles class_roles request
      (Some (u\<lparr>au_permissions := Some qs\<rparr>)) = admitted"
proof -
  have must: "must_use_capability_decision (Some (u\<lparr>au_permissions := Some p\<rparr>)) =
      must_use_capability_decision (Some u)" for p
    by (simp add: must_use_capability_decision_def)
  have more: "has_capability (Some ps) c \<Longrightarrow> has_capability (Some qs) c" for c
    using has_capability_mono [OF _ assms(2)] by blast
  have decide: "decide_by_capability roles handler_roles request (Some (u\<lparr>au_permissions := Some qs\<rparr>)) = admitted"
    if "decide_by_capability roles handler_roles request (Some (u\<lparr>au_permissions := Some ps\<rparr>)) = admitted"
    for roles
    using that more by (auto simp: decide_by_capability_admitted must list_all_iff split: option.splits)
  show ?thesis
    using assms(1) more has_any_capability_mono [OF _ assms(2)] decide
    by (auto simp: roles_can_activate_def Let_def split: if_splits)
qed

lemma roles_guard_monotone_witness:
  "roles_can_activate None (Some [BUYER]) (sample_request ''GET'' ''/products'')
     (Some (sample_user\<lparr>au_permissions := Some [view_guests, edit_products]\<rparr>)) = admitted"
proof -
  have "roles_can_activate None (Some [BUYER]) (sample_request ''GET'' ''/products'')
     (Some (sample_user\<lparr>au_permissions := Some [edit_products]\<rparr>)) = admitted"
    by code_simp
  then show ?thesis
    by (rule roles_guard_monotone) simp
qed

end
