(* ===== verification/Jwt_Guard.thy ===== *)
theory Jwt_Guard
  imports Access_Scope Roles_Guard
begin

text \<open>
  \<open>auth/jwt-auth.guard.ts\<close>: the first guard of every request. It takes the bearer token, verifies it,
  reads the account, its tenant, role and store accesses from the database, builds the authenticated
  user, and asks the execution policy for every module the request needs.

  Parameters stand for what is not in the repository: \<open>verify\<close> is \<open>JwtService.verifyAsync\<close> (\<open>None\<close>
  when it rejects the token), \<open>clock i\<close> is the \<open>i\<close>-th reading of the clock during the request. The
  database is \<open>auth_db\<close>: users by id, tenants by id, role overrides by tenant and role; a user row
  comes with its custom role and its store accesses, as the query joins them. Every error inside
  \<open>verifyToken\<close> is caught and answered as an invalid token; the warning of the shadow mode is log
  output and left out.
\<close>

section \<open>The database\<close>

record custom_role =
  cr_id :: string
  cr_name :: string
  cr_permissions :: "string list"

record user_row =
  ur_id :: string
  ur_email :: string
  ur_fullName :: "string option"
  ur_role :: user_role
  ur_customRoleId :: "string option"
  ur_customRole :: "custom_role option"
  ur_accessScope :: "string option"
  ur_isActive :: bool
  ur_isPlatformAdmin :: bool
  ur_tenantId :: string
  ur_storeAccesses :: "persisted_access list"

record auth_db =
  db_users :: "string \<Rightarrow> user_row option"
  db_tenants :: "string \<Rightarrow> subject option"
  db_overrides :: "string \<Rightarrow> user_role \<Rightarrow> string list option"

definition row_subject :: "user_row \<Rightarrow> persisted_subject" where
  "row_subject row =
     \<lparr>ps_tenantId = ur_tenantId row, ps_accessScope = ur_accessScope row,
      ps_storeAccesses = ur_storeAccesses row\<rparr>"

text \<open>The role override is looked up only for a user without a custom role.\<close>

definition row_override :: "auth_db \<Rightarrow> user_row \<Rightarrow> string list option" where
  "row_override db row =
     (case ur_customRole row of
        Some _ \<Rightarrow> None | None \<Rightarrow> db_overrides db (ur_tenantId row) (ur_role row))"

definition row_capabilities :: "auth_db \<Rightarrow> user_row \<Rightarrow> access_capability list" where
  "row_capabilities db row =
     resolve_user_capabilities (ur_role row) (map_option cr_permissions (ur_customRole row))
       (row_override db row)"

section \<open>Configuration\<close>

datatype enforcement_mode = SHADOW | ENFORCED

text \<open>\<open>resolveAccessScopeEnforcementMode\<close>; \<open>None\<close> is the error it throws.\<close>

definition string_value :: "js_value \<Rightarrow> string" where
  "string_value v = (case v of JStr s \<Rightarrow> js_trim s | _ \<Rightarrow> [])"

definition resolve_access_scope_enforcement_mode :: "js_value \<Rightarrow> enforcement_mode option" where
  "resolve_access_scope_enforcement_mode v =
     (let normalized = js_upper (string_value v) in
      if normalized = [] then Some ENFORCED
      else if normalized = ''SHADOW'' then Some SHADOW
      else if normalized = ''ENFORCED'' then Some ENFORCED
      else None)"

section \<open>The token\<close>

record token_payload =
  tp_sub :: string
  tp_platformTenantId :: js_value

datatype auth_error =
  TOKEN_REQUIRED | INVALID_TOKEN | SUBJECT_UNAVAILABLE | ROUTE_NOT_ADMITTED
| MODULE_REFUSED policy_error

text \<open>\<open>authorization.split(' ')\<close>.\<close>

fun split_space :: "string \<Rightarrow> string list" where
  "split_space [] = [[]]"
| "split_space (c # cs) =
     (if c = CHR '' '' then [] # split_space cs
      else (case split_space cs of [] \<Rightarrow> [[c]] | s # ss \<Rightarrow> (c # s) # ss))"

definition extract_bearer_token :: "string option \<Rightarrow> string option" where
  "extract_bearer_token authorization =
     (let a = get_or authorization [] in
      if a = [] then None
      else case split_space a of
        type # token # _ \<Rightarrow> if type \<noteq> ''Bearer'' \<or> token = [] then None else Some token
      | _ \<Rightarrow> None)"

definition platform_user :: "user_row \<Rightarrow> subject \<Rightarrow> authenticated_user" where
  "platform_user row t =
     \<lparr>au_id = ur_id row, au_email = ur_email row, au_fullName = ur_fullName row, au_role = OWNER,
      au_customRoleId = None, au_customRoleName = None, au_hasRoleOverride = Some False,
      au_permissions = Some (resolve_user_capabilities OWNER None None),
      au_isActive = Some (ur_isActive row), au_isPlatformAdmin = True,
      au_platformTenantContext = Some True, au_tenantId = tenant_id t, au_tenantSlug = tenant_slug t,
      au_tenantStatus = Some (status t), au_tenantCustomerStage = Some (customerStage t),
      au_tenantOnboardingStatus = Some (onboardingStatus t),
      au_tenantTrialStartsAt = trialStartsAt t, au_tenantTrialEndsAt = trialEndsAt t,
      au_tenantEntitlementProfileRevision = Some (entitlementProfileRevision t),
      au_accessScope = Some ''NETWORK'', au_allowedStoreIds = []\<rparr>"

definition tenant_user ::
  "auth_db \<Rightarrow> user_row \<Rightarrow> subject \<Rightarrow> requested_scope \<Rightarrow> authenticated_user" where
  "tenant_user db row t scope =
     \<lparr>au_id = ur_id row, au_email = ur_email row, au_fullName = ur_fullName row,
      au_role = ur_role row,
      au_customRoleId = or_else (map_option cr_id (ur_customRole row)) (ur_customRoleId row),
      au_customRoleName = map_option cr_name (ur_customRole row),
      au_hasRoleOverride = Some (row_override db row \<noteq> None),
      au_permissions = Some (row_capabilities db row),
      au_isActive = Some (ur_isActive row), au_isPlatformAdmin = ur_isPlatformAdmin row,
      au_platformTenantContext = Some False, au_tenantId = ur_tenantId row,
      au_tenantSlug = tenant_slug t, au_tenantStatus = Some (status t),
      au_tenantCustomerStage = Some (customerStage t),
      au_tenantOnboardingStatus = Some (onboardingStatus t),
      au_tenantTrialStartsAt = trialStartsAt t, au_tenantTrialEndsAt = trialEndsAt t,
      au_tenantEntitlementProfileRevision = Some (entitlementProfileRevision t),
      au_accessScope = Some (mode_name (rs_mode scope)), au_allowedStoreIds = rs_storeIds scope\<rparr>"

text \<open>
  The \<open>try\<close> block of \<open>verifyToken\<close>, from the verified payload on. \<open>None\<close> is any exception, all of
  which the \<open>catch\<close> turns into the same answer.
\<close>

definition load_user ::
  "js_value \<Rightarrow> auth_db \<Rightarrow> int \<Rightarrow> token_payload \<Rightarrow> (authenticated_user \<times> subject option) option" where
  "load_user mode_config db now payload =
     (case db_users db (tp_sub payload) of
        None \<Rightarrow> None
      | Some row \<Rightarrow>
          (let platform_id = string_value (tp_platformTenantId payload) in
           if \<not> ur_isActive row then None
           else if platform_id \<noteq> [] \<and> \<not> ur_isPlatformAdmin row then None
           else if platform_id \<noteq> [] then
             map_option (\<lambda>t. (platform_user row t, Some t)) (db_tenants db platform_id)
           else case db_tenants db (ur_tenantId row) of
             None \<Rightarrow> None
           | Some t \<Rightarrow>
               if \<not> ur_isPlatformAdmin row \<and> assert_session_allowed t (At now) \<noteq> Inr () then None
               else case resolve_access_scope_enforcement_mode mode_config of
                 None \<Rightarrow> None
               | Some _ \<Rightarrow>
                   (case from_persisted (row_subject row) of
                      Inl _ \<Rightarrow> None
                    | Inr scope \<Rightarrow> Some (tenant_user db row t scope, Some t))))"

definition verify_token ::
  "(string \<Rightarrow> token_payload option) \<Rightarrow> js_value \<Rightarrow> auth_db \<Rightarrow> int \<Rightarrow> string \<Rightarrow>
   auth_error + (authenticated_user \<times> subject option)" where
  "verify_token verify mode_config db now token =
     (case verify token of
        None \<Rightarrow> Inl INVALID_TOKEN
      | Some payload \<Rightarrow>
          (case load_user mode_config db now payload of
             None \<Rightarrow> Inl INVALID_TOKEN | Some r \<Rightarrow> Inr r))"

section \<open>The guard\<close>

text \<open>\<open>platformTenantId && !platformTenant\<close> and the loop over the requirements of the request.\<close>

fun check_requirements ::
  "subject \<Rightarrow> (nat \<Rightarrow> int) \<Rightarrow> nat \<Rightarrow> (tenant_module \<times> execution_action) list \<Rightarrow> auth_error + unit" where
  "check_requirements s clock i [] = Inr ()"
| "check_requirements s clock i ((m, a) # rest) =
     (case assert_module_allowed s m a (At (clock i)) of
        Inl e \<Rightarrow> Inl (MODULE_REFUSED e)
      | Inr _ \<Rightarrow> check_requirements s clock (Suc i) rest)"

definition jwt_can_activate ::
  "(string \<Rightarrow> token_payload option) \<Rightarrow> js_value \<Rightarrow> auth_db \<Rightarrow> (nat \<Rightarrow> int) \<Rightarrow> string option \<Rightarrow>
   http_request \<Rightarrow> auth_error + authenticated_user" where
  "jwt_can_activate verify mode_config db clock authorization request =
     (case extract_bearer_token authorization of
        None \<Rightarrow> Inl TOKEN_REQUIRED
      | Some token \<Rightarrow>
          and_then (verify_token verify mode_config db (clock 0) token) (\<lambda>(user, execution_subject).
            if \<not> au_isPlatformAdmin user \<and> au_tenantCustomerStage user \<noteq> Some INTERNAL then
              (case resolve_http_access request of
                 Some _ \<Rightarrow>
                   (case execution_subject of
                      None \<Rightarrow> Inl SUBJECT_UNAVAILABLE
                    | Some s \<Rightarrow>
                        and_then (check_requirements s clock 1 (resolve_http_requirements request))
                          (\<lambda>_. Inr user))
               | None \<Rightarrow> if \<not> is_http_exempt request then Inl ROUTE_NOT_ADMITTED else Inr user)
            else Inr user))"

section \<open>What the token stands for\<close>

lemma load_user_cases:
  assumes "load_user mode_config db now payload = Some (u, es)"
  obtains (platform) row t where "db_users db (tp_sub payload) = Some row" "ur_isActive row"
      "ur_isPlatformAdmin row" "db_tenants db (string_value (tp_platformTenantId payload)) = Some t"
      "u = platform_user row t" "es = Some t"
    | (tenant) row t scope where "db_users db (tp_sub payload) = Some row" "ur_isActive row"
      "db_tenants db (ur_tenantId row) = Some t" "from_persisted (row_subject row) = Inr scope"
      "\<not> ur_isPlatformAdmin row \<longrightarrow> session_spec t now"
      "u = tenant_user db row t scope" "es = Some t"
proof -
  obtain row where row: "db_users db (tp_sub payload) = Some row" and active: "ur_isActive row"
    using assms by (auto simp: load_user_def Let_def split: option.splits if_splits)
  show thesis
  proof (cases "string_value (tp_platformTenantId payload) = []")
    case True
    then obtain t where t: "db_tenants db (ur_tenantId row) = Some t"
      using assms row active by (auto simp: load_user_def split: option.splits)
    then obtain scope where "from_persisted (row_subject row) = Inr scope"
      and "\<not> ur_isPlatformAdmin row \<longrightarrow> session_spec t now" and "u = tenant_user db row t scope" "es = Some t"
      using assms row active True
      by (auto simp: load_user_def assert_session_allowed_def Let_def session_allowed_iff
          split: if_splits option.splits sum.splits)
    then show thesis using tenant row active t by blast
  next
    case False
    then show thesis
      using platform assms row active by (auto simp: load_user_def Let_def split: if_splits)
  qed
qed

lemma jwt_admitted:
  assumes "jwt_can_activate verify mode_config db clock authorization request = Inr u"
  obtains token payload es where "extract_bearer_token authorization = Some token"
    and "verify token = Some payload" and "load_user mode_config db (clock 0) payload = Some (u, es)"
  using assms
  by (auto simp: jwt_can_activate_def verify_token_def split: option.splits if_splits)

lemma assert_module_spec: "assert_module_allowed s m a (At t) = Inr x \<Longrightarrow> module_spec s m a t"
  by (auto simp: assert_module_allowed_def Let_def module_allowed_iff split: if_splits)

lemma check_requirements_all:
  "check_requirements s clock i reqs = Inr () \<Longrightarrow> j < length reqs \<Longrightarrow>
   module_spec s (fst (reqs ! j)) (snd (reqs ! j)) (clock (i + j))"
proof (induction reqs arbitrary: i j)
  case (Cons r reqs)
  obtain m a where r: "r = (m, a)" by fastforce
  obtain x where ok: "assert_module_allowed s m a (At (clock i)) = Inr x"
    and rest: "check_requirements s clock (Suc i) reqs = Inr ()"
    using Cons.prems(1) by (auto simp: r split: sum.splits)
  from ok have now: "module_spec s m a (clock i)" by (rule assert_module_spec)
  show ?case
  proof (cases j)
    case 0
    then show ?thesis using now r by simp
  next
    case (Suc k)
    then show ?thesis using Cons.IH [OF rest, of k] Cons.prems(2) by simp
  qed
qed simp

lemma jwt_module_checks:
  assumes "jwt_can_activate verify mode_config db clock authorization request = Inr u"
    and "\<not> au_isPlatformAdmin u" and "au_tenantCustomerStage u \<noteq> Some INTERNAL"
    and "resolve_http_access request \<noteq> None"
  obtains t where "db_tenants db (au_tenantId u) = Some t" and "session_spec t (clock 0)"
    and "check_requirements t clock 1 (resolve_http_requirements request) = Inr ()"
proof -
  obtain token payload es where load: "load_user mode_config db (clock 0) payload = Some (u, es)"
    and check: "case es of None \<Rightarrow> False | Some s \<Rightarrow>
      check_requirements s clock 1 (resolve_http_requirements request) = Inr ()"
    using assms
    by (auto simp: jwt_can_activate_def verify_token_def split: option.splits if_splits)
  from load show thesis
  proof (cases rule: load_user_cases)
    case platform
    then show thesis using assms(2) by (simp add: platform_user_def)
  next
    case (tenant row t scope)
    then show thesis using that [of t] check assms(2) by (simp add: tenant_user_def)
  qed
qed

text \<open>
  C18: An admitted user is the account of the database, as it is at this request. The token only names
  the account: it must exist and be active; role, permissions, tenant and stores are read afresh, the
  tenant must be admitted to a session at this instant, and a tenant chosen in the token is honoured
  for a platform administrator only.
\<close>

theorem admitted_user_is_current:
  assumes "jwt_can_activate verify mode_config db clock authorization request = Inr u"
  shows "\<exists>token payload row. extract_bearer_token authorization = Some token \<and>
    verify token = Some payload \<and> db_users db (tp_sub payload) = Some row \<and> ur_isActive row \<and>
    au_id u = ur_id row \<and> au_isPlatformAdmin u = ur_isPlatformAdmin row \<and>
    (au_platformTenantContext u = Some True \<longrightarrow> ur_isPlatformAdmin row) \<and>
    (\<not> ur_isPlatformAdmin row \<longrightarrow>
       au_tenantId u = ur_tenantId row \<and> au_role u = ur_role row \<and>
       au_permissions u = Some (row_capabilities db row) \<and>
       (\<exists>t. db_tenants db (ur_tenantId row) = Some t \<and> session_spec t (clock 0)) \<and>
       (\<exists>scope. from_persisted (row_subject row) = Inr scope \<and>
          au_accessScope u = Some (mode_name (rs_mode scope)) \<and>
          au_allowedStoreIds u = rs_storeIds scope))"
proof -
  obtain token payload es where "extract_bearer_token authorization = Some token"
    and "verify token = Some payload" and load: "load_user mode_config db (clock 0) payload = Some (u, es)"
    using assms by (rule jwt_admitted)
  moreover from load have "\<exists>row. db_users db (tp_sub payload) = Some row \<and> ur_isActive row \<and>
    au_id u = ur_id row \<and> au_isPlatformAdmin u = ur_isPlatformAdmin row \<and>
    (au_platformTenantContext u = Some True \<longrightarrow> ur_isPlatformAdmin row) \<and>
    (\<not> ur_isPlatformAdmin row \<longrightarrow>
       au_tenantId u = ur_tenantId row \<and> au_role u = ur_role row \<and>
       au_permissions u = Some (row_capabilities db row) \<and>
       (\<exists>t. db_tenants db (ur_tenantId row) = Some t \<and> session_spec t (clock 0)) \<and>
       (\<exists>scope. from_persisted (row_subject row) = Inr scope \<and>
          au_accessScope u = Some (mode_name (rs_mode scope)) \<and>
          au_allowedStoreIds u = rs_storeIds scope))"
  proof (cases rule: load_user_cases)
    case (platform row t)
    then show ?thesis by (intro exI [of _ row]) (simp add: platform_user_def)
  next
    case (tenant row t scope)
    then show ?thesis by (intro exI [of _ row]) (simp add: tenant_user_def)
  qed
  ultimately show ?thesis by blast
qed

text \<open>A database with one account of one tenant.\<close>

definition sample_row :: user_row where
  "sample_row =
     \<lparr>ur_id = ''u1'', ur_email = ''u1@club'', ur_fullName = None, ur_role = BUYER,
      ur_customRoleId = None, ur_customRole = None, ur_accessScope = Some ''STORES'',
      ur_isActive = True, ur_isPlatformAdmin = False, ur_tenantId = ''t1'',
      ur_storeAccesses = [\<lparr>pa_storeId = ''s1'', pa_storeTenant = Some (Some ''t1'')\<rparr>]\<rparr>"

definition sample_db :: auth_db where
  "sample_db =
     \<lparr>db_users = (\<lambda>i. if i = ''u1'' then Some sample_row else None),
      db_tenants = (\<lambda>i. if i = ''t1'' then Some (sample_subject LC_ACTIVE) else None),
      db_overrides = (\<lambda>_ _. None)\<rparr>"

definition sample_verify :: "string \<Rightarrow> token_payload option" where
  "sample_verify token =
     (if token = ''abc'' then Some \<lparr>tp_sub = ''u1'', tp_platformTenantId = JUndef\<rparr> else None)"

definition sample_authenticated :: authenticated_user where
  "sample_authenticated =
     tenant_user sample_db sample_row (sample_subject LC_ACTIVE)
       \<lparr>rs_mode = STORES, rs_storeIds = [''s1'']\<rparr>"

lemma sample_load:
  "load_user JUndef sample_db 500 \<lparr>tp_sub = ''u1'', tp_platformTenantId = JUndef\<rparr> =
     Some (sample_authenticated, Some (sample_subject LC_ACTIVE))"
proof -
  have scope: "from_persisted (row_subject sample_row) = Inr \<lparr>rs_mode = STORES, rs_storeIds = [''s1'']\<rparr>"
    by code_simp
  have mode: "resolve_access_scope_enforcement_mode JUndef = Some ENFORCED"
    by code_simp
  have session: "assert_session_allowed (sample_subject LC_ACTIVE) (At 500) = Inr ()"
    by (simp add: assert_session_allowed_def session_allowed_iff sample_session_spec)
  have row: "ur_isActive sample_row" "ur_tenantId sample_row = ''t1''"
    by (simp_all add: sample_row_def)
  have platform: "string_value JUndef = []"
    by (simp add: string_value_def)
  show ?thesis
    unfolding load_user_def
    by (simp add: sample_db_def row platform session mode scope sample_authenticated_def)
qed

lemma sample_requirements:
  "resolve_http_access (sample_request ''PATCH'' ''/products/7'') =
     Some \<lparr>acc_module = ASSORTMENT, acc_action = WRITE, acc_path = ''/products/7''\<rparr>"
  "resolve_http_requirements (sample_request ''PATCH'' ''/products/7'') = [(ASSORTMENT, WRITE)]"
  by code_simp+

lemma sample_admitted:
  "jwt_can_activate sample_verify JUndef sample_db (\<lambda>i. 500 + int i) (Some ''Bearer abc'')
     (sample_request ''PATCH'' ''/products/7'') = Inr sample_authenticated"
proof -
  have token: "extract_bearer_token (Some ''Bearer abc'') = Some ''abc''"
    by code_simp
  have "assert_module_allowed (sample_subject LC_ACTIVE) ASSORTMENT WRITE (At 501) = Inr ()"
    by (simp add: assert_module_allowed_def module_allowed_iff sample_module_spec)
  then show ?thesis
    by (simp add: jwt_can_activate_def token verify_token_def sample_verify_def sample_load
        sample_requirements)
qed

lemma admitted_user_is_current_witness:
  "au_id sample_authenticated = ''u1'' \<and>
   (\<exists>payload. sample_verify ''abc'' = Some payload \<and> tp_sub payload = ''u1'')"
  using admitted_user_is_current [OF sample_admitted]
  by (auto simp: sample_db_def sample_row_def sample_verify_def extract_bearer_token_def
      split: if_splits)

text \<open>
  C17: Every request of a customer is classified and paid for. When a user of a tenant that is not
  internal is admitted, the request is one of the exempt ones, or the user's tenant is admitted to the
  session and grants every module and action the request needs, each at the instant it was checked;
  a request that the tables do not classify is never admitted.
\<close>

theorem external_request_is_entitled:
  assumes "jwt_can_activate verify mode_config db clock authorization request = Inr u"
    and "\<not> au_isPlatformAdmin u" and "au_tenantCustomerStage u \<noteq> Some INTERNAL"
  shows "(resolve_http_access request = None \<and> is_http_exempt request) \<or>
    (\<exists>t. db_tenants db (au_tenantId u) = Some t \<and> session_spec t (clock 0) \<and>
       resolve_http_requirements request \<noteq> [] \<and>
       (\<forall>j < length (resolve_http_requirements request).
          module_spec t (fst (resolve_http_requirements request ! j))
            (snd (resolve_http_requirements request ! j)) (clock (Suc j))))"
proof (cases "resolve_http_access request")
  case None
  then show ?thesis
    using assms
    by (auto simp: jwt_can_activate_def verify_token_def split: option.splits if_splits)
next
  case (Some access)
  then obtain t where "db_tenants db (au_tenantId u) = Some t" "session_spec t (clock 0)"
      "check_requirements t clock 1 (resolve_http_requirements request) = Inr ()"
    using jwt_module_checks [OF assms] by blast
  then show ?thesis
    using check_requirements_all [of t clock 1 "resolve_http_requirements request"] Some
      requirements_cover [of request]
    by auto
qed

lemma external_request_is_entitled_witness:
  "\<exists>t. db_tenants sample_db ''t1'' = Some t \<and> module_spec t ASSORTMENT WRITE 501"
proof -
  have "\<not> au_isPlatformAdmin sample_authenticated"
    "au_tenantCustomerStage sample_authenticated \<noteq> Some INTERNAL"
    "au_tenantId sample_authenticated = ''t1''"
    by (simp_all add: sample_authenticated_def tenant_user_def sample_row_def sample_subject_def)
  with external_request_is_entitled [OF sample_admitted] show ?thesis
    by (auto simp: sample_requirements)
qed

section \<open>Both guards\<close>

lemma guard_methods_agree: "guard_method request = request_method request"
proof -
  have "js_upper ''GET'' = ''GET''" by code_simp
  then show ?thesis
    by (cases "r_method request") (simp_all add: guard_method_def request_method_def)
qed

lemma is_read_method_iff: "is_read_method m \<longleftrightarrow> m \<in> set READ_METHODS"
  by (simp add: is_read_method_def READ_METHODS_def)

lemma exempt_is_read: "is_http_exempt request \<Longrightarrow> is_read_method (request_method request)"
  by (auto simp: is_http_exempt_def EXEMPT_REQUESTS_def is_read_method_def split: if_splits)

lemma granted_by_row:
  assumes "has_capability (Some (row_capabilities db row)) c" and "\<not> is_view c"
  shows "c \<in> set (row_capabilities db row)"
  using assms by (rule write_capability_own)



end
