(* ===== verification/Fresh_Scope.thy ===== *)
theory Fresh_Scope
  imports Jwt_Guard
begin

text \<open>
  \<open>tenancy/fresh-store-scope.service.ts\<close>: before a sensitive operation the scope that the guard put
  on the request is compared with the database, and a request whose authority has changed since is
  rejected as stale.

  The database is that of \<open>Jwt_Guard\<close>, with the stores as pairs of id and tenant. \<open>cmp\<close> is
  \<open>String.prototype.localeCompare\<close>, of which only the properties of a sorting function are used: the
  theorems hold for every \<open>cmp\<close>.
\<close>

record fresh_scope = resolved_scope +
  fs_userId :: string

record fresh_requested_scope = fresh_scope +
  fs_effectiveStoreIds :: "string list option"

type_synonym store_table = "(string \<times> string) list"

definition sorted_ids :: "(string \<Rightarrow> string \<Rightarrow> int) \<Rightarrow> string list \<Rightarrow> string list" where
  "sorted_ids cmp ids = js_sort cmp ids"

text \<open>\<open>left.length === right.length && left.every((id, index) => id === right[index])\<close>.\<close>

fun same_ids :: "string list \<Rightarrow> string list \<Rightarrow> bool" where
  "same_ids [] [] = True"
| "same_ids (a # as) (b # bs) = (a = b \<and> same_ids as bs)"
| "same_ids _ _ = False"

definition guard_permissions ::
  "(string \<Rightarrow> string \<Rightarrow> int) \<Rightarrow> authenticated_user \<Rightarrow> string list" where
  "guard_permissions cmp u =
     sorted_ids cmp (map capability_key
       (normalize_capabilities (map_option (map capability_key) (au_permissions u))))"

definition find_tenant_user :: "auth_db \<Rightarrow> string \<Rightarrow> string \<Rightarrow> user_row option" where
  "find_tenant_user db tenantId i =
     (case db_users db i of
        None \<Rightarrow> None | Some row \<Rightarrow> if ur_tenantId row = tenantId then Some row else None)"

definition resolve_platform_context ::
  "(string \<Rightarrow> string \<Rightarrow> int) \<Rightarrow> auth_db \<Rightarrow> authenticated_user \<Rightarrow> scope_error + fresh_scope" where
  "resolve_platform_context cmp db user =
     and_then (resolve_scope (Some user)) (\<lambda>guard_scope.
       let account = db_users db (au_id user);
           tenant = db_tenants db (au_tenantId user);
           expected = sorted_ids cmp (map capability_key (resolve_user_capabilities OWNER None None))
       in case (account, tenant) of
            (Some a, Some t) \<Rightarrow>
              (if \<not> ur_isActive a \<or> \<not> ur_isPlatformAdmin a \<or>
                  tenant_id t \<noteq> sc_tenantId guard_scope \<or> tenant_slug t \<noteq> sc_tenantSlug guard_scope \<or>
                  au_role user \<noteq> OWNER \<or> au_customRoleId user \<noteq> None \<or>
                  sc_mode guard_scope \<noteq> NETWORK \<or> sc_allowedStoreIds guard_scope \<noteq> [] \<or>
                  \<not> same_ids expected (guard_permissions cmp user)
               then Inl STALE_SCOPE
               else Inr \<lparr>sc_tenantId = tenant_id t, sc_tenantSlug = tenant_slug t, sc_mode = NETWORK,
                         sc_allowedStoreIds = [], fs_userId = ur_id a\<rparr>)
          | _ \<Rightarrow> Inl STALE_SCOPE)"

text \<open>
  The account and its tenant, the fresh scope and the scope of the guard, in the order of the source;
  the relation from the user to its tenant is a foreign key, so the missing tenant is the rejected
  query.
\<close>

definition resolve_fresh ::
  "(string \<Rightarrow> string \<Rightarrow> int) \<Rightarrow> auth_db \<Rightarrow> authenticated_user \<Rightarrow> scope_error + fresh_scope" where
  "resolve_fresh cmp db user =
     (if au_id user = [] \<or> au_tenantId user = [] \<or> au_tenantSlug user = [] then Inl FRESH_SCOPE_REQUIRED
      else if au_isPlatformAdmin user then
        (if au_platformTenantContext user \<noteq> Some True then Inl FRESH_SCOPE_REQUIRED
         else resolve_platform_context cmp db user)
      else case find_tenant_user db (au_tenantId user) (au_id user) of
        None \<Rightarrow> Inl FRESH_SCOPE_REQUIRED
      | Some row \<Rightarrow>
          if \<not> ur_isActive row \<or> ur_isPlatformAdmin row then Inl FRESH_SCOPE_REQUIRED
          else case db_tenants db (ur_tenantId row) of
            None \<Rightarrow> Inl FRESH_SCOPE_REQUIRED
          | Some t \<Rightarrow>
              and_then (from_persisted (row_subject row)) (\<lambda>persisted.
              and_then (resolve_scope (Some user)) (\<lambda>guard_scope.
                let fresh_permissions = sorted_ids cmp (map capability_key (row_capabilities db row));
                    fresh_stores = sorted_ids cmp (rs_storeIds persisted);
                    guard_stores = sorted_ids cmp (sc_allowedStoreIds guard_scope)
                in if ur_id row \<noteq> au_id user \<or> ur_tenantId row \<noteq> sc_tenantId guard_scope \<or>
                      tenant_slug t \<noteq> sc_tenantSlug guard_scope \<or> ur_role row \<noteq> au_role user \<or>
                      ur_customRoleId row \<noteq> au_customRoleId user \<or>
                      \<not> same_ids fresh_permissions (guard_permissions cmp user) \<or>
                      rs_mode persisted \<noteq> sc_mode guard_scope \<or>
                      \<not> same_ids fresh_stores guard_stores
                   then Inl STALE_SCOPE
                   else Inr \<lparr>sc_tenantId = ur_tenantId row, sc_tenantSlug = tenant_slug t,
                             sc_mode = rs_mode persisted, sc_allowedStoreIds = fresh_stores,
                             fs_userId = ur_id row\<rparr>)))"

definition assert_fresh_network ::
  "(string \<Rightarrow> string \<Rightarrow> int) \<Rightarrow> auth_db \<Rightarrow> authenticated_user \<Rightarrow> scope_error + fresh_scope" where
  "assert_fresh_network cmp db user =
     and_then (resolve_fresh cmp db user) (\<lambda>scope.
       if sc_mode scope \<noteq> NETWORK then Inl NETWORK_REQUIRED else Inr scope)"

definition normalize_fresh_store_ids :: "string list \<Rightarrow> scope_error + string list" where
  "normalize_fresh_store_ids ids =
     (let normalized = map js_trim ids in
      if normalized = [] \<or> [] \<in> set normalized \<or>
         length (js_uniq normalized) \<noteq> length normalized
      then Inl INVALID_STORE_SCOPE
      else Inr normalized)"

definition with_stores :: "fresh_scope \<Rightarrow> string list option \<Rightarrow> fresh_requested_scope" where
  "with_stores scope ids =
     \<lparr>sc_tenantId = sc_tenantId scope, sc_tenantSlug = sc_tenantSlug scope, sc_mode = sc_mode scope,
      sc_allowedStoreIds = sc_allowedStoreIds scope, fs_userId = fs_userId scope,
      fs_effectiveStoreIds = ids\<rparr>"

definition resolve_fresh_store_ids ::
  "(string \<Rightarrow> string \<Rightarrow> int) \<Rightarrow> auth_db \<Rightarrow> store_table \<Rightarrow> authenticated_user \<Rightarrow>
   string list option \<Rightarrow> scope_error + fresh_requested_scope" where
  "resolve_fresh_store_ids cmp db stores user requested =
     and_then (resolve_fresh cmp db user) (\<lambda>scope.
       case requested of
         None \<Rightarrow>
           Inr (with_stores scope
             (if sc_mode scope = NETWORK then None else Some (sc_allowedStoreIds scope)))
       | Some ids \<Rightarrow>
           and_then (normalize_fresh_store_ids ids) (\<lambda>asked.
             if sc_mode scope = STORES then
               (if \<exists>s\<in>set asked. s \<notin> set (sc_allowedStoreIds scope) then Inl OUTSIDE_SCOPE
                else Inr (with_stores scope (Some asked)))
             else
               (let found = map fst (filter (\<lambda>(s, t). t = sc_tenantId scope \<and> s \<in> set asked) stores)
                in if \<exists>s\<in>set asked. s \<notin> set found then Inl OUTSIDE_TENANT
                   else Inr (with_stores scope (Some asked)))))"

section \<open>Lemmas\<close>

declare normalize_capabilities.simps [simp del] resolve_user_capabilities.simps [simp del]

lemma same_ids_iff [simp]: "same_ids xs ys \<longleftrightarrow> xs = ys"
  by (induction xs ys rule: same_ids.induct) auto

lemma sorted_ids_set: "sorted_ids cmp xs = sorted_ids cmp ys \<Longrightarrow> set xs = set ys"
  unfolding sorted_ids_def by (metis set_js_sort)

lemma set_sorted_ids [simp]: "set (sorted_ids cmp xs) = set xs"
  by (simp add: sorted_ids_def)

lemma set_guard_permissions:
  "set (guard_permissions cmp u) = capability_key ` set (get_or (au_permissions u) [])"
  by (cases "au_permissions u") (auto simp: guard_permissions_def dest: capability_key_inj)

text \<open>
  C12: Stale authority is rejected. When the fresh check accepts a tenant user, the account exists, is
  active and belongs to the tenant, and everything the guard has put on the request is what the
  database says now: the role, the capabilities, and the scope with its stores. So after a change that
  takes a capability or a store away, deactivates the account or moves it, no request that was
  authenticated before passes.
\<close>

theorem fresh_scope_rejects_stale_authority:
  assumes "resolve_fresh cmp db u = Inr scope" and "\<not> au_isPlatformAdmin u"
  shows "\<exists>row. db_users db (au_id u) = Some row \<and> ur_isActive row \<and> \<not> ur_isPlatformAdmin row \<and>
    ur_tenantId row = au_tenantId u \<and> ur_role row = au_role u \<and>
    set (get_or (au_permissions u) []) = set (row_capabilities db row) \<and>
    (\<exists>persisted. from_persisted (row_subject row) = Inr persisted \<and>
       au_accessScope u = Some (mode_name (rs_mode persisted)) \<and>
       set (map js_trim (au_allowedStoreIds u)) = set (rs_storeIds persisted) \<and>
       set (sc_allowedStoreIds scope) = set (rs_storeIds persisted))"
proof -
  obtain row t persisted guard_scope
    where row: "find_tenant_user db (au_tenantId u) (au_id u) = Some row"
      and active: "ur_isActive row" "\<not> ur_isPlatformAdmin row"
      and persisted: "from_persisted (row_subject row) = Inr persisted"
      and guard_scope: "resolve_scope (Some u) = Inr guard_scope"
      and same: "ur_role row = au_role u"
        "sorted_ids cmp (map capability_key (row_capabilities db row)) = guard_permissions cmp u"
        "rs_mode persisted = sc_mode guard_scope"
        "sorted_ids cmp (rs_storeIds persisted) = sorted_ids cmp (sc_allowedStoreIds guard_scope)"
      and scope: "sc_allowedStoreIds scope = sorted_ids cmp (rs_storeIds persisted)"
    using assms by (auto simp: resolve_fresh_def Let_def split: if_splits option.splits)
  have "capability_key ` set (row_capabilities db row) = capability_key ` set (get_or (au_permissions u) [])"
    using set_guard_permissions [of cmp u] same(2) by (metis set_map set_sorted_ids)
  then have caps: "set (get_or (au_permissions u) []) = set (row_capabilities db row)"
    by (metis capability_key_inj inj_image_eq_iff injI)
  have "set (rs_storeIds persisted) = set (map js_trim (au_allowedStoreIds u))"
    using sorted_ids_set [OF same(4)] resolve_scope_fields(1) [OF guard_scope] by simp
  then show ?thesis
    using row active persisted same(1) caps scope resolve_scope_fields(2) [OF guard_scope] same(3)
    by (auto simp: find_tenant_user_def split: option.splits if_splits)
qed

text \<open>What the schema guarantees: a row is stored under its id, and a custom role under its key.\<close>

definition consistent_db :: "auth_db \<Rightarrow> bool" where
  "consistent_db db \<longleftrightarrow>
     (\<forall>i row. db_users db i = Some row \<longrightarrow> ur_id row = i \<and> i \<noteq> [] \<and> ur_tenantId row \<noteq> [] \<and>
        map_option cr_id (ur_customRole row) = ur_customRoleId row) \<and>
     (\<forall>i t. db_tenants db i = Some t \<longrightarrow> tenant_id t = i \<and> i \<noteq> [] \<and> tenant_slug t \<noteq> [])"

lemma fresh_accepts:
  assumes "jwt_can_activate verify mode_config db clock authorization request = Inr u"
    and "consistent_db db"
    and "\<not> au_isPlatformAdmin u \<or> au_platformTenantContext u = Some True"
  shows "\<exists>scope. resolve_fresh cmp db u = Inr scope \<and> fs_userId scope = au_id u \<and>
    sc_tenantId scope = au_tenantId u \<and> au_accessScope u = Some (mode_name (sc_mode scope)) \<and>
    set (sc_allowedStoreIds scope) = set (au_allowedStoreIds u)"
proof -
  obtain payload es where "load_user mode_config db (clock 0) payload = Some (u, es)"
    using assms(1) by (rule jwt_admitted)
  then show ?thesis
  proof (cases rule: load_user_cases)
    case (platform row t)
    then have ids: "ur_id row = tp_sub payload" "tp_sub payload \<noteq> []"
      "db_tenants db (tenant_id t) = Some t" "tenant_id t \<noteq> []" "tenant_slug t \<noteq> []"
      using assms(2) by (auto simp: consistent_db_def)
    have "resolve_scope (Some u) = Inr \<lparr>sc_tenantId = tenant_id t, sc_tenantSlug = tenant_slug t,
        sc_mode = NETWORK, sc_allowedStoreIds = []\<rparr>"
      using resolve_scope_of_well_formed [of "\<lparr>rs_mode = NETWORK, rs_storeIds = []\<rparr>" u] ids platform
      by (simp add: platform_user_def well_formed_scope_def)
    then show ?thesis
      using platform ids
      by (simp add: resolve_fresh_def resolve_platform_context_def platform_user_def
          guard_permissions_def mode_name_def)
  next
    case (tenant row t persisted)
    then have ids: "ur_id row = tp_sub payload" "tp_sub payload \<noteq> []" "ur_tenantId row \<noteq> []"
      "tenant_slug t \<noteq> []" "map_option cr_id (ur_customRole row) = ur_customRoleId row"
      using assms(2) by (auto simp: consistent_db_def)
    have scope: "resolve_scope (Some u) = Inr \<lparr>sc_tenantId = ur_tenantId row,
        sc_tenantSlug = tenant_slug t, sc_mode = rs_mode persisted,
        sc_allowedStoreIds = rs_storeIds persisted\<rparr>"
      using resolve_scope_of_well_formed [OF from_persisted_well_formed [OF tenant(4)], of u] ids tenant(6)
      by (simp add: tenant_user_def mode_name_def)
    have role: "or_else (map_option cr_id (ur_customRole row)) (ur_customRoleId row) = ur_customRoleId row"
      using ids(5) by (cases "ur_customRole row"; cases "ur_customRoleId row") auto
    have row: "find_tenant_user db (ur_tenantId row) (ur_id row) = Some row"
      using tenant(1) ids(1) by (simp add: find_tenant_user_def)
    have plain: "\<not> ur_isPlatformAdmin row"
      using assms(3) tenant(6) by (simp add: tenant_user_def)
    have perms: "guard_permissions cmp u = sorted_ids cmp (map capability_key (row_capabilities db row))"
      using tenant(6) by (simp add: guard_permissions_def tenant_user_def row_capabilities_def)
    have user: "au_id u = ur_id row" "au_tenantId u = ur_tenantId row" "au_tenantSlug u = tenant_slug t"
      "au_isPlatformAdmin u = ur_isPlatformAdmin row" "au_role u = ur_role row"
      "au_customRoleId u = ur_customRoleId row"
      "au_accessScope u = Some (mode_name (rs_mode persisted))" "au_allowedStoreIds u = rs_storeIds persisted"
      using tenant(6) role by (simp_all add: tenant_user_def)
    show ?thesis
      using tenant(2,3,4) ids(2-4) plain
      by (simp add: resolve_fresh_def user row perms scope Let_def ids(1) [symmetric])
  qed
qed

text \<open>
  C13: The fresh check does not reject an unchanged authority. A user of a tenant, or a platform
  administrator who has chosen a tenant, whom the guard has just admitted passes the fresh check on
  the same database, whatever order \<open>localeCompare\<close> sorts in; the fresh scope is the scope on the
  request.
\<close>

theorem fresh_scope_accepts_unchanged_authority:
  assumes "jwt_can_activate verify mode_config db clock authorization request = Inr u"
    and "consistent_db db"
    and "\<not> au_isPlatformAdmin u \<or> au_platformTenantContext u = Some True"
  shows "\<exists>scope. resolve_fresh cmp db u = Inr scope \<and> fs_userId scope = au_id u \<and>
    sc_tenantId scope = au_tenantId u \<and> set (sc_allowedStoreIds scope) = set (au_allowedStoreIds u)"
  using fresh_accepts [OF assms, of cmp] by blast

lemma sample_consistent: "consistent_db sample_db"
  by (simp add: consistent_db_def sample_db_def sample_row_def sample_subject_def)

lemma sample_fresh_user:
  "\<not> au_isPlatformAdmin sample_authenticated" "au_id sample_authenticated = ''u1''"
  "au_tenantId sample_authenticated = ''t1''" "au_allowedStoreIds sample_authenticated = [''s1'']"
  by (simp_all add: sample_authenticated_def tenant_user_def sample_row_def)

lemma sample_fresh:
  obtains scope where "resolve_fresh cmp sample_db sample_authenticated = Inr scope"
    and "sc_mode scope = STORES" and "set (sc_allowedStoreIds scope) = {''s1''}"
proof -
  have mode: "au_accessScope sample_authenticated = Some (mode_name STORES)"
    by (simp add: sample_authenticated_def tenant_user_def)
  have "mode_name m = mode_name STORES \<Longrightarrow> m = STORES" for m
    by (cases m) (simp_all add: mode_name_def)
  then show thesis
    using fresh_accepts [OF sample_admitted sample_consistent, of cmp] sample_fresh_user mode that
    by fastforce
qed

lemma fresh_scope_accepts_unchanged_authority_witness:
  "\<exists>scope. resolve_fresh code_unit_compare sample_db sample_authenticated = Inr scope \<and>
     fs_userId scope = ''u1'' \<and> set (sc_allowedStoreIds scope) = {''s1''}"
  using fresh_scope_accepts_unchanged_authority
    [OF sample_admitted sample_consistent, of code_unit_compare] sample_fresh_user
  by auto

lemma fresh_scope_rejects_stale_authority_witness:
  "\<exists>row. db_users sample_db ''u1'' = Some row \<and> ur_isActive row \<and>
     set (get_or (au_permissions sample_authenticated) []) = set (row_capabilities sample_db row)"
proof -
  obtain scope where "resolve_fresh code_unit_compare sample_db sample_authenticated = Inr scope"
    using sample_fresh [of code_unit_compare] by blast
  from fresh_scope_rejects_stale_authority [OF this] sample_fresh_user show ?thesis by auto
qed

text \<open>
  Requested stores exist and are the user's. The stores that a fresh request works on are
  distinct, trimmed ids; for a store user they lie in the fresh scope, for a network user each is a
  store of the tenant; "every store" is answered only to a network user who named none.
\<close>

theorem fresh_requested_stores:
  assumes "resolve_fresh_store_ids cmp db stores u requested = Inr answer"
  shows "(fs_effectiveStoreIds answer = None \<longleftrightarrow> requested = None \<and> sc_mode answer = NETWORK) \<and>
    (\<forall>ids. fs_effectiveStoreIds answer = Some ids \<longrightarrow>
       (sc_mode answer = STORES \<longrightarrow> set ids \<subseteq> set (sc_allowedStoreIds answer)) \<and>
       (sc_mode answer = NETWORK \<longrightarrow> (\<forall>i\<in>set ids. (i, sc_tenantId answer) \<in> set stores)) \<and>
       (requested \<noteq> None \<longrightarrow> ids \<noteq> [] \<and> distinct ids \<and> (\<forall>i\<in>set ids. i \<noteq> [] \<and> js_trim i = i)))"
proof -
  obtain scope where scope: "resolve_fresh cmp db u = Inr scope"
    using assms by (auto simp: resolve_fresh_store_ids_def)
  show ?thesis
  proof (cases requested)
    case None
    then have "answer = with_stores scope
        (if sc_mode scope = NETWORK then None else Some (sc_allowedStoreIds scope))"
      using assms scope by (simp add: resolve_fresh_store_ids_def)
    then show ?thesis
      using None by (cases "sc_mode scope") (auto simp: with_stores_def)
  next
    case (Some asked)
    obtain ids where ids: "normalize_fresh_store_ids asked = Inr ids"
      using assms scope Some by (auto simp: resolve_fresh_store_ids_def)
    have answer: "answer = with_stores scope (Some ids)"
      and store: "sc_mode scope = STORES \<Longrightarrow> set ids \<subseteq> set (sc_allowedStoreIds scope)"
      and network: "sc_mode scope \<noteq> STORES \<Longrightarrow> \<forall>i\<in>set ids. (i, sc_tenantId scope) \<in> set stores"
      using assms scope Some ids
      by (auto simp: resolve_fresh_store_ids_def Let_def split: if_splits)
    have "ids = map js_trim asked" "ids \<noteq> []" "\<forall>i\<in>set ids. i \<noteq> []" and uniq: "length (js_uniq ids) = length ids"
      using ids by (auto simp: normalize_fresh_store_ids_def Let_def image_iff split: if_splits)
    moreover have "distinct ids"
      using uniq distinct_card [OF distinct_js_uniq, of ids] by (intro card_distinct) simp
    ultimately show ?thesis
      using answer store network Some by (cases "sc_mode scope") (auto simp: with_stores_def)
  qed
qed

lemma fresh_requested_stores_witness:
  "\<exists>answer. resolve_fresh_store_ids code_unit_compare sample_db [(''s1'', ''t1'')] sample_authenticated
      (Some ['' s1 '']) = Inr answer \<and> set (get_or (fs_effectiveStoreIds answer) []) \<subseteq> {''s1''}"
proof -
  obtain scope where scope: "resolve_fresh code_unit_compare sample_db sample_authenticated = Inr scope"
      "sc_mode scope = STORES" "set (sc_allowedStoreIds scope) = {''s1''}"
    using sample_fresh [of code_unit_compare] by blast
  have "normalize_fresh_store_ids ['' s1 ''] = Inr [''s1'']"
    by code_simp
  then have "resolve_fresh_store_ids code_unit_compare sample_db [(''s1'', ''t1'')] sample_authenticated
      (Some ['' s1 '']) = Inr (with_stores scope (Some [''s1'']))"
    by (simp add: resolve_fresh_store_ids_def scope)
  with fresh_requested_stores [OF this] scope show ?thesis
    by (simp add: with_stores_def)
qed

end
