(* ===== verification/Leaderboard_Config.thy ===== *)
theory Leaderboard_Config
  imports Js_Prelude
begin

text \<open>
  \<open>guest-leaderboard/guest-leaderboard-core.ts\<close>, the settings of the guest leaderboard: the boards,
  the formula of the points, the prizes per scope and board, and the validation that an owner's input
  and every stored document pass through.

  The document is a \<open>js_value\<close>; an error of the validation is a constructor of \<open>config_error\<close>, one per
  message. Objects are lists of their entries in insertion order.
\<close>

section \<open>Data\<close>

datatype board = POINTS | HOURS | SESSIONS | QUESTS | CASES

definition LEADERBOARD_BOARDS :: "board list" where
  "LEADERBOARD_BOARDS = [POINTS, HOURS, SESSIONS, QUESTS, CASES]"

primrec board_name :: "board \<Rightarrow> string" where
  "board_name POINTS = ''points''"
| "board_name HOURS = ''hours''"
| "board_name SESSIONS = ''sessions''"
| "board_name QUESTS = ''quests''"
| "board_name CASES = ''cases''"

definition LEADERBOARD_TOP_SIZE :: nat where
  "LEADERBOARD_TOP_SIZE = 10"

definition LEADERBOARD_PRIZE_PLACES :: nat where
  "LEADERBOARD_PRIZE_PLACES = 3"

definition LEADERBOARD_NETWORK_SCOPE_KEY :: string where
  "LEADERBOARD_NETWORK_SCOPE_KEY = ''network''"

record formula =
  hourPoints :: int
  questPoints :: int
  casePoints :: int
  checkInPoints :: int

datatype prize = BONUS int | LOOT_BOX string | CUSTOM string

type_synonym prize_set = "(board \<times> prize option list) list"

record leaderboard_config =
  lc_networkEnabled :: bool
  lc_disabledStoreIds :: "string list"
  lc_boards :: "(board \<times> bool) list"
  lc_formula :: formula
  lc_prizes :: "(string \<times> prize_set) list"
  lc_excludedProfileIds :: "string list"

definition DEFAULT_LEADERBOARD_FORMULA :: formula where
  "DEFAULT_LEADERBOARD_FORMULA =
     \<lparr>hourPoints = 10, questPoints = 30, casePoints = 5, checkInPoints = 5\<rparr>"

definition default_leaderboard_config :: leaderboard_config where
  "default_leaderboard_config =
     \<lparr>lc_networkEnabled = True, lc_disabledStoreIds = [],
      lc_boards = map (\<lambda>b. (b, True)) LEADERBOARD_BOARDS,
      lc_formula = DEFAULT_LEADERBOARD_FORMULA, lc_prizes = [], lc_excludedProfileIds = []\<rparr>"

definition FORMULA_MAX :: int where "FORMULA_MAX = 10000"
definition BONUS_PRIZE_MAX :: int where "BONUS_PRIZE_MAX = 1000000"
definition CUSTOM_PRIZE_MAX_LENGTH :: nat where "CUSTOM_PRIZE_MAX_LENGTH = 80"
definition MAX_EXCLUDED_PROFILES :: nat where "MAX_EXCLUDED_PROFILES = 5000"
definition MAX_DISABLED_STORES :: nat where "MAX_DISABLED_STORES = 500"

section \<open>Validation\<close>

datatype config_error =
  IDS_NOT_A_LIST | BAD_ID | TOO_MANY_IDS | BAD_FORMULA_VALUE
| PRIZE_FORMAT | BONUS_OUT_OF_RANGE | LOOT_BOX_MISSING | CUSTOM_TEXT | UNKNOWN_PRIZE_KIND
| PRIZES_FORMAT | UNKNOWN_BOARD | TOO_MANY_PLACES | UNKNOWN_CLUB
| SETTINGS_FORMAT | BOARDS_FORMAT

fun collect_ids :: "js_value list \<Rightarrow> string list \<Rightarrow> config_error + string list" where
  "collect_ids [] ids = Inr ids"
| "collect_ids (item # rest) ids =
     (case item of
        JStr s \<Rightarrow>
          if js_trim s = [] \<or> 64 < length s then Inl BAD_ID
          else collect_ids rest (if js_trim s \<in> set ids then ids else ids @ [js_trim s])
      | _ \<Rightarrow> Inl BAD_ID)"

definition unique_ids :: "js_value \<Rightarrow> nat \<Rightarrow> config_error + string list" where
  "unique_ids v limit =
     (case v of
        JUndef \<Rightarrow> Inr []
      | JNull \<Rightarrow> Inr []
      | JArr items \<Rightarrow>
          and_then (collect_ids items []) (\<lambda>ids.
            if limit < length ids then Inl TOO_MANY_IDS else Inr ids)
      | _ \<Rightarrow> Inl IDS_NOT_A_LIST)"

text \<open>\<open>typeof v === 'number' && Number.isInteger(v)\<close>, with the integer.\<close>

definition js_integer :: "js_value \<Rightarrow> int option" where
  "js_integer v = (case v of JNum q \<Rightarrow> if q = of_int \<lfloor>q\<rfloor> then Some \<lfloor>q\<rfloor> else None | _ \<Rightarrow> None)"

definition formula_value :: "js_value \<Rightarrow> int \<Rightarrow> config_error + int" where
  "formula_value v fallback =
     (if v = JUndef \<or> v = JNull then Inr fallback
      else case js_integer v of
        None \<Rightarrow> Inl BAD_FORMULA_VALUE
      | Some n \<Rightarrow> if n < 0 \<or> FORMULA_MAX < n then Inl BAD_FORMULA_VALUE else Inr n)"

definition normalize_prize :: "js_value \<Rightarrow> config_error + prize option" where
  "normalize_prize v =
     (case v of
        JUndef \<Rightarrow> Inr None
      | JNull \<Rightarrow> Inr None
      | JObj obj \<Rightarrow>
          (if js_prop obj ''kind'' = JStr ''BONUS'' then
             (case js_integer (js_prop obj ''amount'') of
                None \<Rightarrow> Inl BONUS_OUT_OF_RANGE
              | Some n \<Rightarrow> if n < 1 \<or> BONUS_PRIZE_MAX < n then Inl BONUS_OUT_OF_RANGE
                          else Inr (Some (BONUS n)))
           else if js_prop obj ''kind'' = JStr ''LOOT_BOX'' then
             (case js_prop obj ''lootBoxId'' of
                JStr s \<Rightarrow> if js_trim s = [] then Inl LOOT_BOX_MISSING
                          else Inr (Some (LOOT_BOX (js_trim s)))
              | _ \<Rightarrow> Inl LOOT_BOX_MISSING)
           else if js_prop obj ''kind'' = JStr ''CUSTOM'' then
             (let label = (case js_prop obj ''label'' of JStr s \<Rightarrow> js_trim s | _ \<Rightarrow> [])
              in if label = [] \<or> CUSTOM_PRIZE_MAX_LENGTH < length label then Inl CUSTOM_TEXT
                 else Inr (Some (CUSTOM label)))
           else Inl UNKNOWN_PRIZE_KIND)
      | _ \<Rightarrow> Inl PRIZE_FORMAT)"

text \<open>\<open>places[i]\<close>, \<open>undefined\<close> past the end.\<close>

definition js_at :: "js_value list \<Rightarrow> nat \<Rightarrow> js_value" where
  "js_at xs i = (if i < length xs then xs ! i else JUndef)"

definition parse_board :: "string \<Rightarrow> board option" where
  "parse_board s = find (\<lambda>b. board_name b = s) LEADERBOARD_BOARDS"

fun normalize_prize_entries ::
  "(string \<times> js_value) list \<Rightarrow> config_error + prize_set" where
  "normalize_prize_entries [] = Inr []"
| "normalize_prize_entries ((name, places) # rest) =
     (case parse_board name of
        None \<Rightarrow> Inl UNKNOWN_BOARD
      | Some b \<Rightarrow>
          (case places of
             JArr ps \<Rightarrow>
               if LEADERBOARD_PRIZE_PLACES < length ps then Inl TOO_MANY_PLACES
               else and_then (map_results (\<lambda>_. normalize_prize) 0
                      (map (js_at ps) [0..<LEADERBOARD_PRIZE_PLACES])) (\<lambda>normalized.
                    and_then (normalize_prize_entries rest) (\<lambda>result.
                      Inr (if \<exists>p\<in>set normalized. p \<noteq> None then (b, normalized) # result else result)))
           | _ \<Rightarrow> Inl TOO_MANY_PLACES))"

definition normalize_prize_set :: "js_value \<Rightarrow> config_error + prize_set" where
  "normalize_prize_set v =
     (case v of
        JUndef \<Rightarrow> Inr [] | JNull \<Rightarrow> Inr []
      | JObj entries \<Rightarrow> normalize_prize_entries entries
      | _ \<Rightarrow> Inl PRIZES_FORMAT)"

fun normalize_scopes ::
  "string list option \<Rightarrow> (string \<times> js_value) list \<Rightarrow> config_error + (string \<times> prize_set) list" where
  "normalize_scopes valid [] = Inr []"
| "normalize_scopes valid ((scopeKey, v) # rest) =
     (if (case valid of None \<Rightarrow> False | Some keys \<Rightarrow> scopeKey \<notin> set keys) then Inl UNKNOWN_CLUB
      else and_then (normalize_prize_set v) (\<lambda>normalized.
           and_then (normalize_scopes valid rest) (\<lambda>result.
             Inr (if normalized \<noteq> [] then (scopeKey, normalized) # result else result))))"

definition normalize_boards :: "js_value \<Rightarrow> config_error + (board \<times> bool) list" where
  "normalize_boards v =
     (case v of
        JUndef \<Rightarrow> Inr (lc_boards default_leaderboard_config)
      | JObj obj \<Rightarrow>
          Inr (map (\<lambda>b. let flag = js_prop obj (board_name b)
                        in (b, if flag \<noteq> JUndef then flag = JBool True else True))
                LEADERBOARD_BOARDS)
      | _ \<Rightarrow> Inl BOARDS_FORMAT)"

definition normalize_formula :: "js_value \<Rightarrow> config_error + formula" where
  "normalize_formula v =
     (let f = (case v of JObj obj \<Rightarrow> obj | _ \<Rightarrow> []);
          base = DEFAULT_LEADERBOARD_FORMULA
      in and_then (formula_value (js_prop f ''hourPoints'') (hourPoints base)) (\<lambda>h.
         and_then (formula_value (js_prop f ''questPoints'') (questPoints base)) (\<lambda>q.
         and_then (formula_value (js_prop f ''casePoints'') (casePoints base)) (\<lambda>c.
         and_then (formula_value (js_prop f ''checkInPoints'') (checkInPoints base)) (\<lambda>i.
           Inr \<lparr>hourPoints = h, questPoints = q, casePoints = c, checkInPoints = i\<rparr>)))))"

definition normalize_prizes ::
  "string list option \<Rightarrow> js_value \<Rightarrow> config_error + (string \<times> prize_set) list" where
  "normalize_prizes valid v =
     (case v of
        JUndef \<Rightarrow> Inr [] | JNull \<Rightarrow> Inr []
      | JObj entries \<Rightarrow> normalize_scopes valid entries
      | _ \<Rightarrow> Inl PRIZES_FORMAT)"

definition normalize_leaderboard_config ::
  "string list option \<Rightarrow> js_value \<Rightarrow> config_error + leaderboard_config" where
  "normalize_leaderboard_config valid input =
     (case input of
        JUndef \<Rightarrow> Inr default_leaderboard_config
      | JNull \<Rightarrow> Inr default_leaderboard_config
      | JObj obj \<Rightarrow>
          and_then (normalize_boards (js_prop obj ''boards'')) (\<lambda>boards.
          and_then (normalize_formula (js_prop obj ''formula'')) (\<lambda>f.
          and_then (normalize_prizes valid (js_prop obj ''prizes'')) (\<lambda>prizes.
          and_then (unique_ids (js_prop obj ''disabledStoreIds'') MAX_DISABLED_STORES) (\<lambda>disabled.
          and_then (unique_ids (js_prop obj ''excludedProfileIds'') MAX_EXCLUDED_PROFILES) (\<lambda>excluded.
            Inr \<lparr>lc_networkEnabled =
                   (let n = js_prop obj ''networkEnabled'' in if n = JUndef then True else n = JBool True),
                 lc_disabledStoreIds = disabled, lc_boards = boards, lc_formula = f,
                 lc_prizes = prizes, lc_excludedProfileIds = excluded\<rparr>)))))
      | _ \<Rightarrow> Inl SETTINGS_FORMAT)"

definition board_enabled :: "leaderboard_config \<Rightarrow> board \<Rightarrow> bool" where
  "board_enabled config b = get_or (map_of (lc_boards config) b) False"

definition enabled_leaderboard_boards :: "leaderboard_config \<Rightarrow> board list" where
  "enabled_leaderboard_boards config = filter (board_enabled config) LEADERBOARD_BOARDS"

section \<open>Prizes\<close>

definition prizes_of :: "leaderboard_config \<Rightarrow> string \<Rightarrow> board \<Rightarrow> prize option list" where
  "prizes_of config scopeKey b =
     get_or (map_of (get_or (map_of (lc_prizes config) scopeKey) []) b) []"

definition leaderboard_prize_for_rank ::
  "leaderboard_config \<Rightarrow> string \<Rightarrow> board \<Rightarrow> int \<Rightarrow> prize option" where
  "leaderboard_prize_for_rank config scopeKey b rank =
     (if rank < 1 \<or> int LEADERBOARD_PRIZE_PLACES < rank then None
      else let places = prizes_of config scopeKey b; i = nat (rank - 1)
           in if i < length places then places ! i else None)"

definition prize_loot_boxes :: "prize option list \<Rightarrow> string list" where
  "prize_loot_boxes places = concat (map (\<lambda>p. case p of Some (LOOT_BOX i) \<Rightarrow> [i] | _ \<Rightarrow> []) places)"

definition leaderboard_prize_loot_box_ids :: "leaderboard_config \<Rightarrow> string list" where
  "leaderboard_prize_loot_box_ids config =
     js_uniq (concat (map (\<lambda>(_, prize_set). concat (map (\<lambda>(_, places). prize_loot_boxes places) prize_set))
       (lc_prizes config)))"

section \<open>Well formed settings\<close>

definition valid_id :: "string \<Rightarrow> bool" where
  "valid_id s \<longleftrightarrow> s \<noteq> [] \<and> js_trim s = s \<and> length s \<le> 64"

definition valid_ids :: "nat \<Rightarrow> string list \<Rightarrow> bool" where
  "valid_ids limit ids \<longleftrightarrow> distinct ids \<and> length ids \<le> limit \<and> (\<forall>i\<in>set ids. valid_id i)"

fun valid_prize :: "prize \<Rightarrow> bool" where
  "valid_prize (BONUS n) = (1 \<le> n \<and> n \<le> BONUS_PRIZE_MAX)"
| "valid_prize (LOOT_BOX s) = (s \<noteq> [] \<and> js_trim s = s)"
| "valid_prize (CUSTOM l) = (l \<noteq> [] \<and> js_trim l = l \<and> length l \<le> CUSTOM_PRIZE_MAX_LENGTH)"

definition valid_places :: "prize option list \<Rightarrow> bool" where
  "valid_places ps \<longleftrightarrow>
     length ps = LEADERBOARD_PRIZE_PLACES \<and> (\<exists>p\<in>set ps. p \<noteq> None) \<and>
     (\<forall>p. Some p \<in> set ps \<longrightarrow> valid_prize p)"

definition valid_formula :: "formula \<Rightarrow> bool" where
  "valid_formula f \<longleftrightarrow>
     (\<forall>n\<in>{hourPoints f, questPoints f, casePoints f, checkInPoints f}. 0 \<le> n \<and> n \<le> FORMULA_MAX)"

definition well_formed_config :: "leaderboard_config \<Rightarrow> bool" where
  "well_formed_config c \<longleftrightarrow>
     map fst (lc_boards c) = LEADERBOARD_BOARDS \<and> valid_formula (lc_formula c) \<and>
     (\<forall>(scopeKey, prizes)\<in>set (lc_prizes c). prizes \<noteq> [] \<and> (\<forall>(b, ps)\<in>set prizes. valid_places ps)) \<and>
     valid_ids MAX_DISABLED_STORES (lc_disabledStoreIds c) \<and>
     valid_ids MAX_EXCLUDED_PROFILES (lc_excludedProfileIds c)"

lemma js_integer_Some: "js_integer v = Some n \<longleftrightarrow> v = JNum (of_int n)"
  by (auto simp: js_integer_def split: js_value.splits if_splits)

lemma collect_ids_valid:
  "collect_ids items ids = Inr out \<Longrightarrow> distinct ids \<Longrightarrow> \<forall>i\<in>set ids. valid_id i \<Longrightarrow>
   distinct out \<and> (\<forall>i\<in>set out. valid_id i)"
proof (induction items arbitrary: ids)
  case (Cons item items)
  then obtain s where item: "item = JStr s"
    by (cases item) simp_all
  define acc where "acc = (if js_trim s \<in> set ids then ids else ids @ [js_trim s])"
  have "(if js_trim s = [] \<or> 64 < length s then Inl BAD_ID else collect_ids items acc) = Inr out"
    using Cons.prems(1) unfolding acc_def by (simp add: item del: if_split)
  then have s: "js_trim s \<noteq> []" "length s \<le> 64" and rest: "collect_ids items acc = Inr out"
    by (simp_all split: if_splits)
  have "valid_id (js_trim s)"
    using s length_js_trim_le [of s] by (simp add: valid_id_def)
  with Cons.prems(2,3) have "distinct acc" "\<forall>i\<in>set acc. valid_id i"
    by (simp_all add: acc_def)
  with Cons.IH [OF rest] show ?case by blast
qed simp

lemma unique_ids_valid: "unique_ids v limit = Inr ids \<Longrightarrow> valid_ids limit ids"
  using collect_ids_valid [of _ "[]" ids]
  by (auto simp: unique_ids_def valid_ids_def split: js_value.splits if_splits)

lemma formula_value_valid:
  "formula_value v d = Inr n \<Longrightarrow> 0 \<le> d \<Longrightarrow> d \<le> FORMULA_MAX \<Longrightarrow> 0 \<le> n \<and> n \<le> FORMULA_MAX"
  by (auto simp: formula_value_def split: if_splits option.splits)

lemma normalize_formula_valid:
  assumes "normalize_formula v = Inr f"
  shows "valid_formula f"
proof -
  define obj where "obj = (case v of JObj obj \<Rightarrow> obj | _ \<Rightarrow> [])"
  obtain h q c i where parsed: "formula_value (js_prop obj ''hourPoints'') 10 = Inr h"
      "formula_value (js_prop obj ''questPoints'') 30 = Inr q"
      "formula_value (js_prop obj ''casePoints'') 5 = Inr c"
      "formula_value (js_prop obj ''checkInPoints'') 5 = Inr i"
    and f: "f = \<lparr>hourPoints = h, questPoints = q, casePoints = c, checkInPoints = i\<rparr>"
    using assms by (auto simp: normalize_formula_def DEFAULT_LEADERBOARD_FORMULA_def Let_def obj_def)
  note range = parsed [THEN formula_value_valid, unfolded FORMULA_MAX_def, simplified]
  then show ?thesis
    by (simp add: f valid_formula_def FORMULA_MAX_def)
qed

lemma normalize_prize_valid: "normalize_prize v = Inr (Some p) \<Longrightarrow> valid_prize p"
  by (auto simp: normalize_prize_def Let_def split: js_value.splits if_splits option.splits)

lemma normalize_prize_entries_valid:
  "normalize_prize_entries entries = Inr prizes \<Longrightarrow> (b, ps) \<in> set prizes \<Longrightarrow> valid_places ps"
proof (induction entries arbitrary: prizes)
  case (Cons e entries)
  obtain name places where e: "e = (name, places)" by fastforce
  from Cons.prems(1) obtain b' qs normalized result where parts: "parse_board name = Some b'"
      "places = JArr qs"
      "map_results (\<lambda>_. normalize_prize) 0 (map (js_at qs) [0..<LEADERBOARD_PRIZE_PLACES]) = Inr normalized"
      "normalize_prize_entries entries = Inr result"
    by (auto simp: e split: option.splits js_value.splits if_splits)
  have prizes: "prizes = (if \<exists>p\<in>set normalized. p \<noteq> None then (b', normalized) # result else result)"
    using Cons.prems(1) parts by (auto simp: e split: if_splits)
  have "length normalized = LEADERBOARD_PRIZE_PLACES"
    using map_results_length [OF parts(3)] by simp
  moreover have "\<forall>p. Some p \<in> set normalized \<longrightarrow> valid_prize p"
    using map_results_all [OF parts(3)] normalize_prize_valid by blast
  ultimately show ?case
    using Cons.IH [OF parts(4)] Cons.prems(2) prizes by (auto simp: valid_places_def split: if_splits)
qed simp

lemma normalize_scopes_valid:
  "normalize_scopes valid entries = Inr out \<Longrightarrow> (k, prizes) \<in> set out \<Longrightarrow>
   prizes \<noteq> [] \<and> (\<forall>(b, ps)\<in>set prizes. valid_places ps)"
proof (induction entries arbitrary: out)
  case (Cons e entries)
  obtain key v where e: "e = (key, v)" by fastforce
  from Cons.prems(1) obtain normalized result where parts: "normalize_prize_set v = Inr normalized"
      "normalize_scopes valid entries = Inr result"
      "out = (if normalized \<noteq> [] then (key, normalized) # result else result)"
    by (auto simp: e split: if_splits option.splits)
  have "\<forall>(b, ps)\<in>set normalized. valid_places ps"
    using parts(1) normalize_prize_entries_valid
    by (auto simp: normalize_prize_set_def split: js_value.splits)
  with Cons.IH [OF parts(2)] Cons.prems(2) parts(3) show ?case by (auto split: if_splits)
qed simp

lemma normalize_prizes_valid:
  "normalize_prizes valid v = Inr out \<Longrightarrow> (k, prizes) \<in> set out \<Longrightarrow>
   prizes \<noteq> [] \<and> (\<forall>(b, ps)\<in>set prizes. valid_places ps)"
  using normalize_scopes_valid by (fastforce simp: normalize_prizes_def split: js_value.splits)

lemma normalize_boards_valid: "normalize_boards v = Inr boards \<Longrightarrow> map fst boards = LEADERBOARD_BOARDS"
  by (auto simp: normalize_boards_def default_leaderboard_config_def Let_def comp_def
      split: js_value.splits)

lemma default_config_well_formed: "well_formed_config default_leaderboard_config"
  by (simp add: well_formed_config_def default_leaderboard_config_def valid_formula_def
      DEFAULT_LEADERBOARD_FORMULA_def FORMULA_MAX_def valid_ids_def comp_def)

lemma normalized_config_well_formed:
  assumes "normalize_leaderboard_config valid input = Inr c"
  shows "well_formed_config c"
proof (cases input)
  case (JObj obj)
  then obtain boards f prizes disabled excluded
    where "normalize_boards (js_prop obj ''boards'') = Inr boards"
      "normalize_formula (js_prop obj ''formula'') = Inr f"
      "normalize_prizes valid (js_prop obj ''prizes'') = Inr prizes"
      "unique_ids (js_prop obj ''disabledStoreIds'') MAX_DISABLED_STORES = Inr disabled"
      "unique_ids (js_prop obj ''excludedProfileIds'') MAX_EXCLUDED_PROFILES = Inr excluded"
      "lc_boards c = boards" "lc_formula c = f" "lc_prizes c = prizes"
      "lc_disabledStoreIds c = disabled" "lc_excludedProfileIds c = excluded"
    using assms by (auto simp: normalize_leaderboard_config_def)
  then show ?thesis
    using normalize_boards_valid normalize_formula_valid normalize_prizes_valid unique_ids_valid
    unfolding well_formed_config_def by blast
qed (use assms default_config_well_formed in \<open>auto simp: normalize_leaderboard_config_def\<close>)

section \<open>Storing and reading back\<close>

text \<open>The stored document: the settings written as JSON.\<close>

fun prize_json :: "prize option \<Rightarrow> js_value" where
  "prize_json None = JNull"
| "prize_json (Some (BONUS n)) = JObj [(''kind'', JStr ''BONUS''), (''amount'', JNum (of_int n))]"
| "prize_json (Some (LOOT_BOX i)) = JObj [(''kind'', JStr ''LOOT_BOX''), (''lootBoxId'', JStr i)]"
| "prize_json (Some (CUSTOM l)) = JObj [(''kind'', JStr ''CUSTOM''), (''label'', JStr l)]"

definition prize_set_json :: "prize_set \<Rightarrow> js_value" where
  "prize_set_json prizes = JObj (map (\<lambda>(b, ps). (board_name b, JArr (map prize_json ps))) prizes)"

definition config_json :: "leaderboard_config \<Rightarrow> js_value" where
  "config_json c =
     JObj [(''version'', JNum 1), (''networkEnabled'', JBool (lc_networkEnabled c)),
       (''disabledStoreIds'', JArr (map JStr (lc_disabledStoreIds c))),
       (''boards'', JObj (map (\<lambda>(b, on). (board_name b, JBool on)) (lc_boards c))),
       (''formula'', JObj [(''hourPoints'', JNum (of_int (hourPoints (lc_formula c)))),
          (''questPoints'', JNum (of_int (questPoints (lc_formula c)))),
          (''casePoints'', JNum (of_int (casePoints (lc_formula c)))),
          (''checkInPoints'', JNum (of_int (checkInPoints (lc_formula c))))]),
       (''prizes'', JObj (map (\<lambda>(k, prizes). (k, prize_set_json prizes)) (lc_prizes c))),
       (''excludedProfileIds'', JArr (map JStr (lc_excludedProfileIds c)))]"

lemma parse_board_name [simp]: "parse_board (board_name b) = Some b"
  by (cases b) (simp_all add: parse_board_def LEADERBOARD_BOARDS_def)

lemma js_integer_of_int [simp]: "js_integer (JNum (of_int n)) = Some n"
  by (simp add: js_integer_Some)

lemma collect_ids_roundtrip:
  "distinct (acc @ ids) \<Longrightarrow> \<forall>i\<in>set ids. valid_id i \<Longrightarrow> collect_ids (map JStr ids) acc = Inr (acc @ ids)"
  by (induction ids arbitrary: acc) (auto simp: valid_id_def)

lemma unique_ids_roundtrip: "valid_ids limit ids \<Longrightarrow> unique_ids (JArr (map JStr ids)) limit = Inr ids"
  using collect_ids_roundtrip [of "[]" ids] by (simp add: unique_ids_def valid_ids_def)

lemma prize_roundtrip:
  "(case p of None \<Rightarrow> True | Some q \<Rightarrow> valid_prize q) \<Longrightarrow> normalize_prize (prize_json p) = Inr p"
  by (cases p rule: prize_json.cases) (auto simp: normalize_prize_def)

lemma places_roundtrip:
  assumes "valid_places ps"
  shows "map_results (\<lambda>_. normalize_prize) 0
    (map (js_at (map prize_json ps)) [0..<LEADERBOARD_PRIZE_PLACES]) = Inr ps"
proof -
  have "map (js_at (map prize_json ps)) [0..<LEADERBOARD_PRIZE_PLACES] = map prize_json ps"
    using assms by (intro nth_equalityI) (auto simp: valid_places_def js_at_def)
  moreover have "p \<in> set ps \<Longrightarrow> normalize_prize (prize_json p) = Inr p" for p
    using assms by (intro prize_roundtrip) (auto simp: valid_places_def split: option.splits)
  ultimately show ?thesis
    using map_results_map [of ps "\<lambda>_. normalize_prize" prize_json 0] by simp
qed

lemma prize_entries_roundtrip:
  "\<forall>(b, ps)\<in>set prizes. valid_places ps \<Longrightarrow>
   normalize_prize_entries (map (\<lambda>(b, ps). (board_name b, JArr (map prize_json ps))) prizes) = Inr prizes"
proof (induction prizes)
  case (Cons e prizes)
  obtain b ps where e: "e = (b, ps)" by fastforce
  with Cons.prems have ps: "valid_places ps" by simp
  then have "length ps = LEADERBOARD_PRIZE_PLACES" "\<exists>p\<in>set ps. p \<noteq> None"
    by (auto simp: valid_places_def)
  with places_roundtrip [OF ps] Cons show ?case by (auto simp: e)
qed simp

lemma scopes_roundtrip:
  "\<forall>(k, prizes)\<in>set scopes. prizes \<noteq> [] \<and> (\<forall>(b, ps)\<in>set prizes. valid_places ps) \<Longrightarrow>
   normalize_scopes None (map (\<lambda>(k, prizes). (k, prize_set_json prizes)) scopes) = Inr scopes"
proof (induction scopes)
  case (Cons e scopes)
  obtain k prizes where e: "e = (k, prizes)" by fastforce
  with Cons.prems have "prizes \<noteq> []" "normalize_prize_set (prize_set_json prizes) = Inr prizes"
    using prize_entries_roundtrip [of prizes] by (auto simp: normalize_prize_set_def prize_set_json_def)
  with Cons show ?case by (simp add: e)
qed simp

lemma boards_roundtrip:
  assumes "map fst boards = LEADERBOARD_BOARDS"
  shows "normalize_boards (JObj (map (\<lambda>(b, on). (board_name b, JBool on)) boards)) = Inr boards"
proof -
  obtain p h s q c where "boards = [(POINTS, p), (HOURS, h), (SESSIONS, s), (QUESTS, q), (CASES, c)]"
    using assms by (auto simp: LEADERBOARD_BOARDS_def map_eq_Cons_conv)
  then show ?thesis
    by (simp add: normalize_boards_def LEADERBOARD_BOARDS_def)
qed

text \<open>
  C22: Validated settings survive storage. Whatever document is accepted by the validation, the
  settings it yields are well formed (formula values between 0 and 10000, bonus prizes between 1 and a
  million, three places per board with at least one prize, trimmed and distinct ids within their
  limits), and reading the stored form of these settings back through the validation is accepted and
  gives the same settings.
\<close>

theorem leaderboard_config_roundtrip:
  assumes "normalize_leaderboard_config valid input = Inr c"
  shows "well_formed_config c \<and> normalize_leaderboard_config None (config_json c) = Inr c"
proof -
  have wf: "well_formed_config c"
    using assms by (rule normalized_config_well_formed)
  then have f: "valid_formula (lc_formula c)" by (simp add: well_formed_config_def)
  have "normalize_formula (JObj [(''hourPoints'', JNum (of_int (hourPoints (lc_formula c)))),
          (''questPoints'', JNum (of_int (questPoints (lc_formula c)))),
          (''casePoints'', JNum (of_int (casePoints (lc_formula c)))),
          (''checkInPoints'', JNum (of_int (checkInPoints (lc_formula c))))]) = Inr (lc_formula c)"
    using f by (auto simp: normalize_formula_def formula_value_def valid_formula_def)
  moreover have "normalize_prizes None (JObj (map (\<lambda>(k, prizes). (k, prize_set_json prizes)) (lc_prizes c)))
      = Inr (lc_prizes c)"
    using scopes_roundtrip [of "lc_prizes c"] wf by (simp add: normalize_prizes_def well_formed_config_def)
  ultimately show ?thesis
    using wf boards_roundtrip [of "lc_boards c"]
      unique_ids_roundtrip [of MAX_DISABLED_STORES "lc_disabledStoreIds c"]
      unique_ids_roundtrip [of MAX_EXCLUDED_PROFILES "lc_excludedProfileIds c"]
    by (simp add: normalize_leaderboard_config_def config_json_def well_formed_config_def)
qed

definition sample_settings :: js_value where
  "sample_settings =
     JObj [(''prizes'', JObj [(''network'', JObj [(''points'', JArr [JObj [(''kind'', JStr ''BONUS''),
        (''amount'', JNum 500)], JNull, JObj [(''kind'', JStr ''CUSTOM''), (''label'', JStr '' mug '')]])])]),
       (''boards'', JObj [(''cases'', JBool False)])]"

lemma leaderboard_config_roundtrip_witness:
  "\<exists>c. normalize_leaderboard_config (Some [''network'']) sample_settings = Inr c \<and>
     normalize_leaderboard_config None (config_json c) = Inr c \<and>
     prizes_of c ''network'' POINTS = [Some (BONUS 500), None, Some (CUSTOM ''mug'')]"
proof -
  let ?c = "\<lparr>lc_networkEnabled = True, lc_disabledStoreIds = [],
    lc_boards = [(POINTS, True), (HOURS, True), (SESSIONS, True), (QUESTS, True), (CASES, False)],
    lc_formula = DEFAULT_LEADERBOARD_FORMULA,
    lc_prizes = [(''network'', [(POINTS, [Some (BONUS 500), None, Some (CUSTOM ''mug'')])])],
    lc_excludedProfileIds = []\<rparr>"
  have "normalize_leaderboard_config (Some [''network'']) sample_settings = Inr ?c"
    by code_simp
  with leaderboard_config_roundtrip [OF this] show ?thesis
    by (intro exI [of _ ?c]) (simp add: prizes_of_def)
qed

end
