(* ===== verification/Leaderboard_Core.thy ===== *)
theory Leaderboard_Core
  imports Leaderboard_Config Js_Sort "HOL-Library.Sublist"
begin

text \<open>
  \<open>guest-leaderboard/guest-leaderboard-core.ts\<close>, the values and the ranking: the activity rows are
  summed per profile, turned into the value of a board, ranked, and shown to a guest with the top and
  the guest's own neighbourhood, together with what is missing to overtake the next better place.

  \<open>locale_compare\<close> is \<open>String.prototype.localeCompare\<close> on profile ids. A \<open>Map\<close> is an association list in
  insertion order. The specification of a place is \<open>place\<close>: one more than the number of strictly
  better values (competition ranking).
\<close>

section \<open>Totals\<close>

record activity_row =
  ar_profileId :: string
  ar_storeId :: "string option"
  ar_playMinutes :: int
  ar_sessions :: int
  ar_quests :: int
  ar_cases :: int
  ar_checkIns :: int

record totals =
  lt_profileId :: string
  lt_playMinutes :: int
  lt_sessions :: int
  lt_quests :: int
  lt_cases :: int
  lt_checkIns :: int

definition no_activity :: "string \<Rightarrow> totals" where
  "no_activity p =
     \<lparr>lt_profileId = p, lt_playMinutes = 0, lt_sessions = 0, lt_quests = 0, lt_cases = 0,
      lt_checkIns = 0\<rparr>"

definition add_activity :: "activity_row \<Rightarrow> totals \<Rightarrow> totals" where
  "add_activity row t =
     t\<lparr>lt_playMinutes := lt_playMinutes t + ar_playMinutes row,
       lt_sessions := lt_sessions t + ar_sessions row,
       lt_quests := lt_quests t + ar_quests row,
       lt_cases := lt_cases t + ar_cases row,
       lt_checkIns := lt_checkIns t + ar_checkIns row\<rparr>"

fun leaderboard_totals_into ::
  "(string \<times> totals) list \<Rightarrow> activity_row list \<Rightarrow> string option \<Rightarrow> (string \<times> totals) list" where
  "leaderboard_totals_into m [] store = m"
| "leaderboard_totals_into m (row # rows) store =
     (if store \<noteq> None \<and> ar_storeId row \<noteq> store then leaderboard_totals_into m rows store
      else leaderboard_totals_into
             (AList.update (ar_profileId row)
               (add_activity row (get_or (map_of m (ar_profileId row)) (no_activity (ar_profileId row)))) m)
             rows store)"

definition leaderboard_totals ::
  "activity_row list \<Rightarrow> string option \<Rightarrow> (string \<times> totals) list" where
  "leaderboard_totals rows store = leaderboard_totals_into [] rows store"

fun leaderboard_value :: "board \<Rightarrow> totals \<Rightarrow> formula \<Rightarrow> int" where
  "leaderboard_value POINTS t f =
     round_div (lt_playMinutes t * hourPoints f) 60 + lt_quests t * questPoints f +
     lt_cases t * casePoints f + lt_checkIns t * checkInPoints f"
| "leaderboard_value HOURS t f = lt_playMinutes t"
| "leaderboard_value SESSIONS t f = lt_sessions t"
| "leaderboard_value QUESTS t f = lt_quests t"
| "leaderboard_value CASES t f = lt_cases t"

section \<open>Ranking\<close>

record standing =
  st_profileId :: string
  st_value :: int
  st_rank :: int

definition compare_values ::
  "(string \<Rightarrow> string \<Rightarrow> int) \<Rightarrow> (string \<times> int) \<Rightarrow> (string \<times> int) \<Rightarrow> int" where
  "compare_values locale_compare a b =
     (if snd b - snd a \<noteq> 0 then snd b - snd a else locale_compare (fst a) (fst b))"

text \<open>The values of the profiles that rank, best first.\<close>

definition ranked_values ::
  "(string \<Rightarrow> string \<Rightarrow> int) \<Rightarrow> (string \<times> totals) list \<Rightarrow> board \<Rightarrow> formula \<Rightarrow> string list \<Rightarrow>
   (string \<times> int) list" where
  "ranked_values locale_compare totals_map b f excluded =
     js_sort (compare_values locale_compare)
       (filter (\<lambda>(p, v). 0 < v)
         (map (\<lambda>t. (lt_profileId t, leaderboard_value b t f))
           (filter (\<lambda>t. lt_profileId t \<notin> set excluded) (map snd totals_map))))"

text \<open>The loop over the sorted values with \<open>rank\<close> and \<open>previous\<close>.\<close>

fun assign_ranks :: "int \<Rightarrow> int \<Rightarrow> int option \<Rightarrow> (string \<times> int) list \<Rightarrow> standing list" where
  "assign_ranks index rank previous [] = []"
| "assign_ranks index rank previous ((p, v) # rest) =
     (let rank' = (if Some v \<noteq> previous then index + 1 else rank)
      in \<lparr>st_profileId = p, st_value = v, st_rank = rank'\<rparr> #
         assign_ranks (index + 1) rank' (Some v) rest)"

definition rank_leaderboard ::
  "(string \<Rightarrow> string \<Rightarrow> int) \<Rightarrow> (string \<times> totals) list \<Rightarrow> board \<Rightarrow> formula \<Rightarrow> string list \<Rightarrow>
   standing list" where
  "rank_leaderboard locale_compare totals_map b f excluded =
     assign_ranks 0 0 None (ranked_values locale_compare totals_map b f excluded)"

section \<open>What a guest sees\<close>

record target =
  tg_rank :: int
  tg_gap :: int
  tg_profileId :: string

text \<open>\<open>findIndex\<close>, and the search upwards for a strictly better value.\<close>

fun find_index :: "('a \<Rightarrow> bool) \<Rightarrow> 'a list \<Rightarrow> nat option" where
  "find_index P [] = None"
| "find_index P (x # xs) = (if P x then Some 0 else map_option Suc (find_index P xs))"

fun better_above :: "standing list \<Rightarrow> int \<Rightarrow> nat \<Rightarrow> target option" where
  "better_above standings value 0 = None"
| "better_above standings value (Suc i) =
     (let s = standings ! i in
      if value < st_value s
      then Some \<lparr>tg_rank = st_rank s, tg_gap = st_value s - value + 1, tg_profileId = st_profileId s\<rparr>
      else better_above standings value i)"

definition leaderboard_target :: "standing list \<Rightarrow> string \<Rightarrow> target option" where
  "leaderboard_target standings profileId =
     (case find_index (\<lambda>s. st_profileId s = profileId) standings of
        None \<Rightarrow>
          (if standings = [] then None
           else let s = last standings
                in Some \<lparr>tg_rank = st_rank s, tg_gap = st_value s + 1, tg_profileId = st_profileId s\<rparr>)
      | Some i \<Rightarrow> better_above standings (st_value (standings ! i)) i)"

text \<open>The rows with the flag \<open>gapBefore\<close>; \<open>js_slice\<close> is \<open>slice\<close> for indices that are not negative.\<close>

definition js_slice :: "nat \<Rightarrow> nat \<Rightarrow> 'a list \<Rightarrow> 'a list" where
  "js_slice a b xs = drop a (take b xs)"

definition leaderboard_visible_rows ::
  "standing list \<Rightarrow> string \<Rightarrow> nat \<Rightarrow> (standing \<times> bool) list" where
  "leaderboard_visible_rows standings profileId top_size =
     map (\<lambda>s. (s, False)) (js_slice 0 top_size standings) @
     (case find_index (\<lambda>s. st_profileId s = profileId) standings of
        None \<Rightarrow> []
      | Some i \<Rightarrow>
          if top_size \<le> i then
            (let start = max top_size (i - 1)
             in case js_slice start (i + 2) standings of
                  [] \<Rightarrow> []
                | s # rest \<Rightarrow> (s, top_size < start) # map (\<lambda>s. (s, False)) rest)
          else [])"

section \<open>Totals are sums\<close>

definition counts_for :: "string option \<Rightarrow> string \<Rightarrow> activity_row \<Rightarrow> bool" where
  "counts_for store p row \<longleftrightarrow> (store = None \<or> ar_storeId row = store) \<and> ar_profileId row = p"

lemma add_activity_profile [simp]: "lt_profileId (add_activity row t) = lt_profileId t"
  by (simp add: add_activity_def)

lemma map_of_totals_into:
  "map_of (leaderboard_totals_into m rows store) p =
     (if \<exists>r\<in>set rows. counts_for store p r
      then Some (fold add_activity (filter (counts_for store p) rows) (get_or (map_of m p) (no_activity p)))
      else map_of m p)"
proof (induction rows arbitrary: m)
  case (Cons row rows)
  have counts: "counts_for store p row \<longleftrightarrow> \<not> (store \<noteq> None \<and> ar_storeId row \<noteq> store) \<and> ar_profileId row = p"
    by (auto simp: counts_for_def)
  show ?case
    by (cases "store \<noteq> None \<and> ar_storeId row \<noteq> store"; cases "ar_profileId row = p")
      (auto simp: Cons.IH counts update_conv')
qed simp

lemma distinct_totals_into:
  "distinct (map fst m) \<Longrightarrow> distinct (map fst (leaderboard_totals_into m rows store))"
  by (induction m rows store rule: leaderboard_totals_into.induct) (simp_all add: distinct_update)

lemma distinct_totals: "distinct (map fst (leaderboard_totals rows store))"
  by (simp add: leaderboard_totals_def distinct_totals_into)

lemma fold_add_activity:
  "fold add_activity rows t =
     \<lparr>lt_profileId = lt_profileId t,
      lt_playMinutes = lt_playMinutes t + sum_list (map ar_playMinutes rows),
      lt_sessions = lt_sessions t + sum_list (map ar_sessions rows),
      lt_quests = lt_quests t + sum_list (map ar_quests rows),
      lt_cases = lt_cases t + sum_list (map ar_cases rows),
      lt_checkIns = lt_checkIns t + sum_list (map ar_checkIns rows)\<rparr>"
  by (induction rows arbitrary: t) (simp_all add: add_activity_def)

definition activity_of :: "activity_row list \<Rightarrow> string option \<Rightarrow> string \<Rightarrow> totals" where
  "activity_of rows store p = fold add_activity (filter (counts_for store p) rows) (no_activity p)"

lemma map_of_totals:
  "map_of (leaderboard_totals rows store) p =
     (if \<exists>r\<in>set rows. counts_for store p r then Some (activity_of rows store p) else None)"
  by (simp add: leaderboard_totals_def map_of_totals_into activity_of_def)

lemma activity_of_profile [simp]: "lt_profileId (activity_of rows store p) = p"
  by (simp add: activity_of_def fold_add_activity no_activity_def)

lemma in_totals:
  assumes "(p, t) \<in> set (leaderboard_totals rows store)"
  shows "t = activity_of rows store p" and "lt_profileId t = p"
proof -
  have "map_of (leaderboard_totals rows store) p = Some t"
    using assms distinct_totals by (simp add: map_of_is_SomeI)
  then show "t = activity_of rows store p"
    by (simp add: map_of_totals split: if_splits)
  then show "lt_profileId t = p" by simp
qed

section \<open>Places\<close>

definition place :: "(string \<times> int) list \<Rightarrow> int \<Rightarrow> int" where
  "place xs v = 1 + int (length (filter (\<lambda>(q, w). v < w) xs))"

lemma assign_ranks_values:
  "map (\<lambda>s. (st_profileId s, st_value s)) (assign_ranks index rank previous xs) = xs"
  by (induction index rank previous xs rule: assign_ranks.induct) (simp_all add: Let_def)

lemma last_is_least:
  fixes xs :: "(string \<times> int) list"
  shows "sorted_wrt (\<lambda>a b. snd b \<le> snd a) xs \<Longrightarrow> x \<in> set xs \<Longrightarrow> snd (last xs) \<le> snd x"
  by (induction xs) auto

lemma assign_ranks_place:
  assumes "sorted_wrt (\<lambda>a b. snd b \<le> snd a) (pre @ xs)"
    and "index = int (length pre)"
    and "case previous of None \<Rightarrow> pre = [] | Some v \<Rightarrow> pre \<noteq> [] \<and> snd (last pre) = v \<and> rank = place pre v"
    and "s \<in> set (assign_ranks index rank previous xs)"
  shows "st_rank s = place (pre @ xs) (st_value s)"
  using assms
proof (induction index rank previous xs arbitrary: pre rule: assign_ranks.induct)
  case (2 index rank previous p v rest)
  let ?rank = "if Some v \<noteq> previous then index + 1 else rank"
  have below: "filter (\<lambda>(q, w). v < w) ((p, v) # rest) = []"
    using "2.prems"(1) by (auto simp: filter_empty_conv sorted_wrt_append)
  have above: "\<forall>(q, w)\<in>set pre. v \<le> w"
    using "2.prems"(1) by (auto simp: sorted_wrt_append)
  have "filter (\<lambda>(q, w). v < w) pre = pre" if "previous \<noteq> Some v"
  proof -
    have "v < w" if "(q, w) \<in> set pre" for q w
    proof (cases previous)
      case None
      then show ?thesis using "2.prems"(3) that by simp
    next
      case (Some u)
      then have last: "pre \<noteq> []" "snd (last pre) = u" using "2.prems"(3) by auto
      have "v \<le> u" using above last_in_set [OF last(1)] last(2) by (cases "last pre") auto
      moreover have "u \<le> w"
        using last_is_least [of pre "(q, w)"] "2.prems"(1) that last(2) by (simp add: sorted_wrt_append)
      ultimately show ?thesis using Some \<open>previous \<noteq> Some v\<close> by auto
    qed
    then show ?thesis by (auto intro!: filter_True)
  qed
  then have rank: "?rank = place pre v"
    using "2.prems"(2,3) by (auto simp: place_def split: option.splits)
  have place_all: "place (pre @ (p, v) # rest) v = place pre v"
    using below by (simp add: place_def)
  have last_place: "place (pre @ [(p, v)]) v = place pre v"
    by (simp add: place_def)
  show ?case
  proof (cases "s = \<lparr>st_profileId = p, st_value = v, st_rank = ?rank\<rparr>")
    case True
    then show ?thesis using rank place_all by simp
  next
    case False
    then have "s \<in> set (assign_ranks (index + 1) ?rank (Some v) rest)"
      using "2.prems"(4) by (simp add: Let_def)
    then show ?thesis
      using "2.IH" [of ?rank "pre @ [(p, v)]"] "2.prems"(1,2) rank last_place by simp
  qed
qed simp

section \<open>The ranking\<close>

text \<open>The profiles that compete on a board, with their values.\<close>

definition contenders ::
  "activity_row list \<Rightarrow> string option \<Rightarrow> board \<Rightarrow> formula \<Rightarrow> string list \<Rightarrow> (string \<times> int) set" where
  "contenders rows store b f excluded =
     {(p, v). (\<exists>r\<in>set rows. counts_for store p r) \<and> p \<notin> set excluded \<and>
        v = leaderboard_value b (activity_of rows store p) f \<and> 0 < v}"

lemma compare_values_comparator:
  assumes "js_comparator locale_compare"
  shows "js_comparator (compare_values locale_compare)"
proof
  fix a b :: "string \<times> int"
  show "sgn (compare_values locale_compare b a) = - sgn (compare_values locale_compare a b)"
    using js_comparator.cmp_flip [OF assms, where a = "fst a" and b = "fst b"]
    by (cases "snd a = snd b") (simp add: compare_values_def, simp add: compare_values_def sgn_if)
next
  fix a b c :: "string \<times> int"
  assume "compare_values locale_compare a b \<le> 0" "compare_values locale_compare b c \<le> 0"
  then show "compare_values locale_compare a c \<le> 0"
    using js_comparator.cmp_trans [OF assms, of "fst a" "fst b" "fst c"]
    by (auto simp: compare_values_def split: if_splits)
qed

lemma ranked_values_sorted:
  assumes "js_comparator locale_compare"
  shows "sorted_wrt (\<lambda>a b. snd b \<le> snd a) (ranked_values locale_compare m b f excluded)"
proof -
  have "sorted_wrt (\<lambda>a b. compare_values locale_compare a b \<le> 0) (ranked_values locale_compare m b f excluded)"
    unfolding ranked_values_def
    by (rule js_comparator.sorted_sort [OF compare_values_comparator [OF assms]])
  then show ?thesis
    by (rule sorted_wrt_mono_rel [rotated]) (auto simp: compare_values_def split: if_splits)
qed

lemma distinct_ranked_profiles:
  assumes "distinct (map fst m)" and "\<forall>(p, t)\<in>set m. lt_profileId t = p"
  shows "distinct (map fst (ranked_values locale_compare m b f excluded))"
proof -
  define rows where "rows = map (\<lambda>t. (lt_profileId t, leaderboard_value b t f))
      (filter (\<lambda>t. lt_profileId t \<notin> set excluded) (map snd m))"
  have "map lt_profileId (map snd m) = map fst m"
    using assms(2) by auto
  then have "distinct (map lt_profileId (filter (\<lambda>t. lt_profileId t \<notin> set excluded) (map snd m)))"
    using assms(1) by (metis distinct_map_filter)
  then have "distinct (map fst rows)"
    by (simp add: rows_def comp_def)
  then have "distinct (map fst (filter (\<lambda>(p, v). 0 < v) rows))"
    by (rule distinct_map_filter)
  moreover have "mset (map fst (ranked_values locale_compare m b f excluded)) =
      mset (map fst (filter (\<lambda>(p, v). 0 < v) rows))"
    by (simp add: ranked_values_def rows_def)
  ultimately show ?thesis
    by (metis mset_eq_imp_distinct_iff)
qed

lemma set_ranked_values:
  "set (ranked_values locale_compare (leaderboard_totals rows store) b f excluded) =
     contenders rows store b f excluded"
proof -
  have "t \<in> snd ` set (leaderboard_totals rows store) \<longleftrightarrow>
      (\<exists>p. (\<exists>r\<in>set rows. counts_for store p r) \<and> t = activity_of rows store p)" for t
  proof
    assume "t \<in> snd ` set (leaderboard_totals rows store)"
    then obtain p where p: "(p, t) \<in> set (leaderboard_totals rows store)" by force
    then have "map_of (leaderboard_totals rows store) p \<noteq> None"
      by (metis domIff dom_map_of_conv_image_fst fst_conv imageI)
    then show "\<exists>p. (\<exists>r\<in>set rows. counts_for store p r) \<and> t = activity_of rows store p"
      using in_totals(1) [OF p] by (auto simp: map_of_totals split: if_splits)
  next
    assume "\<exists>p. (\<exists>r\<in>set rows. counts_for store p r) \<and> t = activity_of rows store p"
    then obtain p where p: "\<exists>r\<in>set rows. counts_for store p r" "t = activity_of rows store p"
      by blast
    then have "map_of (leaderboard_totals rows store) p = Some t"
      by (simp add: map_of_totals)
    then show "t \<in> snd ` set (leaderboard_totals rows store)"
      by (metis image_eqI map_of_SomeD snd_conv)
  qed
  then show ?thesis
    by (auto simp: ranked_values_def contenders_def image_iff)
      (metis (mono_tags, lifting) activity_of_profile)
qed

lemma standings_pairs:
  "map (\<lambda>s. (st_profileId s, st_value s)) (rank_leaderboard lc m b f excluded) =
     ranked_values lc m b f excluded"
  by (simp add: rank_leaderboard_def assign_ranks_values)

lemma rank_is_place:
  assumes "js_comparator lc" and "s \<in> set (rank_leaderboard lc m b f excluded)"
  shows "st_rank s = place (ranked_values lc m b f excluded) (st_value s)"
  using assign_ranks_place [where pre = "[]" and index = 0 and rank = 0 and previous = None
      and xs = "ranked_values lc m b f excluded" and s = s] assms ranked_values_sorted [OF assms(1)]
  by (simp add: rank_leaderboard_def)

text \<open>
  C20: The ranking is exact. The standings of a board list precisely the profiles that have activity in
  the scope, are not excluded and have a positive value, each once, best value first; the value is the
  board's value of the sums of the profile's rows; and the rank is one more than the number of
  profiles with a strictly better value, so that equal values share a place.
\<close>

theorem leaderboard_ranking_exact:
  assumes "js_comparator locale_compare"
    and "standings = rank_leaderboard locale_compare (leaderboard_totals rows store) b f excluded"
  shows "(\<lambda>s. (st_profileId s, st_value s)) ` set standings = contenders rows store b f excluded \<and>
    distinct (map st_profileId standings) \<and>
    sorted_wrt (\<lambda>s t. st_value t \<le> st_value s) standings \<and>
    (\<forall>s\<in>set standings.
       st_rank s = 1 + int (card {c \<in> contenders rows store b f excluded. st_value s < snd c}))"
proof (intro conjI ballI)
  let ?ranked = "ranked_values locale_compare (leaderboard_totals rows store) b f excluded"
  have pairs: "map (\<lambda>s. (st_profileId s, st_value s)) standings = ?ranked"
    using assms(2) by (simp add: standings_pairs)
  have ids: "distinct (map fst ?ranked)"
    using distinct_ranked_profiles [OF distinct_totals] in_totals(2) by blast
  show "(\<lambda>s. (st_profileId s, st_value s)) ` set standings = contenders rows store b f excluded"
    using pairs set_ranked_values [of locale_compare rows store b f excluded] by (metis list.set_map)
  have "map st_profileId standings = map fst ?ranked"
    by (simp add: comp_def flip: pairs)
  with ids show "distinct (map st_profileId standings)" by simp
  have "sorted_wrt (\<lambda>a b. snd b \<le> snd a) (map (\<lambda>s. (st_profileId s, st_value s)) standings)"
    using ranked_values_sorted [OF assms(1)] by (simp add: pairs)
  then show "sorted_wrt (\<lambda>s t. st_value t \<le> st_value s) standings"
    by (simp add: sorted_wrt_map)
  fix s assume s: "s \<in> set standings"
  have "distinct (filter (\<lambda>(q, w). st_value s < w) ?ranked)"
    using ids by (simp add: distinct_map)
  then have "length (filter (\<lambda>(q, w). st_value s < w) ?ranked) =
      card {c \<in> set ?ranked. st_value s < snd c}"
    by (simp add: distinct_card [symmetric] case_prod_beta)
  then show "st_rank s = 1 + int (card {c \<in> contenders rows store b f excluded. st_value s < snd c})"
    using rank_is_place [OF assms(1)] s assms(2) by (simp add: place_def set_ranked_values)
qed

definition sample_activity :: "activity_row list" where
  "sample_activity =
     [\<lparr>ar_profileId = ''a'', ar_storeId = Some ''s1'', ar_playMinutes = 90, ar_sessions = 1, ar_quests = 0,
       ar_cases = 0, ar_checkIns = 0\<rparr>,
      \<lparr>ar_profileId = ''b'', ar_storeId = Some ''s1'', ar_playMinutes = 60, ar_sessions = 1, ar_quests = 0,
       ar_cases = 1, ar_checkIns = 0\<rparr>,
      \<lparr>ar_profileId = ''c'', ar_storeId = None, ar_playMinutes = 200, ar_sessions = 2, ar_quests = 0,
       ar_cases = 0, ar_checkIns = 0\<rparr>]"

lemma code_unit_comparator: "js_comparator code_unit_compare"
  using code_units.js_total_comparator_axioms by (simp add: js_total_comparator_def)

lemma sample_ranking:
  "rank_leaderboard code_unit_compare (leaderboard_totals sample_activity (Some ''s1'')) POINTS
     DEFAULT_LEADERBOARD_FORMULA [] =
     [\<lparr>st_profileId = ''a'', st_value = 15, st_rank = 1\<rparr>, \<lparr>st_profileId = ''b'', st_value = 15, st_rank = 1\<rparr>]"
  by code_simp

lemma leaderboard_ranking_exact_witness:
  "card {c \<in> contenders sample_activity (Some ''s1'') POINTS DEFAULT_LEADERBOARD_FORMULA []. 15 < snd c} = 0"
  using leaderboard_ranking_exact [OF code_unit_comparator sample_ranking [symmetric]] by simp

section \<open>The target\<close>

definition own_value :: "standing list \<Rightarrow> string \<Rightarrow> int" where
  "own_value standings p =
     (case find (\<lambda>s. st_profileId s = p) standings of None \<Rightarrow> 0 | Some s \<Rightarrow> st_value s)"

lemma find_index_Some:
  "find_index P xs = Some i \<Longrightarrow> i < length xs \<and> P (xs ! i) \<and> (\<forall>j<i. \<not> P (xs ! j)) \<and> find P xs = Some (xs ! i)"
proof (induction xs arbitrary: i)
  case (Cons x xs)
  show ?case
  proof (cases "P x")
    case False
    then obtain k where k: "find_index P xs = Some k" "i = Suc k"
      using Cons.prems by auto
    have "\<not> P ((x # xs) ! j)" if "j < Suc k" for j
      using Cons.IH [OF k(1)] False that by (cases j) auto
    with Cons.IH [OF k(1)] False k(2) show ?thesis by auto
  qed (use Cons.prems in auto)
qed simp

lemma find_index_None: "find_index P xs = None \<Longrightarrow> find P xs = None \<and> (\<forall>x\<in>set xs. \<not> P x)"
  by (induction xs) (auto split: if_splits)

lemma better_above_spec:
  assumes "sorted_wrt (\<lambda>s t. st_value t \<le> st_value s) standings" and "i \<le> length standings"
  shows "case better_above standings v i of
      None \<Rightarrow> \<forall>j<i. st_value (standings ! j) \<le> v
    | Some t \<Rightarrow> \<exists>j<i. v < st_value (standings ! j) \<and> tg_profileId t = st_profileId (standings ! j) \<and>
        tg_rank t = st_rank (standings ! j) \<and> v + tg_gap t = st_value (standings ! j) + 1 \<and>
        (\<forall>k<i. v < st_value (standings ! k) \<longrightarrow> st_value (standings ! j) \<le> st_value (standings ! k))"
  using assms(2)
proof (induction i)
  case (Suc i)
  have order: "k \<le> i \<Longrightarrow> st_value (standings ! i) \<le> st_value (standings ! k)" for k
    using assms(1) Suc.prems by (cases "k = i") (auto simp: sorted_wrt_iff_nth_less)
  show ?case
  proof (cases "v < st_value (standings ! i)")
    case True
    then show ?thesis
      using order by (auto simp: Let_def intro!: exI [of _ i])
  next
    case False
    then have "\<forall>k. k < Suc i \<and> v < st_value (standings ! k) \<longrightarrow> k < i"
      by (auto simp: less_Suc_eq)
    then show ?thesis
      using Suc.IH Suc.prems False
      by (auto simp: Let_def less_Suc_eq split: option.splits)
  qed
qed simp

text \<open>What a target has to be for a guest with the value \<open>v\<close>.\<close>

definition is_nearest :: "standing list \<Rightarrow> int \<Rightarrow> target option \<Rightarrow> bool" where
  "is_nearest standings v answer =
     (case answer of
        None \<Rightarrow> \<forall>s\<in>set standings. st_value s \<le> v
      | Some t \<Rightarrow> \<exists>s\<in>set standings. v < st_value s \<and>
          tg_profileId t = st_profileId s \<and> tg_rank t = st_rank s \<and> v + tg_gap t = st_value s + 1 \<and>
          (\<forall>s'\<in>set standings. v < st_value s' \<longrightarrow> st_value s \<le> st_value s'))"

lemma nearest_off_board:
  assumes "sorted_wrt (\<lambda>s t. st_value t \<le> st_value s) standings" and "\<forall>s\<in>set standings. 0 < st_value s"
    and "find_index (\<lambda>s. st_profileId s = p) standings = None"
  shows "is_nearest standings 0 (leaderboard_target standings p)"
proof (cases "standings = []")
  case False
  have "\<forall>s\<in>set standings. st_value (last standings) \<le> st_value s"
    using last_is_least [of "map (\<lambda>s. (st_profileId s, st_value s)) standings"] assms(1) False
    by (force simp: sorted_wrt_map last_map)
  then show ?thesis
    using assms(2,3) False last_in_set [OF False]
    by (auto simp: is_nearest_def leaderboard_target_def Let_def intro!: bexI [of _ "last standings"])
qed (simp add: is_nearest_def leaderboard_target_def)

lemma nearest_on_board:
  assumes "sorted_wrt (\<lambda>s t. st_value t \<le> st_value s) standings"
    and "find_index (\<lambda>s. st_profileId s = p) standings = Some i"
  shows "is_nearest standings (st_value (standings ! i)) (leaderboard_target standings p)"
proof -
  let ?v = "st_value (standings ! i)"
  have i: "i < length standings" using find_index_Some [OF assms(2)] by simp
  have above: "\<exists>k<i. standings ! k = s" if s: "s \<in> set standings" "?v < st_value s" for s
  proof -
    obtain k where "k < length standings" "standings ! k = s"
      using s(1) by (auto simp: in_set_conv_nth)
    then show ?thesis
      using assms(1) s(2) i by (metis linorder_neqE_nat not_less order.irrefl sorted_wrt_iff_nth_less)
  qed
  show ?thesis
  proof (cases "better_above standings ?v i")
    case None
    then have "\<forall>j<i. st_value (standings ! j) \<le> ?v"
      using better_above_spec [OF assms(1), of i ?v] i by simp
    with above have "\<forall>s\<in>set standings. st_value s \<le> ?v" by (metis not_less)
    with None assms(2) show ?thesis by (simp add: is_nearest_def leaderboard_target_def)
  next
    case (Some t)
    then obtain j where j: "j < i" "?v < st_value (standings ! j)"
        "tg_profileId t = st_profileId (standings ! j)" "tg_rank t = st_rank (standings ! j)"
        "?v + tg_gap t = st_value (standings ! j) + 1"
      and near: "\<forall>k<i. ?v < st_value (standings ! k) \<longrightarrow> st_value (standings ! j) \<le> st_value (standings ! k)"
      using better_above_spec [OF assms(1), of i ?v] i by auto
    have "\<forall>s'\<in>set standings. ?v < st_value s' \<longrightarrow> st_value (standings ! j) \<le> st_value s'"
      using near above by metis
    moreover have "standings ! j \<in> set standings" using j(1) i by simp
    ultimately show ?thesis
      using Some assms(2) j(2-5)
      by (auto simp: is_nearest_def leaderboard_target_def intro!: bexI [of _ "standings ! j"])
  qed
qed

text \<open>
  C21: The target is the nearest better place. What a guest is told to overtake is a place of the
  board with a strictly better value than the guest's own (zero when the guest is not on the board),
  the lowest such value, with its rank; the gap is the least number of points that makes the guest's
  value strictly better; and nothing is told exactly when nobody is better.
\<close>

theorem leaderboard_target_nearest:
  assumes "js_comparator locale_compare"
    and "standings = rank_leaderboard locale_compare (leaderboard_totals rows store) b f excluded"
  shows "case leaderboard_target standings p of
      None \<Rightarrow> \<forall>s\<in>set standings. st_value s \<le> own_value standings p
    | Some t \<Rightarrow> \<exists>s\<in>set standings. own_value standings p < st_value s \<and>
        tg_profileId t = st_profileId s \<and> tg_rank t = st_rank s \<and>
        own_value standings p + tg_gap t = st_value s + 1 \<and>
        (\<forall>s'\<in>set standings. own_value standings p < st_value s' \<longrightarrow> st_value s \<le> st_value s')"
proof -
  have pairs: "map (\<lambda>s. (st_profileId s, st_value s)) standings =
      ranked_values locale_compare (leaderboard_totals rows store) b f excluded"
    using assms(2) by (simp add: standings_pairs)
  have "sorted_wrt (\<lambda>a b. snd b \<le> snd a) (map (\<lambda>s. (st_profileId s, st_value s)) standings)"
    using ranked_values_sorted [OF assms(1)] by (simp add: pairs)
  then have sorted: "sorted_wrt (\<lambda>s t. st_value t \<le> st_value s) standings"
    by (simp add: sorted_wrt_map)
  have "\<forall>c\<in>set (map (\<lambda>s. (st_profileId s, st_value s)) standings). 0 < snd c"
    unfolding pairs by (auto simp: ranked_values_def)
  then have positive: "\<forall>s\<in>set standings. 0 < st_value s" by simp
  have "is_nearest standings (own_value standings p) (leaderboard_target standings p)"
  proof (cases "find_index (\<lambda>s. st_profileId s = p) standings")
    case None
    then show ?thesis
      using nearest_off_board [OF sorted positive None] find_index_None [OF None]
      by (simp add: own_value_def)
  next
    case (Some i)
    then show ?thesis
      using nearest_on_board [OF sorted Some] find_index_Some [OF Some] by (simp add: own_value_def)
  qed
  then show ?thesis by (simp add: is_nearest_def)
qed

lemma leaderboard_target_nearest_witness:
  "leaderboard_target
     (rank_leaderboard code_unit_compare (leaderboard_totals sample_activity (Some ''s1'')) POINTS
       DEFAULT_LEADERBOARD_FORMULA []) ''z'' = Some \<lparr>tg_rank = 1, tg_gap = 16, tg_profileId = ''b''\<rparr> \<and>
   (\<exists>s\<in>set (rank_leaderboard code_unit_compare (leaderboard_totals sample_activity (Some ''s1'')) POINTS
       DEFAULT_LEADERBOARD_FORMULA []). st_profileId s = ''b'' \<and> st_value s = 15)"
proof -
  let ?r = "rank_leaderboard code_unit_compare (leaderboard_totals sample_activity (Some ''s1'')) POINTS
       DEFAULT_LEADERBOARD_FORMULA []"
  have t: "leaderboard_target ?r ''z'' = Some \<lparr>tg_rank = 1, tg_gap = 16, tg_profileId = ''b''\<rparr>"
    by code_simp
  have "own_value ?r ''z'' = 0" by code_simp
  with leaderboard_target_nearest [OF code_unit_comparator HOL.refl,
      of sample_activity "Some ''s1''" POINTS DEFAULT_LEADERBOARD_FORMULA "[]" "''z''"] t
  show ?thesis by auto
qed

section \<open>The visible rows\<close>

lemma split_slices:
  assumes "t \<le> s" and "s \<le> e"
  shows "xs = take t xs @ drop t (take s xs) @ js_slice s e xs @ drop e xs"
proof -
  have "take e xs = take s xs @ js_slice s e xs"
    unfolding js_slice_def using assms(2)
    by (metis append_take_drop_id min.absorb1 take_take)
  moreover have "take s xs = take t xs @ drop t (take s xs)"
    using assms(1) by (metis append_take_drop_id min.absorb1 take_take)
  ultimately show ?thesis
    by (metis append.assoc append_take_drop_id)
qed

lemma subseq_parts: "subseq (a @ c) (a @ b @ c @ d)"
proof -
  have "subseq c (b @ c @ d)"
    by (intro list_emb_append2 subseq_rev_drop_many) simp
  then show ?thesis by (simp add: list_emb_append_mono)
qed

lemma visible_rows_shape:
  "map fst (leaderboard_visible_rows standings p n) =
    take n standings @
    (case find_index (\<lambda>s. st_profileId s = p) standings of
       Some i \<Rightarrow> if n \<le> i then js_slice (max n (i - 1)) (i + 2) standings else []
     | None \<Rightarrow> [])"
  by (auto simp: leaderboard_visible_rows_def js_slice_def comp_def Let_def
      split: option.splits list.splits)

lemma subseq_take: "subseq (take n xs) xs"
  by (metis append_take_drop_id subseq_order.refl subseq_rev_drop_many)

lemma in_slice:
  assumes "s \<le> j" and "j < e" and "j < length xs"
  shows "xs ! j \<in> set (js_slice s e xs)"
proof -
  have "js_slice s e xs ! (j - s) = xs ! j" and "j - s < length (js_slice s e xs)"
    using assms by (auto simp: js_slice_def)
  then show ?thesis by (metis nth_mem)
qed

lemma in_take: "j < n \<Longrightarrow> j < length xs \<Longrightarrow> xs ! j \<in> set (take n xs)"
  by (auto simp: in_set_conv_nth intro!: exI [of _ j])

text \<open>The two shapes of the visible rows: the top alone, and the top with the guest further down.\<close>

lemma visible_top_only:
  assumes "\<And>i. find_index (\<lambda>s. st_profileId s = p) standings = Some i \<Longrightarrow> i < n"
  shows "map fst (leaderboard_visible_rows standings p n) = take n standings"
  using assms by (auto simp: visible_rows_shape split: option.splits)

lemma visible_with_guest:
  assumes "find_index (\<lambda>s. st_profileId s = p) standings = Some i" and "n \<le> i"
  shows "map fst (leaderboard_visible_rows standings p n) =
    take n standings @ js_slice (max n (i - 1)) (i + 2) standings"
  using assms by (simp add: visible_rows_shape)

text \<open>
  The visible rows are bounded and complete. A guest sees the standings in their order without
  repetition: all places of the top, the guest's own place with the neighbours on both sides when the
  guest is on the board, and never more than three rows beyond the top.
\<close>

theorem leaderboard_visible_rows_bounded:
  "subseq (map fst (leaderboard_visible_rows standings p n)) standings \<and>
   length (leaderboard_visible_rows standings p n) \<le> n + 3 \<and>
   set (take n standings) \<subseteq> set (map fst (leaderboard_visible_rows standings p n)) \<and>
   (\<forall>i. find_index (\<lambda>s. st_profileId s = p) standings = Some i \<longrightarrow>
      (\<forall>j. i \<le> j + 1 \<and> j \<le> i + 1 \<and> (n \<le> i \<or> j = i) \<and> j < length standings \<longrightarrow>
         standings ! j \<in> set (map fst (leaderboard_visible_rows standings p n))))"
proof (cases "\<exists>i. find_index (\<lambda>s. st_profileId s = p) standings = Some i \<and> n \<le> i")
  case False
  then have shape: "map fst (leaderboard_visible_rows standings p n) = take n standings"
    by (intro visible_top_only) auto
  have "length (leaderboard_visible_rows standings p n) \<le> n + 3"
    using arg_cong [OF shape, of length] by simp
  moreover have "\<forall>i. find_index (\<lambda>s. st_profileId s = p) standings = Some i \<longrightarrow> i < n \<and> i < length standings"
    using False find_index_Some by fastforce
  ultimately show ?thesis
    using subseq_take [of n standings] in_take [of _ n standings] by (auto simp: shape)
next
  case True
  then obtain i where i: "find_index (\<lambda>s. st_profileId s = p) standings = Some i" and n: "n \<le> i"
    by auto
  define start where "start = max n (i - 1)"
  have bounds: "n \<le> start" "start \<le> i + 2" "i - 1 \<le> start"
    using n by (auto simp: start_def)
  note shape = visible_with_guest [OF i n, folded start_def]
  have "subseq (take n standings @ js_slice start (i + 2) standings) standings"
    using subseq_parts [of "take n standings" "js_slice start (i + 2) standings"]
      split_slices [OF bounds(1,2), of standings] by metis
  moreover have "length (leaderboard_visible_rows standings p n) \<le> n + 3"
    using arg_cong [OF shape, of length] bounds(3) by (simp add: js_slice_def)
  moreover have "standings ! j \<in> set (take n standings @ js_slice start (i + 2) standings)"
    if "i \<le> j + 1" "j \<le> i + 1" "j < length standings" for j
    using that in_take [of j n standings] in_slice [of start j "i + 2" standings]
    by (cases "j < n") (auto simp: start_def)
  ultimately show ?thesis
    using i by (simp only: shape) auto
qed

lemma leaderboard_visible_rows_bounded_witness:
  "length (leaderboard_visible_rows (map (\<lambda>i. \<lparr>st_profileId = replicate i CHR ''x'', st_value = 50 - int i,
      st_rank = int i + 1\<rparr>) [0..<20]) (replicate 15 CHR ''x'') LEADERBOARD_TOP_SIZE) \<le> 13"
  using leaderboard_visible_rows_bounded [of "map (\<lambda>i. \<lparr>st_profileId = replicate i CHR ''x'',
      st_value = 50 - int i, st_rank = int i + 1\<rparr>) [0..<20]" "replicate 15 CHR ''x''" LEADERBOARD_TOP_SIZE]
  by (simp add: LEADERBOARD_TOP_SIZE_def)

end
