(* ===== verification/Leaderboard_Activity.thy ===== *)
theory Leaderboard_Activity
  imports Leaderboard_Core
begin

text \<open>
  \<open>guest-leaderboard/guest-leaderboard-read.service.ts\<close>, the activity query: what a guest did in a window
  of time, per club, read from the play-time facts, the check-in facts and the reward wallet.

  A table is the list of its rows in the order they are scanned. The query is one SQL statement; every
  common table expression of it is a definition: \<open>players\<close>, \<open>play\<close> (a session counts once, with its
  longest fact, capped at a day), \<open>check_ins\<close>, \<open>quests\<close>, \<open>cases\<close>, and the union grouped by profile and
  club. Of two facts of one session with the same duration the first scanned is taken, which the query
  leaves open. Instants are in milliseconds.
\<close>

section \<open>The tables\<close>

record game_profile =
  gp_id :: string
  gp_tenantId :: string
  gp_guestId :: "string option"
  gp_status :: string
  gp_isStaffTest :: bool
  gp_gameActivatedAt :: "int option"

record activity_fact =
  af_id :: string
  af_tenantId :: string
  af_profileId :: "string option"
  af_storeId :: "string option"
  af_externalDomain :: string
  af_factType :: string
  af_happenedAt :: "int option"
  af_sessionExternalId :: "string option"
  af_durationMinutes :: "int option"
  af_lifecycleStatus :: string

record wallet_item =
  wi_tenantId :: string
  wi_profileId :: string
  wi_storeId :: "string option"
  wi_kind :: string
  wi_sourceKind :: string
  wi_status :: string
  wi_createdAt :: int
  wi_claimedAt :: "int option"

record activity_tables =
  at_profiles :: "game_profile list"
  at_facts :: "activity_fact list"
  at_wallet :: "wallet_item list"

definition PLAY_TIME_FACT_TYPES :: "string list" where
  "PLAY_TIME_FACT_TYPES =
     [''HOURLY_PLAY_TIME_ACCUMULATED'', ''PACKAGE_OR_SUBSCRIPTION_PLAY_TIME_ACCUMULATED'',
      ''SESSION_PLAY_TIME_ACCUMULATED'']"

definition MAX_SESSION_MINUTES :: int where
  "MAX_SESSION_MINUTES = 24 * 60"

definition LEADERBOARD_MIN_SESSION_MINUTES :: int where
  "LEADERBOARD_MIN_SESSION_MINUTES = 30"

section \<open>The query\<close>

text \<open>\<open>players\<close>, and the join with it: the activation of the profile of a row, when it is a player.\<close>

definition is_player :: "string \<Rightarrow> game_profile \<Rightarrow> bool" where
  "is_player tenantId p \<longleftrightarrow>
     gp_tenantId p = tenantId \<and> gp_status p = ''ACTIVE'' \<and> \<not> gp_isStaffTest p \<and> gp_gameActivatedAt p \<noteq> None"

definition activated_at :: "activity_tables \<Rightarrow> string \<Rightarrow> string \<Rightarrow> int option" where
  "activated_at db tenantId profileId =
     (case find (\<lambda>p. is_player tenantId p \<and> gp_id p = profileId) (at_profiles db) of
        None \<Rightarrow> None
      | Some p \<Rightarrow> gp_gameActivatedAt p)"

text \<open>\<open>at >= from AND at < to AND at >= gameActivatedAt\<close> for a row of a profile; null compares to nothing.\<close>

definition in_window ::
  "activity_tables \<Rightarrow> string \<Rightarrow> int \<Rightarrow> int \<Rightarrow> string \<Rightarrow> int option \<Rightarrow> bool" where
  "in_window db tenantId from until profileId moment =
     (case (activated_at db tenantId profileId, moment) of
        (Some activated, Some t) \<Rightarrow> from \<le> t \<and> t < until \<and> activated \<le> t
      | _ \<Rightarrow> False)"

definition counted_fact ::
  "activity_tables \<Rightarrow> string \<Rightarrow> int \<Rightarrow> int \<Rightarrow> activity_fact \<Rightarrow> bool" where
  "counted_fact db tenantId from until f \<longleftrightarrow>
     af_tenantId f = tenantId \<and> af_lifecycleStatus f = ''ACTIVE'' \<and>
     (case af_profileId f of None \<Rightarrow> False
      | Some p \<Rightarrow> in_window db tenantId from until p (af_happenedAt f))"

definition fact_minutes :: "activity_fact \<Rightarrow> int" where
  "fact_minutes f = get_or (af_durationMinutes f) 0"

definition play_facts :: "activity_tables \<Rightarrow> string \<Rightarrow> int \<Rightarrow> int \<Rightarrow> activity_fact list" where
  "play_facts db tenantId from until =
     filter (\<lambda>f. counted_fact db tenantId from until f \<and> af_factType f \<in> set PLAY_TIME_FACT_TYPES \<and>
       0 < fact_minutes f) (at_facts db)"

text \<open>\<open>DISTINCT ON (domain, COALESCE(session, id)) ... ORDER BY ..., durationMinutes DESC\<close>.\<close>

definition session_key :: "activity_fact \<Rightarrow> string \<times> string" where
  "session_key f = (af_externalDomain f, get_or (af_sessionExternalId f) (af_id f))"

definition longer :: "activity_fact \<Rightarrow> activity_fact option \<Rightarrow> activity_fact option" where
  "longer f best =
     (case best of None \<Rightarrow> Some f | Some g \<Rightarrow> if fact_minutes g < fact_minutes f then Some f else Some g)"

definition session_facts :: "activity_tables \<Rightarrow> string \<Rightarrow> int \<Rightarrow> int \<Rightarrow> activity_fact list" where
  "session_facts db tenantId from until =
     concat (map (\<lambda>(_, best). case best of None \<Rightarrow> [] | Some f \<Rightarrow> [f])
       (js_group session_key None longer (play_facts db tenantId from until)))"

definition capped_minutes :: "activity_fact \<Rightarrow> int" where
  "capped_minutes f = min (fact_minutes f) MAX_SESSION_MINUTES"

definition owner :: "activity_fact \<Rightarrow> string" where
  "owner f = get_or (af_profileId f) []"

text \<open>\<open>COUNT(*) ... GROUP BY profileId, storeId\<close>.\<close>

definition count_by ::
  "('r \<Rightarrow> string \<times> string option) \<Rightarrow> 'r list \<Rightarrow> ((string \<times> string option) \<times> int) list" where
  "count_by key rows = js_group key 0 (\<lambda>_ n. n + 1) rows"

definition check_in_facts :: "activity_tables \<Rightarrow> string \<Rightarrow> int \<Rightarrow> int \<Rightarrow> activity_fact list" where
  "check_in_facts db tenantId from until =
     filter (\<lambda>f. counted_fact db tenantId from until f \<and> af_factType f = ''CHECK_IN_PERFORMED'') (at_facts db)"

definition quest_items :: "activity_tables \<Rightarrow> string \<Rightarrow> int \<Rightarrow> int \<Rightarrow> wallet_item list" where
  "quest_items db tenantId from until =
     filter (\<lambda>i. wi_tenantId i = tenantId \<and> wi_sourceKind i \<in> {''MISSION'', ''BATTLE_PASS''} \<and>
       wi_status i \<notin> {''CANCELED'', ''CANCELLED'', ''REVOKED''} \<and>
       in_window db tenantId from until (wi_profileId i) (Some (wi_createdAt i))) (at_wallet db)"

definition case_items :: "activity_tables \<Rightarrow> string \<Rightarrow> int \<Rightarrow> int \<Rightarrow> wallet_item list" where
  "case_items db tenantId from until =
     filter (\<lambda>i. wi_tenantId i = tenantId \<and> wi_kind i = ''LOOT_BOX_ENTITLEMENT'' \<and> wi_status i = ''CLAIMED'' \<and>
       in_window db tenantId from until (wi_profileId i) (wi_claimedAt i)) (at_wallet db)"

definition fact_key :: "activity_fact \<Rightarrow> string \<times> string option" where
  "fact_key f = (owner f, af_storeId f)"

definition item_key :: "wallet_item \<Rightarrow> string \<times> string option" where
  "item_key i = (wi_profileId i, wi_storeId i)"

definition empty_row :: activity_row where
  "empty_row =
     \<lparr>ar_profileId = [], ar_storeId = None, ar_playMinutes = 0, ar_sessions = 0, ar_quests = 0,
      ar_cases = 0, ar_checkIns = 0\<rparr>"

definition count_rows ::
  "(int \<Rightarrow> activity_row \<Rightarrow> activity_row) \<Rightarrow> ((string \<times> string option) \<times> int) list \<Rightarrow> activity_row list" where
  "count_rows put counts =
     map (\<lambda>(k, n). put n (empty_row\<lparr>ar_profileId := fst k, ar_storeId := snd k\<rparr>)) counts"

definition session_row :: "activity_fact \<Rightarrow> activity_row" where
  "session_row f =
     \<lparr>ar_profileId = owner f, ar_storeId = af_storeId f, ar_playMinutes = capped_minutes f,
      ar_sessions = (if LEADERBOARD_MIN_SESSION_MINUTES \<le> capped_minutes f then 1 else 0),
      ar_quests = 0, ar_cases = 0, ar_checkIns = 0\<rparr>"

definition union_rows :: "activity_tables \<Rightarrow> string \<Rightarrow> int \<Rightarrow> int \<Rightarrow> activity_row list" where
  "union_rows db tenantId from until =
     map session_row (session_facts db tenantId from until) @
     count_rows (\<lambda>n r. r\<lparr>ar_quests := n\<rparr>) (count_by item_key (quest_items db tenantId from until)) @
     count_rows (\<lambda>n r. r\<lparr>ar_cases := n\<rparr>) (count_by item_key (case_items db tenantId from until)) @
     count_rows (\<lambda>n r. r\<lparr>ar_checkIns := n\<rparr>) (count_by fact_key (check_in_facts db tenantId from until))"

text \<open>\<open>SELECT ..., SUM(...) ... GROUP BY 1, 2\<close>: the rows the application gets.\<close>

definition sum_row :: "activity_row \<Rightarrow> activity_row \<Rightarrow> activity_row" where
  "sum_row r acc =
     acc\<lparr>ar_playMinutes := ar_playMinutes acc + ar_playMinutes r,
         ar_sessions := ar_sessions acc + ar_sessions r, ar_quests := ar_quests acc + ar_quests r,
         ar_cases := ar_cases acc + ar_cases r, ar_checkIns := ar_checkIns acc + ar_checkIns r\<rparr>"

definition load_activity :: "activity_tables \<Rightarrow> string \<Rightarrow> int \<Rightarrow> int \<Rightarrow> activity_row list" where
  "load_activity db tenantId from until =
     map (\<lambda>(k, total). total\<lparr>ar_profileId := fst k, ar_storeId := snd k\<rparr>)
       (js_group (\<lambda>r. (ar_profileId r, ar_storeId r))
         empty_row sum_row (union_rows db tenantId from until))"


section \<open>What is counted\<close>

definition mine :: "string option \<Rightarrow> string \<Rightarrow> string \<times> string option \<Rightarrow> bool" where
  "mine store p key \<longleftrightarrow> fst key = p \<and> (store = None \<or> snd key = store)"

lemma counts_for_mine: "counts_for store p r \<longleftrightarrow> mine store p (ar_profileId r, ar_storeId r)"
  by (auto simp: counts_for_def mine_def)

lemma sum_list_filter_int:
  fixes h :: "'a \<Rightarrow> int"
  shows "sum_list (map h (filter P xs)) = (\<Sum>x\<leftarrow>xs. if P x then h x else 0)"
  by (induction xs) simp_all

lemma sum_count: "(\<Sum>x\<leftarrow>xs. if P x then 1 else 0 :: int) = int (length (filter P xs))"
  by (induction xs) simp_all

lemma load_activity_sum:
  fixes h :: "activity_row \<Rightarrow> int"
  assumes "\<And>r acc. h (sum_row r acc) = h acc + h r"
    and "h empty_row = 0"
    and "\<And>q s r. h (r\<lparr>ar_profileId := q, ar_storeId := s\<rparr>) = h r"
  shows "sum_list (map h (filter (counts_for store p) (load_activity db t from until))) =
    sum_list (map h (filter (counts_for store p) (union_rows db t from until)))"
proof -
  let ?key = "\<lambda>r. (ar_profileId r, ar_storeId r)"
  define g where "g = js_group ?key
         empty_row sum_row (union_rows db t from until)"
  have "sum_list (map h (filter (counts_for store p) (load_activity db t from until))) =
      (\<Sum>(k, v)\<leftarrow>g. if mine store p k then h v else 0)"
    by (simp add: sum_list_filter_int load_activity_def g_def [symmetric] comp_def case_prod_unfold
        counts_for_mine assms(3) cong: if_cong)
  also have "\<dots> = (\<Sum>r\<leftarrow>union_rows db t from until. if mine store p (?key r) then h r else 0)"
    unfolding g_def by (rule sum_js_group) (simp_all only: assms)
  finally show ?thesis by (simp add: sum_list_filter_int counts_for_mine)
qed

lemma load_activity_some:
  "(\<exists>r\<in>set (load_activity db t from until). counts_for store p r) \<longleftrightarrow>
   (\<exists>r\<in>set (union_rows db t from until). counts_for store p r)"
proof -
  let ?key = "\<lambda>r. (ar_profileId r, ar_storeId r)"
  have "?key ` set (load_activity db t from until) = ?key ` set (union_rows db t from until)"
    unfolding keys_js_group [of ?key "empty_row" sum_row
      "union_rows db t from until", symmetric] load_activity_def
    by (simp add: image_image case_prod_unfold)
  then show ?thesis
    unfolding counts_for_mine by (metis (no_types, lifting) image_iff)
qed

text \<open>The rows of a counted table contribute their numbers.\<close>

lemma count_rows_sum:
  assumes "\<And>n r. h (put n r) = n" and "\<And>n r. ar_profileId (put n r) = ar_profileId r"
    and "\<And>n r. ar_storeId (put n r) = ar_storeId r"
  shows "sum_list (map h (filter (counts_for store p) (count_rows put (count_by key rows)))) =
    int (length (filter (\<lambda>r. mine store p (key r)) rows))"
proof -
  have "sum_list (map h (filter (counts_for store p) (count_rows put (count_by key rows)))) =
      (\<Sum>(k, v)\<leftarrow>count_by key rows. if mine store p k then v else 0)"
    by (simp add: sum_list_filter_int count_rows_def comp_def case_prod_unfold counts_for_mine assms cong: if_cong)
  also have "\<dots> = (\<Sum>r\<leftarrow>rows. if mine store p (key r) then 1 else 0)"
    unfolding count_by_def by (rule sum_js_group) simp_all
  finally show ?thesis by (simp add: sum_count)
qed

lemma count_rows_none:
  assumes "\<And>n q s. h (put n (empty_row\<lparr>ar_profileId := q, ar_storeId := s\<rparr>)) = 0"
  shows "sum_list (map h (filter Q (count_rows put counts))) = 0"
  by (induction counts) (simp_all add: count_rows_def case_prod_unfold assms)

lemma count_rows_some:
  assumes "\<And>n r. ar_profileId (put n r) = ar_profileId r" and "\<And>n r. ar_storeId (put n r) = ar_storeId r"
  shows "(\<exists>r\<in>set (count_rows put (count_by key rows)). counts_for store p r) \<longleftrightarrow>
    (\<exists>r\<in>set rows. mine store p (key r))"
proof -
  have "(\<exists>r\<in>set (count_rows put (count_by key rows)). counts_for store p r) \<longleftrightarrow>
      (\<exists>k\<in>fst ` set (count_by key rows). mine store p k)"
    by (auto simp: count_rows_def counts_for_mine assms image_iff case_prod_unfold)
  then show ?thesis by (simp add: count_by_def)
qed

text \<open>A session is represented by its longest fact.\<close>

lemma fold_longer_Some:
  "\<exists>f. fold longer xs (Some g) = Some f \<and> f \<in> insert g (set xs) \<and>
     fact_minutes g \<le> fact_minutes f \<and> (\<forall>x\<in>set xs. fact_minutes x \<le> fact_minutes f)"
proof (induction xs arbitrary: g)
  case (Cons x xs)
  define g' where "g' = (if fact_minutes g < fact_minutes x then x else g)"
  have "longer x (Some g) = Some g'" by (simp add: longer_def g'_def)
  with Cons.IH [of g'] show ?case by (auto simp: g'_def split: if_splits)
qed simp

lemma fold_longer_None:
  assumes "xs \<noteq> []"
  shows "\<exists>f\<in>set xs. fold longer xs None = Some f \<and> (\<forall>x\<in>set xs. fact_minutes x \<le> fact_minutes f)"
proof (cases xs)
  case (Cons g ys)
  then show ?thesis using fold_longer_Some [of ys g] by (auto simp: longer_def)
qed (use assms in simp)

lemma session_group_entry:
  assumes "(k, v) \<in> set (js_group session_key None longer facts)"
  shows "\<exists>f\<in>set facts. v = Some f \<and> session_key f = k \<and>
    (\<forall>g\<in>set facts. session_key g = k \<longrightarrow> fact_minutes g \<le> fact_minutes f)"
proof -
  have "k \<in> session_key ` set facts"
    using assms by (metis fst_conv image_eqI keys_js_group)
  then have "filter (\<lambda>g. session_key g = k) facts \<noteq> []"
    by (auto simp: filter_empty_conv)
  from fold_longer_None [OF this] show ?thesis
    using js_group_entry [OF assms] by auto
qed

lemma session_facts_keys:
  "map session_key (session_facts db t from until) =
     map fst (js_group session_key None longer (play_facts db t from until))"
proof -
  have "map session_key (concat (map (\<lambda>(_, best). case best of None \<Rightarrow> [] | Some f \<Rightarrow> [f]) g)) = map fst g"
    if "\<And>k v. (k, v) \<in> set g \<Longrightarrow> \<exists>f. v = Some f \<and> session_key f = k" for g
    using that
  proof (induction g)
    case (Cons x g)
    obtain f where "snd x = Some f" "session_key f = fst x"
      using Cons.prems [of "fst x" "snd x"] by auto
    moreover have "map session_key (concat (map (\<lambda>(_, best). case best of None \<Rightarrow> [] | Some f \<Rightarrow> [f]) g)) =
        map fst g"
      using Cons.prems by (intro Cons.IH) auto
    ultimately show ?case by (simp add: case_prod_unfold)
  qed simp
  then show ?thesis
    unfolding session_facts_def using session_group_entry by blast
qed

lemma session_facts_longest:
  assumes "f \<in> set (session_facts db t from until)"
  shows "f \<in> set (play_facts db t from until) \<and>
    (\<forall>g\<in>set (play_facts db t from until). session_key g = session_key f \<longrightarrow> fact_minutes g \<le> fact_minutes f)"
proof -
  obtain k where "(k, Some f) \<in> set (js_group session_key None longer (play_facts db t from until))"
    using assms by (auto simp: session_facts_def split: option.splits)
  from session_group_entry [OF this] show ?thesis by auto
qed

lemma session_facts_cover:
  "session_key ` set (session_facts db t from until) = session_key ` set (play_facts db t from until)"
proof -
  have "set (map session_key (session_facts db t from until)) =
      fst ` set (js_group session_key None longer (play_facts db t from until))"
    by (simp only: session_facts_keys list.set_map)
  then show ?thesis by simp
qed

lemma session_row_mine: "counts_for store p (session_row f) \<longleftrightarrow> mine store p (fact_key f)"
  by (simp add: session_row_def counts_for_mine fact_key_def)

lemma session_rows_sum:
  "sum_list (map h (filter (counts_for store p) (map session_row fs))) =
     sum_list (map (\<lambda>f. h (session_row f)) (filter (\<lambda>f. mine store p (fact_key f)) fs))"
  by (induction fs) (simp_all add: session_row_mine)

text \<open>The five sums of a profile, and whether it appears at all.\<close>

lemma union_rows_sums:
  fixes db t a b
  defines "rows \<equiv> union_rows db t a b"
    and "sessions \<equiv> \<lambda>store p. filter (\<lambda>f. mine store p (fact_key f)) (session_facts db t a b)"
  shows "sum_list (map ar_playMinutes (filter (counts_for store p) rows)) =
      sum_list (map capped_minutes (sessions store p))"
    and "sum_list (map ar_sessions (filter (counts_for store p) rows)) =
      int (length (filter (\<lambda>f. LEADERBOARD_MIN_SESSION_MINUTES \<le> capped_minutes f) (sessions store p)))"
    and "sum_list (map ar_quests (filter (counts_for store p) rows)) =
      int (length (filter (\<lambda>i. mine store p (item_key i)) (quest_items db t a b)))"
    and "sum_list (map ar_cases (filter (counts_for store p) rows)) =
      int (length (filter (\<lambda>i. mine store p (item_key i)) (case_items db t a b)))"
    and "sum_list (map ar_checkIns (filter (counts_for store p) rows)) =
      int (length (filter (\<lambda>f. mine store p (fact_key f)) (check_in_facts db t a b)))"
  unfolding rows_def sessions_def union_rows_def filter_append map_append sum_list_append
  by (simp_all add: count_rows_sum count_rows_none session_rows_sum empty_row_def)
    (simp_all add: session_row_def sum_count)

lemma union_rows_some:
  "(\<exists>r\<in>set (union_rows db t a b). counts_for store p r) \<longleftrightarrow>
   (\<exists>f\<in>set (session_facts db t a b). mine store p (fact_key f)) \<or>
   (\<exists>i\<in>set (quest_items db t a b). mine store p (item_key i)) \<or>
   (\<exists>i\<in>set (case_items db t a b). mine store p (item_key i)) \<or>
   (\<exists>f\<in>set (check_in_facts db t a b). mine store p (fact_key f))"
  by (simp add: union_rows_def bex_Un count_rows_some session_row_mine)

text \<open>Only players are counted.\<close>

lemma in_window_player:
  assumes "in_window db t a b p moment"
  shows "\<exists>q\<in>set (at_profiles db). is_player t q \<and> gp_id q = p"
  using assms find_SomeD unfolding in_window_def activated_at_def
  by (fastforce split: option.splits)

lemma counted_fact_player:
  assumes "counted_fact db t a b f"
  shows "\<exists>q\<in>set (at_profiles db). is_player t q \<and> gp_id q = owner f"
  using assms in_window_player unfolding counted_fact_def owner_def
  by (fastforce split: option.splits)

lemma union_rows_player:
  assumes "\<exists>r\<in>set (union_rows db t a b). counts_for store p r"
  shows "\<exists>q\<in>set (at_profiles db). is_player t q \<and> gp_id q = p"
  using assms unfolding union_rows_some
proof (elim disjE bexE)
  fix f assume "f \<in> set (session_facts db t a b)" and mine: "mine store p (fact_key f)"
  then have "counted_fact db t a b f"
    using session_facts_longest by (auto simp: play_facts_def)
  with mine show ?thesis
    using counted_fact_player by (fastforce simp: mine_def fact_key_def)
next
  fix f assume "f \<in> set (check_in_facts db t a b)" and "mine store p (fact_key f)"
  then show ?thesis
    using counted_fact_player by (fastforce simp: check_in_facts_def mine_def fact_key_def)
qed (use in_window_player in \<open>fastforce simp: quest_items_def case_items_def mine_def item_key_def\<close>)+

text \<open>
  C24: The activity of a guest is counted exactly. The totals that the application sums from the rows
  of the activity query, for one club or for the network, are: the minutes of the guest's play
  sessions, each session once with its longest fact and at most a day; the number of those of at least
  thirty minutes; and the numbers of mission rewards, opened cases and check-ins of the window. A
  guest without any of them has no totals. Every session of the window is represented by exactly one
  fact, and every counted row is of a player: an active, activated profile of the tenant that is not a
  staff test, after its activation.
\<close>

theorem leaderboard_activity_exact:
  fixes db tenantId start finish store p
  defines "minutes \<equiv> \<lambda>f. min (fact_minutes f) 1440"
    and "sessions \<equiv> filter (\<lambda>f. mine store p (fact_key f)) (session_facts db tenantId start finish)"
    and "quests \<equiv> filter (\<lambda>i. mine store p (item_key i)) (quest_items db tenantId start finish)"
    and "cases' \<equiv> filter (\<lambda>i. mine store p (item_key i)) (case_items db tenantId start finish)"
    and "visits \<equiv> filter (\<lambda>f. mine store p (fact_key f)) (check_in_facts db tenantId start finish)"
  shows "map_of (leaderboard_totals (load_activity db tenantId start finish) store) p =
      (if sessions = [] \<and> quests = [] \<and> cases' = [] \<and> visits = [] then None
       else Some \<lparr>lt_profileId = p, lt_playMinutes = sum_list (map minutes sessions),
         lt_sessions = int (length (filter (\<lambda>f. 30 \<le> minutes f) sessions)),
         lt_quests = int (length quests), lt_cases = int (length cases'),
         lt_checkIns = int (length visits)\<rparr>) \<and>
    distinct (map session_key (session_facts db tenantId start finish)) \<and>
    session_key ` set (session_facts db tenantId start finish) =
      session_key ` set (play_facts db tenantId start finish) \<and>
    (\<forall>f\<in>set (session_facts db tenantId start finish). f \<in> set (play_facts db tenantId start finish) \<and>
       (\<forall>g\<in>set (play_facts db tenantId start finish).
          session_key g = session_key f \<longrightarrow> fact_minutes g \<le> fact_minutes f)) \<and>
    (sessions = [] \<and> quests = [] \<and> cases' = [] \<and> visits = [] \<or>
     (\<exists>q\<in>set (at_profiles db). is_player tenantId q \<and> gp_id q = p))"
proof (intro conjI)
  have minutes: "capped_minutes = minutes"
    by (simp add: fun_eq_iff capped_minutes_def MAX_SESSION_MINUTES_def minutes_def)
  have some: "(\<exists>r\<in>set (union_rows db tenantId start finish). counts_for store p r) \<longleftrightarrow>
      \<not> (sessions = [] \<and> quests = [] \<and> cases' = [] \<and> visits = [])"
    unfolding union_rows_some
    by (auto simp: sessions_def quests_def cases'_def visits_def filter_empty_conv)
  then show "sessions = [] \<and> quests = [] \<and> cases' = [] \<and> visits = [] \<or>
     (\<exists>q\<in>set (at_profiles db). is_player tenantId q \<and> gp_id q = p)"
    using union_rows_player [of db tenantId start finish store p] by argo
  have "sum_list (map h (filter (counts_for store p) (load_activity db tenantId start finish))) =
      sum_list (map h (filter (counts_for store p) (union_rows db tenantId start finish)))"
    if "h \<in> {ar_playMinutes, ar_sessions, ar_quests, ar_cases, ar_checkIns}" for h
    using that by (intro load_activity_sum) (auto simp: sum_row_def empty_row_def)
  with some show "map_of (leaderboard_totals (load_activity db tenantId start finish) store) p =
      (if sessions = [] \<and> quests = [] \<and> cases' = [] \<and> visits = [] then None
       else Some \<lparr>lt_profileId = p, lt_playMinutes = sum_list (map minutes sessions),
         lt_sessions = int (length (filter (\<lambda>f. 30 \<le> minutes f) sessions)),
         lt_quests = int (length quests), lt_cases = int (length cases'),
         lt_checkIns = int (length visits)\<rparr>)"
    by (simp add: map_of_totals load_activity_some activity_of_def fold_add_activity no_activity_def union_rows_sums
        LEADERBOARD_MIN_SESSION_MINUTES_def sessions_def quests_def cases'_def visits_def flip: minutes)
  show "distinct (map session_key (session_facts db tenantId start finish))"
    by (simp add: session_facts_keys)
qed (use session_facts_cover session_facts_longest in blast)+

definition sample_tables :: activity_tables where
  "sample_tables =
     \<lparr>at_profiles =
        [\<lparr>gp_id = ''p1'', gp_tenantId = ''t'', gp_guestId = None, gp_status = ''ACTIVE'', gp_isStaffTest = False,
          gp_gameActivatedAt = Some 100\<rparr>,
         \<lparr>gp_id = ''p2'', gp_tenantId = ''t'', gp_guestId = None, gp_status = ''ACTIVE'', gp_isStaffTest = True,
          gp_gameActivatedAt = Some 100\<rparr>],
      at_facts =
        map (\<lambda>(i, p, moment, minutes). \<lparr>af_id = i, af_tenantId = ''t'', af_profileId = Some p, af_storeId = Some ''s1'',
            af_externalDomain = ''d'', af_factType = ''HOURLY_PLAY_TIME_ACCUMULATED'', af_happenedAt = Some moment,
            af_sessionExternalId = Some ''x'', af_durationMinutes = Some minutes, af_lifecycleStatus = ''ACTIVE''\<rparr>)
          [(''f1'', ''p1'', 150, 20), (''f2'', ''p1'', 160, 45), (''f3'', ''p2'', 160, 90), (''f4'', ''p1'', 90, 99)],
      at_wallet =
        [\<lparr>wi_tenantId = ''t'', wi_profileId = ''p1'', wi_storeId = Some ''s1'', wi_kind = ''REWARD'',
          wi_sourceKind = ''MISSION'', wi_status = ''PENDING'', wi_createdAt = 170, wi_claimedAt = None\<rparr>]\<rparr>"

lemma leaderboard_activity_exact_witness:
  "leaderboard_totals (load_activity sample_tables ''t'' 0 200) None =
     [(''p1'', \<lparr>lt_profileId = ''p1'', lt_playMinutes = 45, lt_sessions = 1, lt_quests = 1, lt_cases = 0,
        lt_checkIns = 0\<rparr>)] \<and>
   (\<exists>q\<in>set (at_profiles sample_tables). is_player ''t'' q \<and> gp_id q = ''p1'')"
proof -
  have totals: "leaderboard_totals (load_activity sample_tables ''t'' 0 200) None =
     [(''p1'', \<lparr>lt_profileId = ''p1'', lt_playMinutes = 45, lt_sessions = 1, lt_quests = 1, lt_cases = 0,
        lt_checkIns = 0\<rparr>)]"
    by code_simp
  with leaderboard_activity_exact [where db = sample_tables and tenantId = "''t''" and start = 0 and
      finish = 200 and store = None and p = "''p1''"]
  show ?thesis by (auto split: if_splits)
qed

end
