(* ===== verification/Time_Zone.thy ===== *)
theory Time_Zone
  imports Js_Date
begin

text \<open>
  Calendar arithmetic in time zones, as the program does it with \<open>Date.UTC\<close>, the \<open>getUTC...\<close> methods
  and \<open>Intl.DateTimeFormat(...).formatToParts\<close>.

  The time zone data are not in the repository: a \<open>zone_db\<close> gives, for the name of a zone, its offset
  from UTC in seconds at an instant (in milliseconds), and \<open>None\<close> for a name that \<open>Intl\<close> rejects.
  \<open>Date.UTC\<close> is modelled for years that are not in 0..99, where the language adds 1900.

  \<open>zone_offset_ms_offset\<close> shows that the offset recomputed from the formatted parts, which is how every
  component gets at it, is the offset of the zone.
\<close>

type_synonym zone_db = "string \<Rightarrow> (int \<Rightarrow> int) option"

definition zone_offset :: "zone_db \<Rightarrow> string \<Rightarrow> int \<Rightarrow> int" where
  "zone_offset zdb zone t = (case zdb zone of None \<Rightarrow> 0 | Some f \<Rightarrow> f t)"

section \<open>Date.UTC and its inverse\<close>

definition first_of_month :: "int \<Rightarrow> int \<Rightarrow> int" where
  "first_of_month y index =
     day_number \<lparr>c_year = y + index div 12, c_month = index mod 12 + 1, c_day = 1\<rparr>"

text \<open>\<open>Date.UTC(year, monthIndex, day, hours, minutes, seconds)\<close>, every field of any size.\<close>

definition date_utc :: "int \<Rightarrow> int \<Rightarrow> int \<Rightarrow> int \<Rightarrow> int \<Rightarrow> int \<Rightarrow> int" where
  "date_utc y index d h mi s =
     (first_of_month y index + (d - 1)) * 86400000 + h * 3600000 + mi * 60000 + s * 1000"

definition utc_civil :: "int \<Rightarrow> civil" where
  "utc_civil t = civil_of_day (t div 86400000)"

definition utc_day_of_week :: "int \<Rightarrow> int" where
  "utc_day_of_week t = (t div 86400000 + 4) mod 7"

lemma first_of_month_of_civil:
  assumes "1 \<le> m" and "m \<le> 12"
  shows "first_of_month y (m - 1) = day_number \<lparr>c_year = y, c_month = m, c_day = 1\<rparr>"
proof -
  have "(m - 1) div 12 = 0" and "(m - 1) mod 12 = m - 1"
    using assms by (simp_all add: div_pos_pos_trivial)
  then show ?thesis by (simp add: first_of_month_def)
qed

lemma first_of_month_day:
  assumes "valid_civil c"
  shows "first_of_month (c_year c) (c_month c - 1) + (c_day c - 1) = day_number c"
  using assms first_of_month_of_civil [of "c_month c" "c_year c"]
  by (simp add: valid_civil_def day_number_def)

lemma month_start_step:
  assumes "1 \<le> m" and "m < 12"
  shows "month_start lp (m + 1) = month_start lp m + month_length lp m"
proof -
  have "m \<in> {1, 2, 3, 4, 5, 6, 7, 8, 9, 10, 11, 12}"
    using assms by (intro month_range) auto
  then show ?thesis
    using assms by (elim insertE) (auto simp: month_start_def month_length_def)
qed

text \<open>The first of the next month is one month length after the first of the month.\<close>

lemma first_of_next_month:
  "first_of_month y (index + 1) =
     first_of_month y index + month_length (leap (y + index div 12)) (index mod 12 + 1)"
proof -
  define q r where "q = index div 12" and "r = index mod 12"
  have r: "0 \<le> r" "r < 12" and index: "index = 12 * q + r"
    by (simp_all add: q_def r_def)
  show ?thesis
  proof (cases "r = 11")
    case True
    have "(index + 1) div 12 = q + 1" and "(index + 1) mod 12 = 0"
      using index True by simp_all
    then show ?thesis
      using days_before_year_Suc [of "y + q"] True
      by (simp add: first_of_month_def q_def [symmetric] r_def [symmetric] day_number_def
          month_start_def month_length_def algebra_simps)
  next
    case False
    then have "r + 1 < 12" using r by simp
    moreover have "index + 1 = 12 * q + (r + 1)" using index by simp
    ultimately have "(index + 1) div 12 = q" and "(index + 1) mod 12 = r + 1"
      using r int_div_pos_eq [of "index + 1" 12 q "r + 1"] int_mod_pos_eq [of "index + 1" 12 q "r + 1"]
      by simp_all
    then show ?thesis
      using month_start_step [of "r + 1" "leap (y + q)"] r \<open>r + 1 < 12\<close>
      by (simp add: first_of_month_def q_def [symmetric] r_def [symmetric] day_number_def)
  qed
qed

lemma month_length_bounds: "28 \<le> month_length lp m" "month_length lp m \<le> 31"
  by (auto simp: month_length_def)

text \<open>A day lies in its month.\<close>

lemma day_in_month:
  assumes "civil_of_day n = c"
  shows "first_of_month (c_year c) (c_month c - 1) \<le> n" and "n < first_of_month (c_year c) (c_month c)"
proof -
  have c: "valid_civil c" "day_number c = n"
    using assms by auto
  show "first_of_month (c_year c) (c_month c - 1) \<le> n"
    using first_of_month_day [OF c(1)] c by (auto simp: valid_civil_def)
  have "(c_month c - 1) div 12 = 0" and "(c_month c - 1) mod 12 = c_month c - 1"
    using c(1) by (auto simp: valid_civil_def div_pos_pos_trivial)
  then show "n < first_of_month (c_year c) (c_month c)"
    using first_of_month_day [OF c(1)] first_of_next_month [of "c_year c" "c_month c - 1"] c
    by (auto simp: valid_civil_def)
qed

section \<open>Wall clocks\<close>

record wall =
  w_year :: int
  w_month :: int
  w_day :: int
  w_hour :: int
  w_minute :: int
  w_second :: int

definition wall_of_seconds :: "int \<Rightarrow> wall" where
  "wall_of_seconds s =
     (let c = civil_of_day (s div 86400); r = s mod 86400
      in \<lparr>w_year = c_year c, w_month = c_month c, w_day = c_day c,
          w_hour = r div 3600, w_minute = r div 60 mod 60, w_second = r mod 60\<rparr>)"

text \<open>\<open>formatToParts\<close> of an instant, and the instant with the same fields in UTC.\<close>

definition zoned_parts :: "zone_db \<Rightarrow> string \<Rightarrow> int \<Rightarrow> wall" where
  "zoned_parts zdb zone t = wall_of_seconds (t div 1000 + zone_offset zdb zone t)"

definition wall_utc :: "wall \<Rightarrow> int" where
  "wall_utc w =
     date_utc (w_year w) (w_month w - 1) (w_day w) (w_hour w) (w_minute w) (w_second w)"

lemma day_seconds: "r div 3600 * 3600 + r div 60 mod 60 * 60 + r mod 60 = (r :: int)"
proof -
  have "r div 60 = r div 60 div 60 * 60 + r div 60 mod 60"
    by simp
  moreover have "r div 60 div 60 = r div 3600"
    by (simp flip: zdiv_zmult2_eq)
  moreover have "r = r div 60 * 60 + r mod 60" by simp
  ultimately show ?thesis by linarith
qed

lemma wall_utc_of_seconds [simp]: "wall_utc (wall_of_seconds s) = 1000 * s"
proof -
  let ?c = "civil_of_day (s div 86400)" and ?r = "s mod 86400"
  have "first_of_month (c_year ?c) (c_month ?c - 1) + (c_day ?c - 1) = s div 86400"
    using first_of_month_day [of ?c] by simp
  then have "wall_utc (wall_of_seconds s) =
      s div 86400 * 86400000 + ?r div 3600 * 3600000 + ?r div 60 mod 60 * 60000 + ?r mod 60 * 1000"
    by (simp add: wall_utc_def wall_of_seconds_def Let_def date_utc_def)
  also have "\<dots> = 1000 * (s div 86400 * 86400 + (?r div 3600 * 3600 + ?r div 60 mod 60 * 60 + ?r mod 60))"
    by (simp only: algebra_simps)
  also have "\<dots> = 1000 * s"
    by (simp only: day_seconds div_mult_mod_eq)
  finally show ?thesis .
qed

lemma wall_of_seconds_inj: "wall_of_seconds a = wall_of_seconds b \<longleftrightarrow> a = b"
  using wall_utc_of_seconds by (metis mult_cancel_left zero_neq_numeral)

definition zone_offset_ms :: "zone_db \<Rightarrow> string \<Rightarrow> int \<Rightarrow> int" where
  "zone_offset_ms zdb zone t = wall_utc (zoned_parts zdb zone t) - t div 1000 * 1000"

lemma zone_offset_ms_offset [simp]: "zone_offset_ms zdb zone t = 1000 * zone_offset zdb zone t"
  by (simp add: zone_offset_ms_def zoned_parts_def algebra_simps)

text \<open>A zone three hours ahead of UTC all year, as the clubs' zones are.\<close>

definition moscow_db :: zone_db where
  "moscow_db zone =
     (if zone = ''Europe/Moscow'' then Some (\<lambda>_. 10800)
      else if zone = ''UTC'' then Some (\<lambda>_. 0) else None)"

end
