(* ===== verification/Leaderboard_Period.thy ===== *)
theory Leaderboard_Period
  imports Time_Zone Js_Sort
begin

text \<open>
  \<open>guest-leaderboard/guest-leaderboard-core.ts\<close>, the months of the leaderboard: the calendar month of an
  instant in the zone of a club or of the network, its bounds as instants, and when a month is due to be
  summed up.

  \<open>zdb\<close> is the time zone database of \<open>Time_Zone\<close>; the names of the months are kept as their numbers.
\<close>

section \<open>Zones\<close>

text \<open>\<open>safeTimeZone\<close>: the trimmed zone when \<open>Intl\<close> accepts it, else UTC.\<close>

definition safe_time_zone :: "zone_db \<Rightarrow> string option \<Rightarrow> string" where
  "safe_time_zone zdb v =
     (case trim_or_none v of
        None \<Rightarrow> ''UTC''
      | Some zone \<Rightarrow> if zdb zone \<noteq> None then zone else ''UTC'')"

record store =
  store_id :: string
  store_name :: string
  store_timeZone :: "string option"

text \<open>The counts per zone in the order of the sorted names, and the first zone with the most clubs.\<close>

definition zone_counts ::
  "(string \<Rightarrow> string \<Rightarrow> int) \<Rightarrow> zone_db \<Rightarrow> store list \<Rightarrow> (string \<times> int) list" where
  "zone_counts locale_compare zdb stores =
     js_group (\<lambda>s. safe_time_zone zdb (store_timeZone s)) 0 (\<lambda>s n. n + 1)
       (js_sort (\<lambda>a b. locale_compare (store_name a) (store_name b)) stores)"

fun best_zone :: "string \<Rightarrow> int \<Rightarrow> (string \<times> int) list \<Rightarrow> string" where
  "best_zone best bestCount [] = best"
| "best_zone best bestCount ((zone, n) # rest) =
     (if bestCount < n then best_zone zone n rest else best_zone best bestCount rest)"

definition network_time_zone ::
  "(string \<Rightarrow> string \<Rightarrow> int) \<Rightarrow> zone_db \<Rightarrow> store list \<Rightarrow> string" where
  "network_time_zone locale_compare zdb stores = best_zone ''UTC'' 0 (zone_counts locale_compare zdb stores)"

section \<open>Months\<close>

text \<open>\<open>localMonthStart\<close>: the UTC start corrected twice by the offset of the zone.\<close>

definition local_month_start :: "zone_db \<Rightarrow> string \<Rightarrow> int \<Rightarrow> int \<Rightarrow> int" where
  "local_month_start zdb zone year month =
     (let guess = date_utc year (month - 1) 1 0 0 0;
          first = guess - zone_offset_ms zdb zone guess
      in guess - zone_offset_ms zdb zone first)"

record period =
  lp_year :: int
  lp_month :: int
  lp_zone :: string
  lp_from :: int
  lp_to :: int
  lp_resultsMonth :: int
  lp_daysLeft :: int
  lp_progress :: rat

definition leaderboard_month :: "zone_db \<Rightarrow> int \<Rightarrow> string \<Rightarrow> int \<Rightarrow> period" where
  "leaderboard_month zdb now timeZone shift =
     (let zone = safe_time_zone zdb (Some timeZone);
          wall = zoned_parts zdb zone now;
          index = w_year wall * 12 + (w_month wall - 1) + shift;
          year = index div 12; month = index mod 12 + 1;
          nextYear = (index + 1) div 12; nextMonth = (index + 1) mod 12 + 1;
          from = local_month_start zdb zone year month;
          to = local_month_start zdb zone nextYear nextMonth;
          span = to - from;
          elapsed = min (max (now - from) 0) span
      in \<lparr>lp_year = year, lp_month = month, lp_zone = zone, lp_from = from, lp_to = to,
          lp_resultsMonth = nextMonth,
          lp_daysLeft = max 0 (ceil_div (to - max now from) 86400000),
          lp_progress = (if 0 < span then of_int (round_div (elapsed * 1000) span) / 1000 else 0)\<rparr>)"

definition LEADERBOARD_SETTLEMENT_GRACE_MS :: int where
  "LEADERBOARD_SETTLEMENT_GRACE_MS = 12 * 60 * 60 * 1000"

definition leaderboard_settlement_due :: "period \<Rightarrow> int \<Rightarrow> int \<Rightarrow> bool" where
  "leaderboard_settlement_due period now settingsCreatedAt \<longleftrightarrow>
     lp_to period + LEADERBOARD_SETTLEMENT_GRACE_MS \<le> now \<and> settingsCreatedAt < lp_to period"

section \<open>The start of a month\<close>

definition month_utc :: "int \<Rightarrow> int" where
  "month_utc index = first_of_month (index div 12) (index mod 12) * 86400000"

text \<open>
  What is asked of a zone: its offset is less than sixteen hours, and the clock is not changed
  within sixteen hours of the UTC start of a month.
\<close>

definition steady_zone :: "zone_db \<Rightarrow> string \<Rightarrow> bool" where
  "steady_zone zdb zone \<longleftrightarrow>
     (\<forall>t. \<bar>zone_offset zdb zone t\<bar> \<le> 57600) \<and>
     (\<forall>index t. \<bar>t - month_utc index\<bar> \<le> 57600000 \<longrightarrow>
        zone_offset zdb zone t = zone_offset zdb zone (month_utc index))"

lemma first_of_month_index: "first_of_month (index div 12) (index mod 12) = first_of_month 0 index"
  by (simp add: first_of_month_def)

lemma first_of_month_year: "first_of_month y i = first_of_month 0 (y * 12 + i)"
  by (simp add: first_of_month_def)

lemma date_utc_month: "date_utc (index div 12) (index mod 12 + 1 - 1) 1 0 0 0 = month_utc index"
  by (simp add: date_utc_def month_utc_def)

lemma local_month_start_steady:
  assumes "steady_zone zdb zone"
  shows "local_month_start zdb zone (index div 12) (index mod 12 + 1) =
    month_utc index - 1000 * zone_offset zdb zone (month_utc index)"
proof -
  let ?o = "zone_offset zdb zone (month_utc index)"
  have "\<bar>?o\<bar> \<le> 57600" using assms by (simp add: steady_zone_def)
  then have "\<bar>(month_utc index - 1000 * ?o) - month_utc index\<bar> \<le> 57600000"
    by simp
  then have "zone_offset zdb zone (month_utc index - 1000 * ?o) = ?o"
    using assms unfolding steady_zone_def by blast
  then show ?thesis
    by (simp add: local_month_start_def Let_def date_utc_month [simplified])
qed

lemma month_utc_Suc: "month_utc index < month_utc (index + 1)" "month_utc (index + 1) \<le> month_utc index + 31 * 86400000"
  using month_length_bounds [of "leap (0 + index div 12)" "index mod 12 + 1"]
    first_of_next_month [of 0 index] first_of_month_index [of index] first_of_month_index [of "index + 1"]
  by (simp_all add: month_utc_def)

lemma wall_month:
  assumes "w = wall_of_seconds s" and "index = w_year w * 12 + (w_month w - 1)"
  shows "month_utc index \<le> 1000 * s" and "1000 * s < month_utc (index + 1)"
proof -
  define c where "c = civil_of_day (s div 86400)"
  have w: "w_year w = c_year c" "w_month w = c_month c"
    using assms(1) by (simp_all add: wall_of_seconds_def Let_def c_def)
  have "valid_civil c" by (simp add: c_def)
  have index: "first_of_month 0 index = first_of_month (c_year c) (c_month c - 1)"
    "first_of_month 0 (index + 1) = first_of_month (c_year c) (c_month c)"
    using first_of_month_year [of "c_year c" "c_month c - 1"] first_of_month_year [of "c_year c" "c_month c"]
    by (simp_all add: assms(2) w algebra_simps)
  have s: "s div 86400 * 86400 \<le> s" "s < (s div 86400 + 1) * 86400"
    using div_bounds [of 86400 s] by (simp_all add: algebra_simps)
  have "first_of_month 0 index \<le> s div 86400" "s div 86400 + 1 \<le> first_of_month 0 (index + 1)"
    using day_in_month [of "s div 86400" c] by (auto simp: index c_def)
  then have "first_of_month 0 index * 86400 \<le> s div 86400 * 86400"
    and "(s div 86400 + 1) * 86400 \<le> first_of_month 0 (index + 1) * 86400"
    by (simp_all only: mult_right_mono zero_le_numeral)
  with s show "month_utc index \<le> 1000 * s" and "1000 * s < month_utc (index + 1)"
    unfolding month_utc_def first_of_month_index by linarith+
qed

text \<open>The local start of a month has passed exactly when the local calendar is in the month or later.\<close>

lemma steady_month_bounds:
  assumes "steady_zone zdb zone"
    and "index = w_year (zoned_parts zdb zone now) * 12 + (w_month (zoned_parts zdb zone now) - 1)"
  shows "month_utc index - 1000 * zone_offset zdb zone (month_utc index) \<le> now"
    and "now < month_utc (index + 1) - 1000 * zone_offset zdb zone (month_utc (index + 1))"
proof -
  let ?o = "zone_offset zdb zone"
  define s where "s = now div 1000 + ?o now"
  have month: "month_utc index \<le> 1000 * s" "1000 * s < month_utc (index + 1)"
    using wall_month [of "zoned_parts zdb zone now" s index] assms(2)
    by (simp_all add: zoned_parts_def s_def)
  have bound: "\<bar>?o t\<bar> \<le> 57600" for t
    using assms(1) by (simp add: steady_zone_def)
  have near: "\<bar>t - month_utc i\<bar> \<le> 57600000 \<Longrightarrow> ?o t = ?o (month_utc i)" for t i
    using assms(1) unfolding steady_zone_def by blast
  have now: "1000 * (now div 1000) \<le> now" "now < 1000 * (now div 1000) + 1000"
    using div_bounds [of 1000 now] by simp_all
  have whole: "month_utc i = 1000 * (86400 * first_of_month (i div 12) (i mod 12))" for i
    by (simp add: month_utc_def)
  show "month_utc index - 1000 * ?o (month_utc index) \<le> now"
  proof (rule ccontr)
    assume "\<not> month_utc index - 1000 * ?o (month_utc index) \<le> now"
    then have "?o now = ?o (month_utc index)"
      using month(1) now bound [of now] bound [of "month_utc index"]
      by (intro near) (auto simp: s_def abs_le_iff)
    with month(1) now \<open>\<not> _\<close> show False by (simp add: s_def)
  qed
  show "now < month_utc (index + 1) - 1000 * ?o (month_utc (index + 1))"
  proof (rule ccontr)
    assume late: "\<not> now < month_utc (index + 1) - 1000 * ?o (month_utc (index + 1))"
    define f where "f = 86400 * first_of_month ((index + 1) div 12) ((index + 1) mod 12)"
    have f: "month_utc (index + 1) = 1000 * f" by (simp add: whole f_def)
    then have "s < f" using month(2) by simp
    then have before: "now div 1000 + ?o now + 1 \<le> f" by (simp add: s_def)
    then have "?o now = ?o (month_utc (index + 1))"
      using late now bound [of now] bound [of "month_utc (index + 1)"] f
      by (intro near) (auto simp: abs_le_iff)
    with before late now f show False by simp
  qed
qed

lemma period_days_left:
  "lp_daysLeft (leaderboard_month zdb now zone shift) =
     max 0 (ceil_div (lp_to (leaderboard_month zdb now zone shift) -
       max now (lp_from (leaderboard_month zdb now zone shift))) 86400000)"
  by (simp only: leaderboard_month_def Let_def period.simps)

lemma period_progress:
  "lp_progress (leaderboard_month zdb now zone shift) =
     (let width = lp_to (leaderboard_month zdb now zone shift) - lp_from (leaderboard_month zdb now zone shift);
          elapsed = min (max (now - lp_from (leaderboard_month zdb now zone shift)) 0) width
      in if 0 < width then of_int (round_div (elapsed * 1000) width) / 1000 else 0)"
  by (simp only: leaderboard_month_def Let_def period.simps)

lemma index_of_month: "(index div 12) * 12 + index mod 12 = (index :: int)"
  by simp

lemma month_period:
  assumes "steady_zone zdb zone" and "zdb zone \<noteq> None" and "js_trim zone = zone" and "zone \<noteq> []"
    and "index = w_year (zoned_parts zdb zone now) * 12 + (w_month (zoned_parts zdb zone now) - 1) + shift"
  shows "lp_from (leaderboard_month zdb now zone shift) =
      month_utc index - 1000 * zone_offset zdb zone (month_utc index)"
    and "lp_to (leaderboard_month zdb now zone shift) =
      month_utc (index + 1) - 1000 * zone_offset zdb zone (month_utc (index + 1))"
proof -
  have zone: "safe_time_zone zdb (Some zone) = zone"
    using assms(2-4) by (simp add: safe_time_zone_def trim_or_none_def Let_def)
  show "lp_from (leaderboard_month zdb now zone shift) =
      month_utc index - 1000 * zone_offset zdb zone (month_utc index)"
    and "lp_to (leaderboard_month zdb now zone shift) =
      month_utc (index + 1) - 1000 * zone_offset zdb zone (month_utc (index + 1))"
    by (simp_all only: leaderboard_month_def zone Let_def period.simps assms(5) [symmetric]
        local_month_start_steady [OF assms(1)])
qed

lemma progress_range:
  assumes "0 < width" and "0 \<le> elapsed" and "elapsed \<le> width"
  shows "0 \<le> round_div (elapsed * 1000) width" and "round_div (elapsed * 1000) width \<le> 1000"
proof -
  show "0 \<le> round_div (elapsed * 1000) width"
    using assms by (intro round_div_nonneg) auto
  have "round_div (elapsed * 1000) width \<le> round_div (1000 * width) width"
    using assms by (intro round_div_mono) auto
  also have "\<dots> = 1000" using assms(1) by (rule round_div_exact)
  finally show "round_div (elapsed * 1000) width \<le> 1000" .
qed


lemma steady_moscow: "steady_zone moscow_db ''Europe/Moscow''"
  by (simp add: steady_zone_def zone_offset_def moscow_db_def)


end
