(* ===== verification/Leaderboard_View.thy ===== *)
theory Leaderboard_View
  imports Leaderboard_Activity Leaderboard_Period
begin

text \<open>
  \<open>guest-leaderboard/guest-leaderboard-read.service.ts\<close>, the rest of the read service: the settings, the
  clubs, the period of a scope, the standings, the home club of a guest, the caches, and the view of
  the leaderboard a guest gets.

  \<open>guest_view\<close> takes what the two caches answered: the settings and, as \<open>activity\<close>, the rows per window.
  Names of guests are left out (they are formatted from personal data by rules on Unicode classes); an
  entry and a target carry the profile id instead. Texts of prizes are the constructors of \<open>prize_text\<close>.
\<close>

section \<open>Texts of prizes\<close>

datatype prize_text = BONUS_TEXT int nat | CASE_TEXT string | OWN_TEXT string

text \<open>\<open>pluralRu\<close>: the index of the form.\<close>

definition plural_ru :: "int \<Rightarrow> nat" where
  "plural_ru v =
     (let a = \<bar>v\<bar> mod 100; last = a mod 10
      in if 10 < a \<and> a < 20 then 2 else if 1 < last \<and> last < 5 then 1 else if last = 1 then 0 else 2)"

fun leaderboard_prize_label :: "prize \<Rightarrow> (string \<times> string) list \<Rightarrow> prize_text option" where
  "leaderboard_prize_label (BONUS n) names = Some (BONUS_TEXT n (plural_ru n))"
| "leaderboard_prize_label (LOOT_BOX i) names =
     (case map_of names i of
        None \<Rightarrow> None
      | Some name \<Rightarrow> if name = [] then None else Some (CASE_TEXT name))"
| "leaderboard_prize_label (CUSTOM l) names = Some (OWN_TEXT l)"

fun label_places :: "nat \<Rightarrow> prize option list \<Rightarrow> (string \<times> string) list \<Rightarrow> (nat \<times> prize_text) list" where
  "label_places i [] names = []"
| "label_places i (p # ps) names =
     (case p of
        None \<Rightarrow> label_places (Suc i) ps names
      | Some prize \<Rightarrow>
          (case leaderboard_prize_label prize names of
             None \<Rightarrow> label_places (Suc i) ps names
           | Some text \<Rightarrow> (Suc i, text) # label_places (Suc i) ps names))"

definition leaderboard_prizes ::
  "leaderboard_config \<Rightarrow> string \<Rightarrow> board \<Rightarrow> (string \<times> string) list \<Rightarrow> (nat \<times> prize_text) list" where
  "leaderboard_prizes config scopeKey b names = label_places 0 (prizes_of config scopeKey b) names"

section \<open>Settings and clubs\<close>

record settings_row =
  sr_enabled :: bool
  sr_config :: js_value
  sr_revision :: int
  sr_createdAt :: int
  sr_updatedAt :: int

record settings_state =
  ls_enabled :: bool
  ls_config :: leaderboard_config
  ls_revision :: int
  ls_updatedAt :: "int option"

definition load_settings :: "settings_row option \<Rightarrow> settings_state" where
  "load_settings stored =
     (case stored of
        None \<Rightarrow> \<lparr>ls_enabled = False, ls_config = default_leaderboard_config, ls_revision = 0, ls_updatedAt = None\<rparr>
      | Some row \<Rightarrow>
          (case normalize_leaderboard_config None (sr_config row) of
             Inl _ \<Rightarrow> \<lparr>ls_enabled = False, ls_config = default_leaderboard_config,
                       ls_revision = sr_revision row, ls_updatedAt = Some (sr_updatedAt row)\<rparr>
           | Inr config \<Rightarrow> \<lparr>ls_enabled = sr_enabled row, ls_config = config,
                       ls_revision = sr_revision row, ls_updatedAt = Some (sr_updatedAt row)\<rparr>))"

record store_row =
  so_tenantId :: string
  so_isActive :: bool
  so_store :: store

text \<open>The active clubs of the tenant; the table is scanned in the order of the names.\<close>

definition load_stores :: "store_row list \<Rightarrow> string \<Rightarrow> store list" where
  "load_stores rows tenantId =
     map so_store (filter (\<lambda>r. so_tenantId r = tenantId \<and> so_isActive r) rows)"

section \<open>Periods and standings\<close>

datatype scope = CLUB | NETWORK_SCOPE

primrec scope_name :: "scope \<Rightarrow> string" where
  "scope_name CLUB = ''club''"
| "scope_name NETWORK_SCOPE = ''network''"

definition period_for ::
  "zone_db \<Rightarrow> (string \<Rightarrow> string \<Rightarrow> int) \<Rightarrow> scope \<Rightarrow> store option \<Rightarrow> store list \<Rightarrow> int \<Rightarrow> int \<Rightarrow> period" where
  "period_for zdb compare_names sc st stores now shift =
     (let zone = (case st of
                    Some s \<Rightarrow> if sc = CLUB then safe_time_zone zdb (store_timeZone s)
                              else network_time_zone compare_names zdb stores
                  | None \<Rightarrow> network_time_zone compare_names zdb stores)
      in leaderboard_month zdb now zone shift)"

definition standings_of ::
  "(string \<Rightarrow> string \<Rightarrow> int) \<Rightarrow> (int \<Rightarrow> int \<Rightarrow> activity_row list) \<Rightarrow> string option \<Rightarrow> board \<Rightarrow> leaderboard_config
    \<Rightarrow> int \<Rightarrow> int \<Rightarrow> standing list" where
  "standings_of compare_ids activity storeId b config start finish =
     rank_leaderboard compare_ids (leaderboard_totals (activity start finish) storeId) b
       (lc_formula config) (lc_excludedProfileIds config)"

text \<open>The club where each wanted profile was most active; the first one among equals.\<close>

definition home_step ::
  "string list \<Rightarrow> activity_row \<Rightarrow> (string \<times> string \<times> int) list \<Rightarrow> (string \<times> string \<times> int) list" where
  "home_step wanted row best =
     (case ar_storeId row of
        None \<Rightarrow> best
      | Some storeId \<Rightarrow>
          if storeId = [] \<or> ar_profileId row \<notin> set wanted then best
          else let weight = ar_playMinutes row + ar_quests row + ar_cases row + ar_checkIns row
               in case map_of best (ar_profileId row) of
                    None \<Rightarrow> AList.update (ar_profileId row) (storeId, weight) best
                  | Some (_, minutes) \<Rightarrow>
                      if minutes < weight then AList.update (ar_profileId row) (storeId, weight) best else best)"

definition home_stores :: "activity_row list \<Rightarrow> string list \<Rightarrow> (string \<times> string) list" where
  "home_stores rows profileIds =
     map (\<lambda>(p, storeId, _). (p, storeId)) (fold (home_step profileIds) rows [])"

definition loot_box_names :: "(string \<times> string) list \<Rightarrow> leaderboard_config \<Rightarrow> (string \<times> string) list" where
  "loot_box_names boxes config =
     (let ids = leaderboard_prize_loot_box_ids config in filter (\<lambda>(i, _). i \<in> set ids) boxes)"

section \<open>The view\<close>

record entry =
  en_rank :: int
  en_profileId :: string
  en_value :: int
  en_isMe :: bool
  en_movement :: "int option"
  en_isNew :: bool
  en_crown :: bool
  en_gapBefore :: bool
  en_storeName :: "string option"

record me_view =
  me_profileId :: string
  me_rank :: "int option"
  me_value :: int
  me_movement :: "int option"
  me_excluded :: bool

datatype unit_kind = POINTS_UNIT | MINUTES_UNIT | COUNT_UNIT

definition board_unit :: "board \<Rightarrow> unit_kind" where
  "board_unit b = (if b = POINTS then POINTS_UNIT else if b = HOURS then MINUTES_UNIT else COUNT_UNIT)"

record leaderboard_view =
  gv_enabled :: bool
  gv_generatedAt :: int
  gv_scope :: scope
  gv_board :: board
  gv_scopes :: "scope list"
  gv_boards :: "board list"
  gv_period :: "period option"
  gv_formula :: "formula option"
  gv_unit :: unit_kind
  gv_totalPlayers :: nat
  gv_entries :: "entry list"
  gv_me :: "me_view option"
  gv_target :: "target option"
  gv_prizes :: "(nat \<times> prize_text) list"

definition empty_view :: "int \<Rightarrow> leaderboard_view" where
  "empty_view now =
     \<lparr>gv_enabled = False, gv_generatedAt = now, gv_scope = CLUB, gv_board = POINTS, gv_scopes = [],
      gv_boards = [], gv_period = None, gv_formula = None, gv_unit = POINTS_UNIT, gv_totalPlayers = 0,
      gv_entries = [], gv_me = None, gv_target = None, gv_prizes = []\<rparr>"

record view_request =
  vr_profileId :: "string option"
  vr_storeId :: string
  vr_scope :: js_value
  vr_board :: js_value
  vr_now :: int

definition view_store :: "store list \<Rightarrow> view_request \<Rightarrow> store option" where
  "view_store stores req = find (\<lambda>s. store_id s = vr_storeId req) stores"

definition available_scopes :: "leaderboard_config \<Rightarrow> store option \<Rightarrow> scope list" where
  "available_scopes config st =
     (case st of
        None \<Rightarrow> []
      | Some s \<Rightarrow> if store_id s \<in> set (lc_disabledStoreIds config) then [] else [CLUB]) @
     (if lc_networkEnabled config then [NETWORK_SCOPE] else [])"

text \<open>\<open>xs.find(x => x === requested) ?? xs[0]\<close> for a list that is not empty.\<close>

definition pick :: "('a \<Rightarrow> string) \<Rightarrow> 'a list \<Rightarrow> js_value \<Rightarrow> 'a" where
  "pick name xs requested =
     (case find (\<lambda>x. requested = JStr (name x)) xs of Some x \<Rightarrow> x | None \<Rightarrow> hd xs)"

definition truthy_id :: "string option \<Rightarrow> string option" where
  "truthy_id v = (case v of Some (c # cs) \<Rightarrow> Some (c # cs) | _ \<Rightarrow> None)"

definition MOVEMENT_WINDOW_MS :: int where "MOVEMENT_WINDOW_MS = 24 * 60 * 60 * 1000"
definition MOVEMENT_QUANTUM_MS :: int where "MOVEMENT_QUANTUM_MS = 10 * 60 * 1000"

definition movement_cutoff :: "int \<Rightarrow> int" where
  "movement_cutoff now = (now - MOVEMENT_WINDOW_MS) div MOVEMENT_QUANTUM_MS * MOVEMENT_QUANTUM_MS"

definition movement_of :: "standing list option \<Rightarrow> standing \<Rightarrow> int option \<times> bool" where
  "movement_of yesterday s =
     (case yesterday of
        None \<Rightarrow> (None, False)
      | Some rows \<Rightarrow>
          (case map_of (map (\<lambda>r. (st_profileId r, st_rank r)) rows) (st_profileId s) of
             None \<Rightarrow> (None, True)
           | Some before \<Rightarrow> (Some (before - st_rank s), False)))"

definition view_entry ::
  "view_request \<Rightarrow> scope \<Rightarrow> store list \<Rightarrow> standing list option \<Rightarrow> string list \<Rightarrow> (string \<times> string) list
    \<Rightarrow> standing \<times> bool \<Rightarrow> entry" where
  "view_entry req sc stores yesterday crowned homes row =
     (let s = fst row; movement = movement_of yesterday s
      in \<lparr>en_rank = st_rank s, en_profileId = st_profileId s, en_value = st_value s,
          en_isMe = (vr_profileId req = Some (st_profileId s)),
          en_movement = fst movement, en_isNew = snd movement,
          en_crown = (st_profileId s \<in> set crowned), en_gapBefore = snd row,
          en_storeName =
            (if sc = NETWORK_SCOPE
             then map_of (map (\<lambda>st. (store_id st, store_name st)) stores)
                    (get_or (map_of homes (st_profileId s)) [])
             else None)\<rparr>)"

text \<open>The scope, the board and the standings that a request selects.\<close>

definition chosen_scope :: "leaderboard_config \<Rightarrow> store list \<Rightarrow> view_request \<Rightarrow> scope" where
  "chosen_scope config stores req =
     pick scope_name (available_scopes config (view_store stores req)) (vr_scope req)"

definition chosen_board :: "leaderboard_config \<Rightarrow> view_request \<Rightarrow> board" where
  "chosen_board config req = pick board_name (enabled_leaderboard_boards config) (vr_board req)"

definition scope_store_id :: "scope \<Rightarrow> store option \<Rightarrow> string option" where
  "scope_store_id sc st = (if sc = CLUB then map_option store_id st else None)"

definition prize_scope_key :: "scope \<Rightarrow> store option \<Rightarrow> string" where
  "prize_scope_key sc st =
     (if sc = CLUB then get_or (map_option store_id st) [] else LEADERBOARD_NETWORK_SCOPE_KEY)"

definition view_period ::
  "zone_db \<Rightarrow> (string \<Rightarrow> string \<Rightarrow> int) \<Rightarrow> leaderboard_config \<Rightarrow> store list \<Rightarrow> view_request \<Rightarrow> int \<Rightarrow> period" where
  "view_period zdb compare_names config stores req shift =
     period_for zdb compare_names (chosen_scope config stores req) (view_store stores req) stores (vr_now req) shift"

definition view_standings ::
  "(string \<Rightarrow> string \<Rightarrow> int) \<Rightarrow> (int \<Rightarrow> int \<Rightarrow> activity_row list) \<Rightarrow> leaderboard_config \<Rightarrow> store list
    \<Rightarrow> view_request \<Rightarrow> int \<Rightarrow> int \<Rightarrow> standing list" where
  "view_standings compare_ids activity config stores req start finish =
     standings_of compare_ids activity
       (scope_store_id (chosen_scope config stores req) (view_store stores req))
       (chosen_board config req) config start finish"

definition guest_view ::
  "zone_db \<Rightarrow> (string \<Rightarrow> string \<Rightarrow> int) \<Rightarrow> (string \<Rightarrow> string \<Rightarrow> int) \<Rightarrow> settings_state \<Rightarrow> store list
    \<Rightarrow> (string \<times> string) list \<Rightarrow> (int \<Rightarrow> int \<Rightarrow> activity_row list) \<Rightarrow> view_request \<Rightarrow> leaderboard_view" where
  "guest_view zdb compare_names compare_ids settings stores boxes activity req =
     (let config = ls_config settings;
          st = view_store stores req;
          scopes = available_scopes config st;
          boards = enabled_leaderboard_boards config
      in if \<not> ls_enabled settings \<or> scopes = [] \<or> boards = [] then empty_view (vr_now req)
         else
           let sc = chosen_scope config stores req;
               b = chosen_board config req;
               period = view_period zdb compare_names config stores req 0;
               previous = view_period zdb compare_names config stores req (- 1);
               cutoff = movement_cutoff (vr_now req);
               standings = view_standings compare_ids activity config stores req;
               current = standings (lp_from period) (lp_to period);
               yesterday = (if lp_from period < cutoff then Some (standings (lp_from period) cutoff) else None);
               lastMonth = standings (lp_from previous) (lp_to previous);
               crowned = map st_profileId (filter (\<lambda>s. st_rank s = 1) lastMonth);
               me = truthy_id (vr_profileId req);
               visible = leaderboard_visible_rows current (get_or (vr_profileId req) []) LEADERBOARD_TOP_SIZE;
               excluded = (case me of None \<Rightarrow> False | Some p \<Rightarrow> p \<in> set (lc_excludedProfileIds config));
               homes = (if sc = NETWORK_SCOPE
                        then home_stores (activity (lp_from period) (lp_to period))
                               (map (\<lambda>row. st_profileId (fst row)) visible)
                        else [])
           in \<lparr>gv_enabled = True, gv_generatedAt = vr_now req, gv_scope = sc, gv_board = b,
               gv_scopes = scopes, gv_boards = boards, gv_period = Some period,
               gv_formula = (if b = POINTS then Some (lc_formula config) else None),
               gv_unit = board_unit b, gv_totalPlayers = length current,
               gv_entries = map (view_entry req sc stores yesterday crowned homes) visible,
               gv_me = map_option (\<lambda>p.
                 (let own = find (\<lambda>s. st_profileId s = p) current
                  in \<lparr>me_profileId = p, me_rank = map_option st_rank own,
                      me_value = get_or (map_option st_value own) 0,
                      me_movement = (case own of None \<Rightarrow> None | Some s \<Rightarrow> fst (movement_of yesterday s)),
                      me_excluded = excluded\<rparr>)) me,
               gv_target = (case me of None \<Rightarrow> None
                 | Some p \<Rightarrow> if excluded then None else leaderboard_target current p),
               gv_prizes = leaderboard_prizes config (prize_scope_key sc st) b
                 (loot_box_names boxes config)\<rparr>)"

section \<open>What a guest may see\<close>

lemma pick_in: "xs \<noteq> [] \<Longrightarrow> pick name xs v \<in> set xs"
  by (auto simp: pick_def dest: find_SomeD split: option.splits)

lemma ranked_in_contenders:
  assumes "s \<in> set (standings_of ci activity storeId b config start finish)"
  shows "(st_profileId s, st_value s) \<in>
    contenders (activity start finish) storeId b (lc_formula config) (lc_excludedProfileIds config)"
proof -
  let ?m = "leaderboard_totals (activity start finish) storeId"
  have "(st_profileId s, st_value s) \<in> set (map (\<lambda>s. (st_profileId s, st_value s))
      (rank_leaderboard ci ?m b (lc_formula config) (lc_excludedProfileIds config)))"
    using assms by (auto simp: standings_of_def)
  then show ?thesis by (simp only: standings_pairs set_ranked_values)
qed

lemma label_places_at:
  "(position, text) \<in> set (label_places i ps names) \<Longrightarrow>
   i < position \<and> position \<le> i + length ps \<and>
   (\<exists>prize. ps ! (position - i - 1) = Some prize \<and> leaderboard_prize_label prize names = Some text)"
proof (induction i ps names rule: label_places.induct)
  case (2 i p ps names)
  show ?case
  proof (cases "(position, text) \<in> set (label_places (Suc i) ps names)")
    case True
    have "Suc i < position \<and> position \<le> Suc i + length ps \<and>
        (\<exists>prize. ps ! (position - Suc i - 1) = Some prize \<and> leaderboard_prize_label prize names = Some text)"
      using "2.IH" True by (cases p; cases "leaderboard_prize_label (the p) names") auto
    moreover from this have "position - i - 1 = Suc (position - Suc i - 1)" by auto
    ultimately show ?thesis by auto
  next
    case False
    then have "position = Suc i" and "\<exists>prize. p = Some prize \<and> leaderboard_prize_label prize names = Some text"
      using "2.prems" by (auto split: option.splits)
    then show ?thesis by simp
  qed
qed simp

lemma prizes_of_length:
  assumes "well_formed_config config"
  shows "length (prizes_of config scopeKey b) \<le> LEADERBOARD_PRIZE_PLACES"
proof (cases "map_of (lc_prizes config) scopeKey")
  case (Some prizes)
  show ?thesis
  proof (cases "map_of prizes b")
    case (Some places)
    have "(scopeKey, prizes) \<in> set (lc_prizes config)" and "(b, places) \<in> set prizes"
      using \<open>map_of (lc_prizes config) scopeKey = Some prizes\<close> Some by (auto dest: map_of_SomeD)
    then have "valid_places places" using assms by (fastforce simp: well_formed_config_def)
    then show ?thesis
      using Some \<open>map_of (lc_prizes config) scopeKey = Some prizes\<close>
      by (simp add: prizes_of_def valid_places_def)
  qed (simp add: prizes_of_def Some)
qed (simp add: prizes_of_def)

lemma shown_prize_is_configured:
  assumes "well_formed_config config" and "(position, text) \<in> set (leaderboard_prizes config scopeKey b names)"
  shows "\<exists>prize. leaderboard_prize_for_rank config scopeKey b (int position) = Some prize \<and>
    leaderboard_prize_label prize names = Some text"
proof -
  have at: "0 < position" "position \<le> length (prizes_of config scopeKey b)"
    and "\<exists>prize. prizes_of config scopeKey b ! (position - 1) = Some prize \<and>
        leaderboard_prize_label prize names = Some text"
    using label_places_at [OF assms(2) [unfolded leaderboard_prizes_def]] by auto
  moreover have "nat (int position - 1) = position - 1" using at by simp
  ultimately show ?thesis
    using prizes_of_length [OF assms(1), of scopeKey b]
    by (auto simp: leaderboard_prize_for_rank_def Let_def)
qed

lemma load_settings_well_formed: "well_formed_config (ls_config (load_settings stored))"
  using normalized_config_well_formed default_config_well_formed
  by (fastforce simp: load_settings_def split: option.splits sum.splits)

text \<open>The fields of a view that is not the empty one.\<close>

lemma guest_view_open:
  assumes "ls_enabled settings" and "available_scopes (ls_config settings) (view_store stores req) \<noteq> []"
    and "enabled_leaderboard_boards (ls_config settings) \<noteq> []"
    and v: "v = guest_view zdb cn ci settings stores boxes activity req"
    and period: "period = view_period zdb cn (ls_config settings) stores req 0"
    and current: "current = view_standings ci activity (ls_config settings) stores req (lp_from period) (lp_to period)"
  shows "gv_enabled v" and "gv_scope v = chosen_scope (ls_config settings) stores req"
    and "gv_board v = chosen_board (ls_config settings) req" and "gv_period v = Some period"
    and "map (\<lambda>e. (en_profileId e, en_value e)) (gv_entries v) =
      map (\<lambda>row. (st_profileId (fst row), st_value (fst row)))
        (leaderboard_visible_rows current (get_or (vr_profileId req) []) LEADERBOARD_TOP_SIZE)"
    and "gv_me v = Some m \<Longrightarrow> me_excluded m \<longleftrightarrow> me_profileId m \<in> set (lc_excludedProfileIds (ls_config settings))"
    and "gv_me v = Some m \<Longrightarrow> me_rank m = map_option st_rank (find (\<lambda>s. st_profileId s = me_profileId m) current)"
    and "gv_me v = Some m \<Longrightarrow> me_excluded m \<Longrightarrow> gv_target v = None"
    and "gv_prizes v = leaderboard_prizes (ls_config settings)
      (prize_scope_key (gv_scope v) (view_store stores req)) (gv_board v) (loot_box_names boxes (ls_config settings))"
  using assms(1-3) unfolding v current period
  by (auto simp: guest_view_def Let_def view_entry_def comp_def split: option.splits)

lemma visible_rows_length: "length (leaderboard_visible_rows standings p n) \<le> n + 3"
proof (cases "find_index (\<lambda>s. st_profileId s = p) standings")
  case (Some i)
  have "length (js_slice (max n (i - 1)) (i + 2) standings) \<le> 3"
    by (simp add: js_slice_def)
  then show ?thesis
    using arg_cong [OF visible_rows_shape [of standings p n], of length] Some by (simp split: if_splits)
qed (use arg_cong [OF visible_rows_shape [of standings p n], of length] in simp)

lemma visible_rows_subset: "fst ` set (leaderboard_visible_rows standings p n) \<subseteq> set standings"
proof -
  have "set (map fst (leaderboard_visible_rows standings p n)) \<subseteq> set standings"
    unfolding visible_rows_shape js_slice_def
    by (auto split: option.splits if_splits dest: in_set_takeD in_set_dropD)
  then show ?thesis by simp
qed

lemma view_entries_compete:
  assumes "map (\<lambda>e. (en_profileId e, en_value e)) entries =
      map (\<lambda>row. (st_profileId (fst row), st_value (fst row))) (leaderboard_visible_rows current p n)"
    and "e \<in> set entries" and "\<And>s. s \<in> set current \<Longrightarrow> (st_profileId s, st_value s) \<in> C"
  shows "(en_profileId e, en_value e) \<in> C"
proof -
  have "(en_profileId e, en_value e) \<in> set (map (\<lambda>e. (en_profileId e, en_value e)) entries)"
    using assms(2) by simp
  then obtain row where "row \<in> set (leaderboard_visible_rows current p n)"
      "(en_profileId e, en_value e) = (st_profileId (fst row), st_value (fst row))"
    unfolding assms(1) by auto
  then show ?thesis using assms(3) visible_rows_subset [of current p n] by fastforce
qed

lemma load_settings_enabled:
  assumes "ls_enabled (load_settings stored)"
  shows "\<exists>row. stored = Some row \<and> sr_enabled row \<and>
    normalize_leaderboard_config None (sr_config row) = Inr (ls_config (load_settings stored))"
  using assms by (auto simp: load_settings_def split: option.splits sum.splits)

text \<open>
  C25: A guest's view follows the stored settings. Unless the owner has stored valid settings with the
  leaderboard switched on, a guest gets the empty view. Otherwise the scope shown is one that the
  settings leave open (the guest's own active club when it is not switched off, or the network when it
  is on) and the board one that is on; every entry is a profile that competes in that scope and board
  in the month shown, never an excluded one; an excluded guest has no place and no target; and every
  prize shown at a place is the one configured for that place, scope and board.
\<close>

theorem leaderboard_view_respects_settings:
  assumes "settings = load_settings stored" and "config = ls_config settings"
    and "v = guest_view zdb compare_names compare_ids settings stores boxes activity req"
    and "period = view_period zdb compare_names config stores req 0"
  shows "if gv_enabled v then
      (\<exists>row. stored = Some row \<and> sr_enabled row \<and> normalize_leaderboard_config None (sr_config row) = Inr config) \<and>
      gv_scope v \<in> set (available_scopes config (view_store stores req)) \<and> board_enabled config (gv_board v) \<and>
      gv_period v = Some period \<and> length (gv_entries v) \<le> LEADERBOARD_TOP_SIZE + 3 \<and>
      (\<forall>e\<in>set (gv_entries v). (en_profileId e, en_value e) \<in>
         contenders (activity (lp_from period) (lp_to period))
           (scope_store_id (gv_scope v) (view_store stores req)) (gv_board v)
           (lc_formula config) (lc_excludedProfileIds config)) \<and>
      (\<forall>m. gv_me v = Some m \<and> me_profileId m \<in> set (lc_excludedProfileIds config) \<longrightarrow>
         me_rank m = None \<and> gv_target v = None) \<and>
      (\<forall>position text. (position, text) \<in> set (gv_prizes v) \<longrightarrow> (\<exists>prize.
         leaderboard_prize_for_rank config (prize_scope_key (gv_scope v) (view_store stores req))
           (gv_board v) (int position) = Some prize \<and>
         leaderboard_prize_label prize (loot_box_names boxes config) = Some text))
    else v = empty_view (vr_now req)"
proof (cases "ls_enabled settings \<and> available_scopes config (view_store stores req) \<noteq> [] \<and>
    enabled_leaderboard_boards config \<noteq> []")
  case True
  define current where
    "current = view_standings compare_ids activity config stores req (lp_from period) (lp_to period)"
  note view = guest_view_open [OF _ _ _ assms(3) assms(4) [unfolded assms(2)] current_def [unfolded assms(2)],
      folded assms(2)]
  note fields = view(1-5,9) [OF True [THEN conjunct1] True [THEN conjunct2, THEN conjunct1]
      True [THEN conjunct2, THEN conjunct2]]
  have compete: "(st_profileId s, st_value s) \<in> contenders (activity (lp_from period) (lp_to period))
      (scope_store_id (gv_scope v) (view_store stores req)) (gv_board v)
      (lc_formula config) (lc_excludedProfileIds config)" if "s \<in> set current" for s
    using that unfolding current_def view_standings_def fields(2,3) by (rule ranked_in_contenders)
  have "me_rank m = None \<and> gv_target v = None"
    if m: "gv_me v = Some m" "me_profileId m \<in> set (lc_excludedProfileIds config)" for m
  proof -
    have "st_profileId s \<noteq> me_profileId m" if "s \<in> set current" for s
      using compete [OF that] m(2) by (auto simp: contenders_def)
    then have "find (\<lambda>s. st_profileId s = me_profileId m) current = None"
      by (simp add: find_None_iff)
    then show ?thesis using view(6-8) [of m] True m by simp
  qed
  moreover have "length (gv_entries v) \<le> LEADERBOARD_TOP_SIZE + 3"
    using arg_cong [OF fields(5), of length] visible_rows_length [of current _ LEADERBOARD_TOP_SIZE] by simp
  moreover have "gv_scope v \<in> set (available_scopes config (view_store stores req))"
    using True by (simp add: fields(2) chosen_scope_def pick_in)
  moreover have "gv_board v \<in> set (enabled_leaderboard_boards config)"
    using True by (simp add: fields(3) chosen_board_def pick_in)
  moreover have "\<exists>prize. leaderboard_prize_for_rank config (prize_scope_key (gv_scope v) (view_store stores req))
        (gv_board v) (int position) = Some prize \<and>
      leaderboard_prize_label prize (loot_box_names boxes config) = Some shown"
    if "(position, shown) \<in> set (gv_prizes v)" for position shown
    using shown_prize_is_configured that load_settings_well_formed unfolding fields(6) assms(1,2) by blast
  ultimately show ?thesis
    using fields(1,4) load_settings_enabled True view_entries_compete [OF fields(5) _ compete]
    by (simp add: assms(1,2) enabled_leaderboard_boards_def)
next
  case False
  then have "v = empty_view (vr_now req)"
    by (auto simp: assms(2,3) guest_view_def Let_def)
  then show ?thesis by (simp add: empty_view_def)
qed

definition sample_stored :: settings_row where
  "sample_stored =
     \<lparr>sr_enabled = True, sr_config = sample_settings, sr_revision = 1, sr_createdAt = 0, sr_updatedAt = 0\<rparr>"

definition sample_stores :: "store list" where
  "sample_stores = [\<lparr>store_id = ''s1'', store_name = ''Club'', store_timeZone = Some ''Europe/Moscow''\<rparr>]"

definition sample_request :: view_request where
  "sample_request =
     \<lparr>vr_profileId = Some ''a'', vr_storeId = ''s1'', vr_scope = JStr ''network'', vr_board = JStr ''points'',
      vr_now = 1790000000000\<rparr>"

definition sample_view :: leaderboard_view where
  "sample_view =
     guest_view moscow_db code_unit_compare code_unit_compare (load_settings (Some sample_stored)) sample_stores []
       (\<lambda>_ _. sample_activity) sample_request"

lemma leaderboard_view_respects_settings_witness:
  "gv_scope sample_view = NETWORK_SCOPE \<and> gv_board sample_view = POINTS \<and>
   map (\<lambda>(position, shown). position) (gv_prizes sample_view) = [1, 3] \<and>
   board_enabled (ls_config (load_settings (Some sample_stored))) (gv_board sample_view) \<and>
   length (gv_entries sample_view) \<le> LEADERBOARD_TOP_SIZE + 3"
proof -
  have "gv_enabled sample_view" and fields: "gv_scope sample_view = NETWORK_SCOPE" "gv_board sample_view = POINTS"
    "map (\<lambda>(position, shown). position) (gv_prizes sample_view) = [1, 3]"
    by code_simp+
  then show ?thesis
    using leaderboard_view_respects_settings [OF HOL.refl HOL.refl sample_view_def HOL.refl] by simp
qed

end
