(* ===== verification/Js_Number.thy ===== *)
theory Js_Number
  imports Js_Date
begin

text \<open>
  Numbers as text: \<open>String(n)\<close> of an integer, \<open>padStart(width, '0')\<close>, \<open>Number.parseInt(text, 10)\<close>, and
  \<open>parts.join(':')\<close>, whose result determines the parts when none contains the separator.
\<close>

fun show_nat :: "nat \<Rightarrow> string" where
  "show_nat n = (if n < 10 then [digit_char n] else show_nat (n div 10) @ [digit_char (n mod 10)])"

declare show_nat.simps [simp del]

definition show_int :: "int \<Rightarrow> string" where
  "show_int n = (if n < 0 then CHR ''-'' # show_nat (nat (- n)) else show_nat (nat n))"

definition pad_start :: "nat \<Rightarrow> string \<Rightarrow> string" where
  "pad_start width s = replicate (width - length s) (CHR ''0'') @ s"

text \<open>The leading digits of a text with their value.\<close>

fun leading_digits :: "nat option \<Rightarrow> string \<Rightarrow> nat option" where
  "leading_digits acc [] = acc"
| "leading_digits acc (c # s) =
     (case char_digit c of
        None \<Rightarrow> acc
      | Some d \<Rightarrow> leading_digits (Some (10 * get_or acc 0 + d)) s)"

text \<open>\<open>Number.parseInt(text, 10)\<close>; \<open>NaN\<close> is \<open>None\<close>.\<close>

definition js_parse_int :: "string \<Rightarrow> int option" where
  "js_parse_int text =
     (case dropWhile is_ws text of
        [] \<Rightarrow> None
      | c # s \<Rightarrow>
          if c = CHR ''-'' then map_option (\<lambda>n. - int n) (leading_digits None s)
          else if c = CHR ''+'' then map_option int (leading_digits None s)
          else map_option int (leading_digits None (c # s)))"

fun join_with :: "char \<Rightarrow> string list \<Rightarrow> string" where
  "join_with c [] = []"
| "join_with c [x] = x"
| "join_with c (x # y # xs) = x @ c # join_with c (y # xs)"

text \<open>\<open>text.split(':')\<close> for a separator of one character.\<close>

fun split_on :: "char \<Rightarrow> string \<Rightarrow> string list" where
  "split_on c [] = [[]]"
| "split_on c (d # s) =
     (if d = c then [] # split_on c s
      else case split_on c s of [] \<Rightarrow> [[d]] | x # xs \<Rightarrow> (d # x) # xs)"

lemma split_on_nonempty [simp]: "split_on c s \<noteq> []"
  by (induction s) (auto split: list.splits)

lemma split_on_append: "c \<notin> set x \<Longrightarrow> split_on c (x @ c # s) = x # split_on c s"
  by (induction x) (auto split: list.splits)

lemma split_on_single: "c \<notin> set x \<Longrightarrow> split_on c x = [x]"
  by (induction x) auto

lemma split_join: "xs \<noteq> [] \<Longrightarrow> \<forall>x\<in>set xs. c \<notin> set x \<Longrightarrow> split_on c (join_with c xs) = xs"
  by (induction c xs rule: join_with.induct) (simp_all add: split_on_single split_on_append)

lemma join_with_inject:
  assumes "xs \<noteq> []" and "ys \<noteq> []" and "\<forall>x\<in>set xs \<union> set ys. c \<notin> set x"
  shows "join_with c xs = join_with c ys \<longleftrightarrow> xs = ys"
  using split_join [of xs c] split_join [of ys c] assms by (metis Un_iff)

lemma show_nat_digits: "\<forall>c\<in>set (show_nat n). \<exists>d<10. c = digit_char d"
proof (induction n rule: show_nat.induct)
  case (1 n)
  then show ?case
    by (subst show_nat.simps) (auto intro!: exI [of _ n] exI [of _ "n mod 10"])
qed

lemma digit_char_range: "d < 10 \<Longrightarrow> of_char (digit_char d) = 48 + d"
  by (simp add: digit_char_def)

lemma show_nat_chars: "c \<in> set (show_nat n) \<Longrightarrow> 48 \<le> (of_char c :: nat) \<and> (of_char c :: nat) \<le> 57"
  using show_nat_digits [of n] digit_char_range by fastforce

lemma show_int_no_colon [simp]: "CHR '':'' \<notin> set (show_int n)"
  using show_nat_chars [of "CHR '':''"] by (auto simp: show_int_def)

lemma pad_start_no_colon [simp]: "CHR '':'' \<notin> set s \<Longrightarrow> CHR '':'' \<notin> set (pad_start w s)"
  by (auto simp: pad_start_def)

end
