(* ===== verification/Leaderboard_Settlement.thy ===== *)
theory Leaderboard_Settlement
  imports Leaderboard_View Js_Number Capabilities
begin

text \<open>
  \<open>guest-leaderboard/guest-leaderboard-settlement.service.ts\<close>: the month-end results of the leaderboard.
  The top places of every due scope and board are frozen into result rows, once; the prizes of frozen
  rows are then issued, one by one, as a bonus reward or as a right to open a case, or left for the
  staff to hand over.

  The state is the part of the database the service writes, for one tenant: results, rewards, rights
  (entitlements), reward wallet and audit log. What it only reads is the environment \<open>settle_env\<close>.
  Every call that writes has a \<open>call_outcome\<close>: it is done, it is done but the caller gets an error
  (a lost answer, or an error after the commit), or it is refused with an error. A crash is a refused
  call followed by a refused attempt to record the failure. Identifiers the database draws are the
  numbers of the rows. Texts (titles, labels, notes) are left out.

  Of \<open>GuestGamificationService.createReward\<close> the part that runs for a leaderboard bonus is modelled: the
  transaction that inserts the reward, under the unique index on its idempotency key, with its wallet
  item; the checks before it and the side effects after its commit can fail, which are the outcomes
  \<open>Refused\<close> and \<open>Lost\<close> of the call.
\<close>

section \<open>The rows\<close>

datatype result_status = RECORDED | PRIZE_PENDING | PRIZE_ISSUED | PRIZE_FAILED | MANUAL_PRIZE

datatype settle_error =
  PRIZE_MISSING | NO_ACTOR | PROFILE_INACTIVE | CASE_INACTIVE | DUPLICATE_KEY | DATABASE_ERROR

record stored_prize =
  sp_prize :: "prize option"
  sp_entitlementId :: "nat option"
  sp_error :: "settle_error option"

record result_row =
  rr_id :: nat
  rr_periodKey :: string
  rr_scopeKey :: string
  rr_storeId :: "string option"
  rr_board :: board
  rr_rank :: int
  rr_profileId :: string
  rr_value :: int
  rr_createdAt :: int
  rr_prize :: "stored_prize option"
  rr_rewardId :: "nat option"
  rr_status :: result_status
  rr_issuedAt :: "int option"

record reward_row =
  gr_id :: nat
  gr_idempotencyKey :: string
  gr_profileId :: string
  gr_storeId :: "string option"
  gr_amount :: int
  gr_claimExpiresAt :: int

record entitlement_row =
  ge_id :: nat
  ge_idempotencyKey :: string
  ge_profileId :: string
  ge_storeId :: "string option"
  ge_lootBoxId :: string

datatype wallet_source = REWARD_ITEM nat | ENTITLEMENT_ITEM nat

record prize_item =
  pi_source :: wallet_source
  pi_profileId :: string
  pi_expiresAt :: int

datatype audit_action = LEADERBOARD_PRIZE_MANUAL | LEADERBOARD_PRIZE_ISSUED | LEADERBOARD_PRIZE_FAILED

record settle_db =
  sd_results :: "result_row list"
  sd_rewards :: "reward_row list"
  sd_entitlements :: "entitlement_row list"
  sd_wallet :: "prize_item list"
  sd_audits :: "(nat \<times> audit_action) list"

record loot_box =
  lb_id :: string
  lb_name :: string
  lb_status :: string

record settlement_user =
  su_role :: user_role
  su_isActive :: bool
  su_network :: bool

record settle_env =
  se_tenantId :: string
  se_zdb :: zone_db
  se_compare_names :: "string \<Rightarrow> string \<Rightarrow> int"
  se_compare_ids :: "string \<Rightarrow> string \<Rightarrow> int"
  se_settings :: "settings_row option"
  se_stores :: "store list"
  se_activity :: "int \<Rightarrow> int \<Rightarrow> activity_row list"
  se_profiles :: "game_profile list"
  se_boxes :: "loot_box list"
  se_users :: "settlement_user list"

record settle_result =
  rs_frozenBoards :: nat
  rs_frozenRows :: nat
  rs_prizesIssued :: nat
  rs_manualPrizes :: nat
  rs_prizesFailed :: nat
  rs_invalidSettings :: bool

definition no_result :: settle_result where
  "no_result =
     \<lparr>rs_frozenBoards = 0, rs_frozenRows = 0, rs_prizesIssued = 0, rs_manualPrizes = 0, rs_prizesFailed = 0,
      rs_invalidSettings = False\<rparr>"

definition PRIZE_BATCH :: nat where "PRIZE_BATCH = 50"
definition PRIZE_CLAIM_DAYS :: int where "PRIZE_CLAIM_DAYS = 30"
definition LEADERBOARD_RESULT_SIZE :: nat where "LEADERBOARD_RESULT_SIZE = LEADERBOARD_TOP_SIZE"

definition SETTLEMENT_ACTOR_ROLES :: "user_role list" where
  "SETTLEMENT_ACTOR_ROLES = [OWNER, ADMIN, MANAGER]"

definition period_key :: "period \<Rightarrow> string" where
  "period_key p = show_int (lp_year p) @ ''-'' @ pad_start 2 (show_int (lp_month p))"

definition leaderboard_prize_idempotency_key ::
  "string \<Rightarrow> string \<Rightarrow> string \<Rightarrow> board \<Rightarrow> string \<Rightarrow> string" where
  "leaderboard_prize_idempotency_key tenantId periodKey scopeKey b profileId =
     join_with (CHR '':'')
       [''guest-leaderboard-prize'', ''v1'', tenantId, periodKey, scopeKey, board_name b, profileId]"

section \<open>Freezing a month\<close>

definition same_board :: "string \<Rightarrow> string \<Rightarrow> board \<Rightarrow> result_row \<Rightarrow> bool" where
  "same_board periodKey scopeKey b r \<longleftrightarrow>
     rr_periodKey r = periodKey \<and> rr_scopeKey r = scopeKey \<and> rr_board r = b"

definition result_of ::
  "leaderboard_config \<Rightarrow> string \<Rightarrow> string \<Rightarrow> string option \<Rightarrow> board \<Rightarrow> int \<Rightarrow> nat \<Rightarrow> standing \<Rightarrow> result_row" where
  "result_of config periodKey scopeKey storeId b now i s =
     (let prize = leaderboard_prize_for_rank config scopeKey b (st_rank s)
      in \<lparr>rr_id = i, rr_periodKey = periodKey, rr_scopeKey = scopeKey, rr_storeId = storeId, rr_board = b,
          rr_rank = st_rank s, rr_profileId = st_profileId s, rr_value = st_value s, rr_createdAt = now,
          rr_prize = (case prize of None \<Rightarrow> None
            | Some p \<Rightarrow> Some \<lparr>sp_prize = Some p, sp_entitlementId = None, sp_error = None\<rparr>),
          rr_rewardId = None, rr_status = (if prize = None then RECORDED else PRIZE_PENDING),
          rr_issuedAt = None\<rparr>)"

text \<open>\<open>createMany\<close> with \<open>skipDuplicates\<close>, under the unique index of the results.\<close>

fun create_results ::
  "leaderboard_config \<Rightarrow> string \<Rightarrow> string \<Rightarrow> string option \<Rightarrow> board \<Rightarrow> int \<Rightarrow> standing list
    \<Rightarrow> result_row list \<Rightarrow> result_row list" where
  "create_results config periodKey scopeKey storeId b now [] rows = rows"
| "create_results config periodKey scopeKey storeId b now (s # rest) rows =
     create_results config periodKey scopeKey storeId b now rest
       (if \<exists>r\<in>set rows. same_board periodKey scopeKey b r \<and> rr_profileId r = st_profileId s then rows
        else rows @ [result_of config periodKey scopeKey storeId b now (length rows) s])"

definition freeze_board ::
  "settle_env \<Rightarrow> leaderboard_config \<Rightarrow> period \<Rightarrow> string \<Rightarrow> string option \<Rightarrow> int \<Rightarrow> board
    \<Rightarrow> settle_db \<times> settle_result \<Rightarrow> settle_db \<times> settle_result" where
  "freeze_board env config period scopeKey storeId now b = (\<lambda>(db, res).
     if \<exists>r\<in>set (sd_results db). same_board (period_key period) scopeKey b r then (db, res)
     else
       let standings = standings_of (se_compare_ids env) (se_activity env) storeId b config
                         (lp_from period) (lp_to period);
           top = filter (\<lambda>s. st_rank s \<le> int LEADERBOARD_RESULT_SIZE) standings
       in if top = [] then (db, res)
          else let rows = create_results config (period_key period) scopeKey storeId b now top (sd_results db)
               in (db\<lparr>sd_results := rows\<rparr>,
                   res\<lparr>rs_frozenBoards := rs_frozenBoards res + 1,
                       rs_frozenRows := rs_frozenRows res + (length rows - length (sd_results db))\<rparr>))"

definition freeze_scopes :: "settle_env \<Rightarrow> leaderboard_config \<Rightarrow> (string \<times> store option) list" where
  "freeze_scopes env config =
     (if lc_networkEnabled config then [(LEADERBOARD_NETWORK_SCOPE_KEY, None)] else []) @
     map (\<lambda>s. (store_id s, Some s))
       (filter (\<lambda>s. store_id s \<notin> set (lc_disabledStoreIds config)) (se_stores env))"

definition freeze_scope ::
  "settle_env \<Rightarrow> leaderboard_config \<Rightarrow> int \<Rightarrow> int \<Rightarrow> string \<times> store option
    \<Rightarrow> settle_db \<times> settle_result \<Rightarrow> settle_db \<times> settle_result" where
  "freeze_scope env config settingsCreatedAt now scope state =
     (let (scopeKey, st) = scope;
          period = period_for (se_zdb env) (se_compare_names env)
            (if st = None then NETWORK_SCOPE else CLUB) st (se_stores env) now (- 1)
      in if leaderboard_settlement_due period now settingsCreatedAt
         then fold (freeze_board env config period scopeKey (map_option store_id st) now)
                (enabled_leaderboard_boards config) state
         else state)"

definition freeze_due_months ::
  "settle_env \<Rightarrow> leaderboard_config \<Rightarrow> int \<Rightarrow> int
    \<Rightarrow> settle_db \<times> settle_result \<Rightarrow> settle_db \<times> settle_result" where
  "freeze_due_months env config settingsCreatedAt now state =
     fold (freeze_scope env config settingsCreatedAt now) (freeze_scopes env config) state"

section \<open>Calls that may fail\<close>

datatype call_outcome = Done | Lost | Refused

record call_plan =
  cp_profile :: bool
  cp_sees_existing :: bool
  cp_grant :: call_outcome
  cp_mark :: call_outcome
  cp_audit :: call_outcome
  cp_mark_failed :: call_outcome
  cp_audit_failed :: call_outcome

definition smooth :: call_plan where
  "smooth =
     \<lparr>cp_profile = True, cp_sees_existing = True, cp_grant = Done, cp_mark = Done, cp_audit = Done,
      cp_mark_failed = Done, cp_audit_failed = Done\<rparr>"

type_synonym 'a call_result = "settle_db \<times> (settle_error + 'a)"

definition write_call :: "call_outcome \<Rightarrow> (settle_db \<Rightarrow> settle_db) \<Rightarrow> settle_db \<Rightarrow> unit call_result" where
  "write_call outcome f db =
     (case outcome of
        Done \<Rightarrow> (f db, Inr ())
      | Lost \<Rightarrow> (f db, Inl DATABASE_ERROR)
      | Refused \<Rightarrow> (db, Inl DATABASE_ERROR))"

fun then_call :: "'a call_result \<Rightarrow> (settle_db \<Rightarrow> 'a \<Rightarrow> 'b call_result) \<Rightarrow> 'b call_result" where
  "then_call (db, Inl e) f = (db, Inl e)"
| "then_call (db, Inr x) f = f db x"

section \<open>Issuing the prizes\<close>

definition set_result ::
  "nat \<Rightarrow> result_status \<Rightarrow> nat option \<Rightarrow> stored_prize \<Rightarrow> int \<Rightarrow> settle_db \<Rightarrow> settle_db" where
  "set_result i st rewardId prize now db =
     db\<lparr>sd_results := map (\<lambda>r. if rr_id r = i
          then r\<lparr>rr_status := st, rr_rewardId := rewardId, rr_prize := Some prize,
                 rr_issuedAt := (if st = PRIZE_ISSUED then Some now else None)\<rparr>
          else r) (sd_results db)\<rparr>"

definition mark_result ::
  "call_outcome \<Rightarrow> nat \<Rightarrow> result_status \<Rightarrow> nat option \<Rightarrow> stored_prize \<Rightarrow> int \<Rightarrow> settle_db \<Rightarrow> unit call_result" where
  "mark_result outcome i st rewardId prize now db =
     write_call outcome (set_result i st rewardId prize now) db"

definition audit :: "call_outcome \<Rightarrow> nat \<Rightarrow> audit_action \<Rightarrow> settle_db \<Rightarrow> unit call_result" where
  "audit outcome i action db = write_call outcome (\<lambda>db. db\<lparr>sd_audits := sd_audits db @ [(i, action)]\<rparr>) db"

definition settlement_actor :: "settle_env \<Rightarrow> settlement_user option" where
  "settlement_actor env =
     find (\<lambda>u. su_isActive u \<and> su_network u \<and> su_role u \<in> set SETTLEMENT_ACTOR_ROLES) (se_users env)"

definition row_key :: "string \<Rightarrow> result_row \<Rightarrow> string" where
  "row_key tenantId r =
     leaderboard_prize_idempotency_key tenantId (rr_periodKey r) (rr_scopeKey r) (rr_board r) (rr_profileId r)"

text \<open>\<open>createReward\<close> for a bonus: one transaction, under the unique index on the idempotency key.\<close>

definition create_reward ::
  "call_outcome \<Rightarrow> string \<Rightarrow> string \<Rightarrow> string option \<Rightarrow> int \<Rightarrow> int \<Rightarrow> settle_db \<Rightarrow> nat call_result" where
  "create_reward outcome key profileId storeId amount expiresAt db =
     (if outcome = Refused then (db, Inl DATABASE_ERROR)
      else if \<exists>r\<in>set (sd_rewards db). gr_idempotencyKey r = key then (db, Inl DUPLICATE_KEY)
      else let i = length (sd_rewards db)
           in (db\<lparr>sd_rewards := sd_rewards db @
                    [\<lparr>gr_id = i, gr_idempotencyKey = key, gr_profileId = profileId, gr_storeId = storeId,
                      gr_amount = amount, gr_claimExpiresAt = expiresAt\<rparr>],
                  sd_wallet := sd_wallet db @
                    [\<lparr>pi_source = REWARD_ITEM i, pi_profileId = profileId, pi_expiresAt = expiresAt\<rparr>]\<rparr>,
               if outcome = Lost then Inl DATABASE_ERROR else Inr i))"

text \<open>The lookup may have run before another worker inserted the reward: \<open>cp_sees_existing\<close>.\<close>

definition issue_bonus ::
  "call_plan \<Rightarrow> string \<Rightarrow> string \<Rightarrow> string option \<Rightarrow> int \<Rightarrow> int \<Rightarrow> settle_db \<Rightarrow> nat call_result" where
  "issue_bonus plan key profileId storeId amount now db =
     (case (if cp_sees_existing plan then find (\<lambda>r. gr_idempotencyKey r = key) (sd_rewards db) else None) of
        Some r \<Rightarrow> (db, Inr (gr_id r))
      | None \<Rightarrow> create_reward (cp_grant plan) key profileId storeId amount
                  (now + PRIZE_CLAIM_DAYS * 86400000) db)"

definition has_item :: "wallet_source \<Rightarrow> settle_db \<Rightarrow> bool" where
  "has_item src db \<longleftrightarrow> (\<exists>i\<in>set (sd_wallet db). pi_source i = src)"

text \<open>The transaction of \<open>issueCase\<close>: the right and its wallet item are inserted or left as they are.\<close>

definition upsert_case ::
  "string \<Rightarrow> string \<Rightarrow> string option \<Rightarrow> string \<Rightarrow> int \<Rightarrow> settle_db \<Rightarrow> settle_db \<times> nat" where
  "upsert_case key profileId storeId lootBoxId expiresAt db =
     (let (db1, i) = (case find (\<lambda>e. ge_idempotencyKey e = key) (sd_entitlements db) of
            Some e \<Rightarrow> (db, ge_id e)
          | None \<Rightarrow>
              (let i = length (sd_entitlements db)
               in (db\<lparr>sd_entitlements := sd_entitlements db @
                     [\<lparr>ge_id = i, ge_idempotencyKey = key, ge_profileId = profileId, ge_storeId = storeId,
                       ge_lootBoxId = lootBoxId\<rparr>]\<rparr>, i)))
      in (if has_item (ENTITLEMENT_ITEM i) db1 then db1
          else db1\<lparr>sd_wallet := sd_wallet db1 @
                 [\<lparr>pi_source = ENTITLEMENT_ITEM i, pi_profileId = profileId, pi_expiresAt = expiresAt\<rparr>]\<rparr>, i))"

definition issue_case ::
  "settle_env \<Rightarrow> call_plan \<Rightarrow> string \<Rightarrow> string \<Rightarrow> string option \<Rightarrow> string \<Rightarrow> int \<Rightarrow> settle_db \<Rightarrow> nat call_result" where
  "issue_case env plan key profileId storeId lootBoxId now db =
     (if \<not> (\<exists>b\<in>set (se_boxes env). lb_id b = lootBoxId \<and> lb_status b = ''ACTIVE'') then (db, Inl CASE_INACTIVE)
      else if cp_grant plan = Refused then (db, Inl DATABASE_ERROR)
      else let (db', i) = upsert_case key profileId storeId lootBoxId (now + PRIZE_CLAIM_DAYS * 86400000) db
           in (db', if cp_grant plan = Lost then Inl DATABASE_ERROR else Inr i))"

definition home_store_id :: "settle_env \<Rightarrow> string \<Rightarrow> int \<Rightarrow> string option" where
  "home_store_id env profileId now =
     (let period = period_for (se_zdb env) (se_compare_names env) NETWORK_SCOPE None (se_stores env) now (- 1)
      in case map_of (home_stores (se_activity env (lp_from period) (lp_to period)) [profileId]) profileId of
           Some storeId \<Rightarrow> Some storeId
         | None \<Rightarrow> (case se_stores env of [] \<Rightarrow> None | s # _ \<Rightarrow> Some (store_id s)))"

definition profile_is_active :: "settle_env \<Rightarrow> string \<Rightarrow> bool" where
  "profile_is_active env profileId =
     (case find (\<lambda>p. gp_tenantId p = se_tenantId env \<and> gp_id p = profileId) (se_profiles env) of
        None \<Rightarrow> False
      | Some p \<Rightarrow> gp_status p = ''ACTIVE'')"

text \<open>The \<open>try\<close> block for one pending row; the answer tells whether the prize is left to the staff.\<close>

definition try_issue ::
  "settle_env \<Rightarrow> call_plan \<Rightarrow> int \<Rightarrow> result_row \<Rightarrow> settle_db \<Rightarrow> bool call_result" where
  "try_issue env plan now row db =
     (case rr_prize row of
        None \<Rightarrow> (db, Inl PRIZE_MISSING)
      | Some stored \<Rightarrow>
          (case sp_prize stored of
             None \<Rightarrow> (db, Inl PRIZE_MISSING)
           | Some (CUSTOM label) \<Rightarrow>
               then_call (mark_result (cp_mark plan) (rr_id row) MANUAL_PRIZE None stored now db) (\<lambda>db _.
               then_call (audit (cp_audit plan) (rr_id row) LEADERBOARD_PRIZE_MANUAL db) (\<lambda>db _. (db, Inr True)))
           | Some prize \<Rightarrow>
               if settlement_actor env = None then (db, Inl NO_ACTOR)
               else if \<not> cp_profile plan then (db, Inl DATABASE_ERROR)
               else if \<not> profile_is_active env (rr_profileId row) then (db, Inl PROFILE_INACTIVE)
               else let key = row_key (se_tenantId env) row
                    in then_call
                      (case prize of
                         BONUS amount \<Rightarrow>
                           then_call (issue_bonus plan key (rr_profileId row) (rr_storeId row) amount now db)
                             (\<lambda>db rewardId. mark_result (cp_mark plan) (rr_id row) PRIZE_ISSUED (Some rewardId)
                               stored now db)
                       | LOOT_BOX lootBoxId \<Rightarrow>
                           (let storeId = or_else (rr_storeId row) (home_store_id env (rr_profileId row) now)
                            in then_call (issue_case env plan key (rr_profileId row) storeId lootBoxId now db)
                             (\<lambda>db entitlementId. mark_result (cp_mark plan) (rr_id row) PRIZE_ISSUED None
                               (stored\<lparr>sp_entitlementId := Some entitlementId\<rparr>) now db))
                       | CUSTOM label \<Rightarrow> (db, Inr ()))
                      (\<lambda>db _. then_call (audit (cp_audit plan) (rr_id row) LEADERBOARD_PRIZE_ISSUED db)
                        (\<lambda>db _. (db, Inr False)))))"

text \<open>
  One pending row with the \<open>catch\<close> block; the answer is the result so far, or the error that ends the
  run when the failure itself cannot be recorded.
\<close>

definition failed_prize :: "result_row \<Rightarrow> settle_error \<Rightarrow> stored_prize" where
  "failed_prize row e =
     (case rr_prize row of
        None \<Rightarrow> \<lparr>sp_prize = None, sp_entitlementId = None, sp_error = Some e\<rparr>
      | Some stored \<Rightarrow> stored\<lparr>sp_error := Some e\<rparr>)"

definition issue_row ::
  "settle_env \<Rightarrow> call_plan \<Rightarrow> int \<Rightarrow> result_row \<Rightarrow> settle_result \<Rightarrow> settle_db \<Rightarrow> settle_result call_result" where
  "issue_row env plan now row res db =
     (case try_issue env plan now row db of
        (db', Inr True) \<Rightarrow> (db', Inr (res\<lparr>rs_manualPrizes := rs_manualPrizes res + 1\<rparr>))
      | (db', Inr False) \<Rightarrow> (db', Inr (res\<lparr>rs_prizesIssued := rs_prizesIssued res + 1\<rparr>))
      | (db', Inl e) \<Rightarrow>
          then_call (mark_result (cp_mark_failed plan) (rr_id row) PRIZE_FAILED None (failed_prize row e) now db')
            (\<lambda>db _. then_call (audit (cp_audit_failed plan) (rr_id row) LEADERBOARD_PRIZE_FAILED db)
              (\<lambda>db _. (db, Inr (res\<lparr>rs_prizesFailed := rs_prizesFailed res + 1\<rparr>)))))"

fun issue_rows ::
  "settle_env \<Rightarrow> (nat \<Rightarrow> call_plan) \<Rightarrow> int \<Rightarrow> result_row list \<Rightarrow> settle_result \<Rightarrow> settle_db
    \<Rightarrow> settle_result call_result" where
  "issue_rows env plans now [] res db = (db, Inr res)"
| "issue_rows env plans now (row # rows) res db =
     then_call (issue_row env (plans (rr_id row)) now row res db)
       (\<lambda>db res. issue_rows env plans now rows res db)"

definition compare_pending :: "result_row \<Rightarrow> result_row \<Rightarrow> int" where
  "compare_pending a b =
     (let byPeriod = code_unit_compare (rr_periodKey a) (rr_periodKey b)
      in if byPeriod \<noteq> 0 then byPeriod
         else if rr_createdAt a \<noteq> rr_createdAt b then rr_createdAt a - rr_createdAt b
         else rr_rank a - rr_rank b)"

definition pending_rows :: "settle_db \<Rightarrow> result_row list" where
  "pending_rows db = filter (\<lambda>r. rr_status r = PRIZE_PENDING) (sd_results db)"

definition pending_batch :: "settle_db \<Rightarrow> result_row list" where
  "pending_batch db = take PRIZE_BATCH (js_sort compare_pending (pending_rows db))"

definition issue_pending_prizes ::
  "settle_env \<Rightarrow> (nat \<Rightarrow> call_plan) \<Rightarrow> int \<Rightarrow> settle_result \<Rightarrow> settle_db \<Rightarrow> settle_result call_result" where
  "issue_pending_prizes env plans now res db = issue_rows env plans now (pending_batch db) res db"

definition settle_tenant ::
  "settle_env \<Rightarrow> (nat \<Rightarrow> call_plan) \<Rightarrow> int \<Rightarrow> settle_db \<Rightarrow> settle_result call_result" where
  "settle_tenant env plans now db =
     (case se_settings env of
        None \<Rightarrow> (db, Inr no_result)
      | Some row \<Rightarrow>
          (case normalize_leaderboard_config None (sr_config row) of
             Inl _ \<Rightarrow> (db, Inr (no_result\<lparr>rs_invalidSettings := True\<rparr>))
           | Inr config \<Rightarrow>
               (let (db', res) = (if sr_enabled row
                      then freeze_due_months env config (sr_createdAt row) now (db, no_result)
                      else (db, no_result))
                in issue_pending_prizes env plans now res db')))"

end
