(* ===== verification/Leaderboard_Payout.thy ===== *)
theory Leaderboard_Payout
  imports Leaderboard_Settlement
begin

text \<open>
  What the settlement of the leaderboard guarantees, whatever fails and however its runs interleave.

  \<open>settlement_reachable\<close> is the system: any number of workers freeze boards, pick up batches of pending
  rows and issue the rows they hold, with any outcome of every call and in any environment. Its
  invariant is \<open>settle_inv\<close>: frozen rows are unique and keep what was frozen, a prize is granted at
  most once and only for a row that has it, and an issued row has its grant. \<open>keeps\<close> is the rule by
  which the invariant is carried through a sequence of calls.
\<close>

section \<open>The system\<close>

definition clean :: "string \<Rightarrow> bool" where
  "clean s \<longleftrightarrow> CHR '':'' \<notin> set s"

text \<open>Identifiers are UUIDs and contain no colon.\<close>

definition clean_env :: "settle_env \<Rightarrow> bool" where
  "clean_env env \<longleftrightarrow>
     (\<forall>s\<in>set (se_stores env). clean (store_id s)) \<and>
     (\<forall>a b. \<forall>row\<in>set (se_activity env a b). clean (ar_profileId row))"

definition empty_db :: settle_db where
  "empty_db =
     \<lparr>sd_results = [], sd_rewards = [], sd_entitlements = [], sd_wallet = [], sd_audits = []\<rparr>"

text \<open>A state of the system: the database, and the rows that some worker holds.\<close>

type_synonym settle_state = "settle_db \<times> result_row list"

inductive settlement_step :: "string \<Rightarrow> settle_state \<Rightarrow> settle_state \<Rightarrow> bool" for tenantId where
  freezes: "clean_env env \<Longrightarrow> clean scopeKey \<Longrightarrow>
    settlement_step tenantId (db, held)
      (fst (freeze_board env config period scopeKey storeId now b (db, res)), held)"
| picks: "settlement_step tenantId (db, held) (db, pending_batch db @ held)"
| issues: "row \<in> set held \<Longrightarrow> se_tenantId env = tenantId \<Longrightarrow>
    settlement_step tenantId (db, held) (fst (issue_row env plan now row res db), held)"

abbreviation settlement_steps :: "string \<Rightarrow> settle_state \<Rightarrow> settle_state \<Rightarrow> bool" where
  "settlement_steps tenantId \<equiv> (settlement_step tenantId)\<^sup>*\<^sup>*"

definition settlement_reachable :: "string \<Rightarrow> settle_state \<Rightarrow> bool" where
  "settlement_reachable tenantId s \<longleftrightarrow> settlement_steps tenantId (empty_db, []) s"

section \<open>What is frozen\<close>

definition prize_of :: "result_row \<Rightarrow> prize option" where
  "prize_of r = (case rr_prize r of None \<Rightarrow> None | Some stored \<Rightarrow> sp_prize stored)"

definition frozen_part ::
  "result_row \<Rightarrow> nat \<times> string \<times> string \<times> string option \<times> board \<times> int \<times> string \<times> int \<times> int \<times> prize option" where
  "frozen_part r =
     (rr_id r, rr_periodKey r, rr_scopeKey r, rr_storeId r, rr_board r, rr_rank r, rr_profileId r,
      rr_value r, rr_createdAt r, prize_of r)"

lemmas frozen_fields = frozen_part_def prod.inject

definition row_ident :: "result_row \<Rightarrow> string \<times> string \<times> board \<times> string" where
  "row_ident r = (rr_periodKey r, rr_scopeKey r, rr_board r, rr_profileId r)"

definition clean_row :: "result_row \<Rightarrow> bool" where
  "clean_row r \<longleftrightarrow> clean (rr_periodKey r) \<and> clean (rr_scopeKey r) \<and> clean (rr_profileId r)"

lemma frozen_same:
  assumes "frozen_part r = frozen_part r'"
  shows "rr_id r = rr_id r'" and "row_ident r = row_ident r'" and "row_key t r = row_key t r'"
    and "prize_of r = prize_of r'" and "rr_profileId r = rr_profileId r'" and "clean_row r = clean_row r'"
  using assms by (simp_all add: frozen_part_def row_ident_def row_key_def clean_row_def)

lemma board_name_clean: "clean (board_name b)"
  by (cases b) (simp_all add: clean_def)

lemma board_name_inj: "board_name b = board_name b' \<longleftrightarrow> b = b'"
  by (cases b; cases b') simp_all

lemma row_key_inject:
  assumes "clean t" and "clean_row r" and "clean_row r'"
  shows "row_key t r = row_key t r' \<longleftrightarrow> row_ident r = row_ident r'"
proof -
  let ?parts = "\<lambda>r. [''guest-leaderboard-prize'', ''v1'', t, rr_periodKey r, rr_scopeKey r,
    board_name (rr_board r), rr_profileId r]"
  have "\<forall>x\<in>set (?parts r) \<union> set (?parts r'). CHR '':'' \<notin> set x"
    using assms board_name_clean by (auto simp: clean_row_def clean_def)
  then show ?thesis
    using join_with_inject [of "?parts r" "?parts r'" "CHR '':''"]
    by (auto simp: row_key_def leaderboard_prize_idempotency_key_def row_ident_def board_name_inj)
qed

lemma distinct_map_eq: "distinct (map f xs) \<Longrightarrow> x \<in> set xs \<Longrightarrow> y \<in> set xs \<Longrightarrow> f x = f y \<Longrightarrow> x = y"
  by (auto simp: distinct_map inj_on_def)

lemma filter_key_le_1: "distinct (map f xs) \<Longrightarrow> length (filter (\<lambda>x. f x = k) xs) \<le> 1"
proof (induction xs)
  case (Cons x xs)
  show ?case
  proof (cases "f x = k")
    case True
    then have "filter (\<lambda>x. f x = k) xs = []"
      using Cons.prems by (auto simp: filter_empty_conv) (metis imageI)
    then show ?thesis by (simp add: True)
  qed (use Cons in simp)
qed simp

section \<open>The invariant\<close>

definition rows_ok :: "result_row list \<Rightarrow> bool" where
  "rows_ok rows \<longleftrightarrow>
     map rr_id rows = [0..<length rows] \<and> distinct (map row_ident rows) \<and> (\<forall>r\<in>set rows. clean_row r)"

definition status_ok :: "result_row \<Rightarrow> bool" where
  "status_ok r \<longleftrightarrow>
     (case rr_status r of
        RECORDED \<Rightarrow> prize_of r = None
      | MANUAL_PRIZE \<Rightarrow> (\<exists>l. prize_of r = Some (CUSTOM l))
      | _ \<Rightarrow> prize_of r \<noteq> None)"

definition granted :: "string \<Rightarrow> settle_db \<Rightarrow> result_row \<Rightarrow> bool" where
  "granted t db r \<longleftrightarrow>
     (case prize_of r of
        Some (BONUS amount) \<Rightarrow> \<exists>g\<in>set (sd_rewards db). gr_idempotencyKey g = row_key t r
      | Some (LOOT_BOX box) \<Rightarrow> \<exists>e\<in>set (sd_entitlements db). ge_idempotencyKey e = row_key t r
      | _ \<Rightarrow> False)"

definition wallet_ok :: "settle_db \<Rightarrow> bool" where
  "wallet_ok db \<longleftrightarrow>
     map gr_id (sd_rewards db) = [0..<length (sd_rewards db)] \<and>
     map ge_id (sd_entitlements db) = [0..<length (sd_entitlements db)] \<and>
     distinct (map pi_source (sd_wallet db)) \<and>
     pi_source ` set (sd_wallet db) =
       REWARD_ITEM ` {..<length (sd_rewards db)} \<union> ENTITLEMENT_ITEM ` {..<length (sd_entitlements db)}"

definition grants_ok :: "string \<Rightarrow> settle_db \<Rightarrow> bool" where
  "grants_ok t db \<longleftrightarrow>
     distinct (map gr_idempotencyKey (sd_rewards db)) \<and> distinct (map ge_idempotencyKey (sd_entitlements db)) \<and>
     (\<forall>g\<in>set (sd_rewards db). \<exists>r\<in>set (sd_results db). gr_idempotencyKey g = row_key t r \<and>
        gr_profileId g = rr_profileId r \<and> prize_of r = Some (BONUS (gr_amount g))) \<and>
     (\<forall>e\<in>set (sd_entitlements db). \<exists>r\<in>set (sd_results db). ge_idempotencyKey e = row_key t r \<and>
        ge_profileId e = rr_profileId r \<and> prize_of r = Some (LOOT_BOX (ge_lootBoxId e)))"

definition settle_inv :: "string \<Rightarrow> result_row list \<Rightarrow> settle_db \<Rightarrow> bool" where
  "settle_inv t held db \<longleftrightarrow>
     rows_ok (sd_results db) \<and> wallet_ok db \<and> grants_ok t db \<and>
     (\<forall>r\<in>set (sd_results db). status_ok r \<and> (rr_status r = PRIZE_ISSUED \<longrightarrow> granted t db r)) \<and>
     (\<forall>h\<in>set held. prize_of h \<noteq> None \<and> (\<exists>r\<in>set (sd_results db). frozen_part r = frozen_part h))"

section \<open>Sequences of calls\<close>

definition keeps :: "(settle_db \<Rightarrow> bool) \<Rightarrow> 'a call_result \<Rightarrow> (settle_db \<Rightarrow> 'a \<Rightarrow> bool) \<Rightarrow> bool" where
  "keeps I c Q \<longleftrightarrow> I (fst c) \<and> (\<forall>x. snd c = Inr x \<longrightarrow> Q (fst c) x)"

lemma keeps_then:
  assumes "keeps I c Q" and "\<And>db x. I db \<Longrightarrow> Q db x \<Longrightarrow> keeps I (f db x) R"
  shows "keeps I (then_call c f) R"
proof (cases c)
  case (Pair db r)
  then show ?thesis using assms by (cases r) (auto simp: keeps_def)
qed

lemma keeps_error: "I db \<Longrightarrow> keeps I (db, Inl e) Q"
  by (simp add: keeps_def)

lemma keeps_return: "I db \<Longrightarrow> Q db x \<Longrightarrow> keeps I (db, Inr x) Q"
  by (simp add: keeps_def)

lemma keeps_mono: "keeps I c Q \<Longrightarrow> (\<And>db x. I db \<Longrightarrow> Q db x \<Longrightarrow> R db x) \<Longrightarrow> keeps I c R"
  by (simp add: keeps_def)

lemma keeps_write:
  assumes "I db" and "I (f db)"
  shows "keeps I (write_call outcome f db) (\<lambda>_ _. True)"
  using assms by (cases outcome) (simp_all add: keeps_def write_call_def)

lemma granted_same:
  assumes "frozen_part r = frozen_part r'" and "sd_rewards db = sd_rewards db'"
    and "sd_entitlements db = sd_entitlements db'"
  shows "granted t db r = granted t db' r'"
  using frozen_same [OF assms(1)] assms(2,3) by (simp add: granted_def split: option.split prize.split)

text \<open>What is frozen and what is granted stays.\<close>

definition extends :: "settle_db \<Rightarrow> settle_db \<Rightarrow> bool" where
  "extends db db' \<longleftrightarrow>
     (\<exists>rows. map frozen_part (sd_results db') = map frozen_part (sd_results db) @ rows) \<and>
     (\<exists>rewards. sd_rewards db' = sd_rewards db @ rewards) \<and>
     (\<exists>rights. sd_entitlements db' = sd_entitlements db @ rights)"

lemma extends_refl [simp]: "extends db db"
  by (simp add: extends_def)

lemma extends_trans: "extends a b \<Longrightarrow> extends b c \<Longrightarrow> extends a c"
  by (auto simp: extends_def)

definition safe :: "settle_db \<Rightarrow> string \<Rightarrow> result_row list \<Rightarrow> settle_db \<Rightarrow> bool" where
  "safe db0 t held db \<longleftrightarrow> settle_inv t held db \<and> extends db0 db"

lemma safe_step: "safe db0 t held db \<Longrightarrow> settle_inv t held db' \<Longrightarrow> extends db db' \<Longrightarrow> safe db0 t held db'"
  using extends_trans by (simp add: safe_def) blast

lemma keeps_audit:
  assumes "safe db0 t held db"
  shows "keeps (safe db0 t held) (audit outcome i action db) (\<lambda>_ _. True)"
proof -
  have "settle_inv t held (db\<lparr>sd_audits := sd_audits db @ [(i, action)]\<rparr>)"
    using assms by (auto simp: safe_def settle_inv_def wallet_ok_def grants_ok_def
        intro: granted_same [THEN iffD1, rotated -1])
  then have "safe db0 t held (db\<lparr>sd_audits := sd_audits db @ [(i, action)]\<rparr>)"
    by (rule safe_step [OF assms]) (simp add: extends_def)
  then show ?thesis unfolding audit_def using assms by (intro keeps_write)
qed

section \<open>Marking a result\<close>

lemma set_result_tables [simp]:
  "sd_rewards (set_result i st reward prize now db) = sd_rewards db"
  "sd_entitlements (set_result i st reward prize now db) = sd_entitlements db"
  "sd_wallet (set_result i st reward prize now db) = sd_wallet db"
  by (simp_all add: set_result_def)

lemma row_by_id:
  assumes "rows_ok rows" and "r \<in> set rows" and "r' \<in> set rows" and "rr_id r = rr_id r'"
  shows "r = r'"
proof -
  have "distinct (map rr_id rows)" using assms(1) by (simp add: rows_ok_def)
  then show ?thesis using assms(2-4) by (rule distinct_map_eq)
qed

lemma set_result_frozen:
  assumes "rows_ok (sd_results db)" and "r \<in> set (sd_results db)" and "rr_id r = i" and "sp_prize stored = prize_of r"
  shows "map frozen_part (sd_results (set_result i st reward stored now db)) = map frozen_part (sd_results db)"
  using row_by_id [OF assms(1) _ assms(2)] assms(3,4)
  by (auto simp: set_result_def frozen_part_def prize_of_def)

lemma map_frozen_eq:
  assumes "map frozen_part xs = map frozen_part ys" and "x \<in> set xs"
  shows "\<exists>y\<in>set ys. frozen_part y = frozen_part x"
proof -
  have "frozen_part x \<in> set (map frozen_part ys)"
    using assms(2) by (simp flip: assms(1))
  then show ?thesis by auto
qed

lemma map_frozen_fields:
  assumes "map frozen_part xs = map frozen_part ys"
  shows "length xs = length ys" and "map rr_id xs = map rr_id ys" and "map row_ident xs = map row_ident ys"
    and "(\<forall>x\<in>set xs. clean_row x) \<longleftrightarrow> (\<forall>y\<in>set ys. clean_row y)"
proof -
  have same: "list_all2 (\<lambda>x y. frozen_part x = frozen_part y) xs ys"
    using assms by (simp add: list_all2_conv_all_nth list_eq_iff_nth_eq)
  then show "length xs = length ys" by (rule list_all2_lengthD)
  show "map rr_id xs = map rr_id ys" and "map row_ident xs = map row_ident ys"
    and "(\<forall>x\<in>set xs. clean_row x) \<longleftrightarrow> (\<forall>y\<in>set ys. clean_row y)"
    using same by (induction rule: list_all2_induct) (auto dest: frozen_same)
qed

lemma rows_ok_frozen:
  assumes "map frozen_part xs = map frozen_part ys"
  shows "rows_ok xs \<longleftrightarrow> rows_ok ys"
  using map_frozen_fields [OF assms] by (simp add: rows_ok_def)

text \<open>A mark is allowed when it fits the frozen prize, and issued only when the grant is there.\<close>

definition mark_fits :: "string \<Rightarrow> settle_db \<Rightarrow> result_row \<Rightarrow> result_status \<Rightarrow> bool" where
  "mark_fits t db h st \<longleftrightarrow>
     prize_of h \<noteq> None \<and> st \<noteq> RECORDED \<and> (st = MANUAL_PRIZE \<longrightarrow> (\<exists>l. prize_of h = Some (CUSTOM l))) \<and>
     (st = PRIZE_ISSUED \<longrightarrow> granted t db h)"

lemma settle_inv_set_result:
  assumes inv: "settle_inv t held db" and h: "h \<in> set held" and fits: "mark_fits t db h st"
    and stored: "sp_prize stored = prize_of h"
  shows "settle_inv t held (set_result (rr_id h) st reward stored now db)"
proof -
  let ?db = "set_result (rr_id h) st reward stored now db"
  obtain r where r: "r \<in> set (sd_results db)" "frozen_part r = frozen_part h"
    using inv h by (auto simp: settle_inv_def)
  note same = frozen_same [OF r(2)]
  have rows: "rows_ok (sd_results db)" using inv by (simp add: settle_inv_def)
  have frozen: "map frozen_part (sd_results ?db) = map frozen_part (sd_results db)"
    by (rule set_result_frozen [OF rows r(1) same(1)]) (simp add: stored same(4))
  have old: "\<exists>y\<in>set (sd_results ?db). frozen_part y = frozen_part x" if "x \<in> set (sd_results db)" for x
    using map_frozen_eq [OF frozen [symmetric] that] .
  have status: "status_ok x \<and> (rr_status x = PRIZE_ISSUED \<longrightarrow> granted t ?db x)" if x: "x \<in> set (sd_results ?db)" for x
  proof -
    obtain y where y: "y \<in> set (sd_results db)" "frozen_part y = frozen_part x"
      using map_frozen_eq [OF frozen x] by blast
    show ?thesis
    proof (cases "rr_id x = rr_id h")
      case True
      then have "y = r" using row_by_id [OF rows y(1) r(1)] frozen_same(1) [OF y(2)] same(1) by simp
      then have part: "frozen_part x = frozen_part h" using y(2) r(2) by simp
      moreover have "rr_status x = st" using x True by (auto simp: set_result_def split: if_splits)
      ultimately show ?thesis
        using fits frozen_same(4) [OF part] granted_same [OF part, of ?db db t]
        by (auto simp: mark_fits_def status_ok_def split: result_status.split)
    next
      case False
      then have "x \<in> set (sd_results db)" using x by (auto simp: set_result_def split: if_splits)
      then show ?thesis
        using inv granted_same [of x x ?db db t] by (simp add: settle_inv_def)
    qed
  qed
  have moved: "\<exists>y\<in>set (sd_results ?db). row_key t x = row_key t y \<and> rr_profileId x = rr_profileId y \<and>
      prize_of x = prize_of y" if "x \<in> set (sd_results db)" for x
    using old [OF that] frozen_same(3-5) by metis
  have "grants_ok t ?db"
    unfolding grants_ok_def set_result_tables
  proof (intro conjI ballI)
    fix g assume "g \<in> set (sd_rewards db)"
    then obtain x where "x \<in> set (sd_results db)" "gr_idempotencyKey g = row_key t x"
        "gr_profileId g = rr_profileId x" "prize_of x = Some (BONUS (gr_amount g))"
      using inv unfolding settle_inv_def grants_ok_def by blast
    then show "\<exists>r\<in>set (sd_results ?db). gr_idempotencyKey g = row_key t r \<and>
        gr_profileId g = rr_profileId r \<and> prize_of r = Some (BONUS (gr_amount g))"
      using moved by metis
  next
    fix e assume "e \<in> set (sd_entitlements db)"
    then obtain x where "x \<in> set (sd_results db)" "ge_idempotencyKey e = row_key t x"
        "ge_profileId e = rr_profileId x" "prize_of x = Some (LOOT_BOX (ge_lootBoxId e))"
      using inv unfolding settle_inv_def grants_ok_def by blast
    then show "\<exists>r\<in>set (sd_results ?db). ge_idempotencyKey e = row_key t r \<and>
        ge_profileId e = rr_profileId r \<and> prize_of r = Some (LOOT_BOX (ge_lootBoxId e))"
      using moved by metis
  qed (use inv in \<open>simp_all add: settle_inv_def grants_ok_def\<close>)
  moreover have "\<exists>x\<in>set (sd_results ?db). frozen_part x = frozen_part g" if "g \<in> set held" for g
    using inv old that unfolding settle_inv_def by metis
  ultimately show ?thesis
    using inv status rows_ok_frozen [OF frozen] by (simp add: settle_inv_def wallet_ok_def)
qed

lemma keeps_mark:
  assumes "safe db0 t held db" and "h \<in> set held" and "mark_fits t db h st" and "sp_prize stored = prize_of h"
  shows "keeps (safe db0 t held) (mark_result outcome (rr_id h) st reward stored now db) (\<lambda>_ _. True)"
proof -
  have inv: "settle_inv t held db" using assms(1) by (simp add: safe_def)
  obtain r where r: "r \<in> set (sd_results db)" "frozen_part r = frozen_part h"
    using inv assms(2) by (auto simp: settle_inv_def)
  have "map frozen_part (sd_results (set_result (rr_id h) st reward stored now db)) =
      map frozen_part (sd_results db)"
    using inv assms(4) frozen_same [OF r(2)]
    by (intro set_result_frozen [OF _ r(1)]) (simp_all add: settle_inv_def)
  then have "extends db (set_result (rr_id h) st reward stored now db)"
    by (simp add: extends_def)
  then show ?thesis
    unfolding mark_result_def
    using assms(1) settle_inv_set_result [OF inv assms(2-4)] by (intro keeps_write) (auto intro: safe_step)
qed

section \<open>Granting a prize\<close>

lemma granted_mono:
  assumes "granted t db r" and "set (sd_rewards db) \<subseteq> set (sd_rewards db')"
    and "set (sd_entitlements db) \<subseteq> set (sd_entitlements db')"
  shows "granted t db' r"
  using assms by (fastforce simp: granted_def split: option.splits prize.splits)

lemma held_row:
  assumes "settle_inv t held db" and "h \<in> set held"
  obtains r where "r \<in> set (sd_results db)" and "row_key t h = row_key t r" and "rr_profileId h = rr_profileId r"
    and "prize_of h = prize_of r"
proof -
  obtain r where "r \<in> set (sd_results db)" "frozen_part r = frozen_part h"
    using assms by (auto simp: settle_inv_def)
  with that frozen_same(3-5) [OF this(2)] show thesis by metis
qed

text \<open>Adding grants and wallet items keeps what does not speak of them.\<close>

lemma settle_inv_grow:
  assumes "settle_inv t held db" and "sd_results db' = sd_results db"
    and "set (sd_rewards db) \<subseteq> set (sd_rewards db')" and "set (sd_entitlements db) \<subseteq> set (sd_entitlements db')"
    and "wallet_ok db'" and "grants_ok t db'"
  shows "settle_inv t held db'"
  using assms granted_mono [OF _ assms(3,4)] by (auto simp: settle_inv_def)

lemma upt_snoc: "[0..<Suc n] = [0..<n] @ [n]"
  by simp

lemma wallet_ok_reward:
  assumes "wallet_ok db" and "gr_id g = length (sd_rewards db)"
    and "pi_source item = REWARD_ITEM (length (sd_rewards db))"
  shows "wallet_ok (db\<lparr>sd_rewards := sd_rewards db @ [g], sd_wallet := sd_wallet db @ [item]\<rparr>)"
  using assms by (auto simp: wallet_ok_def lessThan_Suc)

lemma keeps_create_reward:
  assumes safe: "safe db0 t held db" and h: "h \<in> set held" and prize: "prize_of h = Some (BONUS amount)"
  shows "keeps (safe db0 t held)
    (create_reward outcome (row_key t h) (rr_profileId h) storeId amount expiresAt db) (\<lambda>db _. granted t db h)"
proof (cases "outcome = Refused \<or> (\<exists>r\<in>set (sd_rewards db). gr_idempotencyKey r = row_key t h)")
  case True
  then show ?thesis using safe by (auto simp: create_reward_def keeps_def)
next
  case False
  define g where "g = \<lparr>gr_id = length (sd_rewards db), gr_idempotencyKey = row_key t h, gr_profileId = rr_profileId h,
    gr_storeId = storeId, gr_amount = amount, gr_claimExpiresAt = expiresAt\<rparr>"
  define item where "item = \<lparr>pi_source = REWARD_ITEM (length (sd_rewards db)), pi_profileId = rr_profileId h,
    pi_expiresAt = expiresAt\<rparr>"
  define db' where "db' = db\<lparr>sd_rewards := sd_rewards db @ [g], sd_wallet := sd_wallet db @ [item]\<rparr>"
  have result: "create_reward outcome (row_key t h) (rr_profileId h) storeId amount expiresAt db =
      (db', if outcome = Lost then Inl DATABASE_ERROR else Inr (length (sd_rewards db)))"
    using False by (simp add: create_reward_def Let_def db'_def g_def item_def)
  have inv: "settle_inv t held db" using safe by (simp add: safe_def)
  obtain r where r: "r \<in> set (sd_results db)" "row_key t h = row_key t r" "rr_profileId h = rr_profileId r"
      "prize_of h = prize_of r"
    using held_row [OF inv h] .
  have grants: "grants_ok t db'"
    unfolding grants_ok_def
  proof (intro conjI ballI)
    show "distinct (map gr_idempotencyKey (sd_rewards db'))"
      using inv False by (auto simp: db'_def g_def settle_inv_def grants_ok_def)
    fix x assume x: "x \<in> set (sd_rewards db')"
    show "\<exists>r\<in>set (sd_results db'). gr_idempotencyKey x = row_key t r \<and> gr_profileId x = rr_profileId r \<and>
        prize_of r = Some (BONUS (gr_amount x))"
    proof (cases "x = g")
      case True
      then show ?thesis using r prize by (auto simp: db'_def g_def)
    next
      case False
      then have "x \<in> set (sd_rewards db)" using x by (simp add: db'_def)
      then show ?thesis using inv by (simp add: db'_def settle_inv_def grants_ok_def)
    qed
  qed (use inv in \<open>auto simp: db'_def settle_inv_def grants_ok_def\<close>)
  have wallet': "wallet_ok db'"
    using inv unfolding db'_def settle_inv_def by (intro wallet_ok_reward) (simp_all add: g_def item_def)
  have "settle_inv t held db'"
    by (rule settle_inv_grow [OF inv _ _ _ wallet' grants]) (auto simp: db'_def)
  then have "safe db0 t held db'"
    by (rule safe_step [OF safe]) (simp add: extends_def db'_def)
  moreover have "granted t db' h"
    by (simp add: granted_def prize db'_def g_def)
  ultimately show ?thesis by (simp add: result keeps_def)
qed

lemma keeps_issue_bonus:
  assumes "safe db0 t held db" and "h \<in> set held" and "prize_of h = Some (BONUS amount)"
  shows "keeps (safe db0 t held) (issue_bonus plan (row_key t h) (rr_profileId h) storeId amount now db)
    (\<lambda>db _. granted t db h)"
proof (cases "if cp_sees_existing plan then find (\<lambda>r. gr_idempotencyKey r = row_key t h) (sd_rewards db) else None")
  case None
  then show ?thesis using keeps_create_reward [OF assms] by (simp add: issue_bonus_def)
next
  case (Some g)
  then have "find (\<lambda>r. gr_idempotencyKey r = row_key t h) (sd_rewards db) = Some g"
    by (simp split: if_splits)
  from find_SomeD [OF this] have "g \<in> set (sd_rewards db) \<and> gr_idempotencyKey g = row_key t h" .
  then have "granted t db h" using assms(3) by (auto simp: granted_def)
  then show ?thesis using assms(1) Some by (simp add: issue_bonus_def keeps_def)
qed

lemma wallet_ok_entitlement:
  assumes "wallet_ok db" and "ge_id e = length (sd_entitlements db)"
    and "pi_source item = ENTITLEMENT_ITEM (length (sd_entitlements db))"
  shows "wallet_ok (db\<lparr>sd_entitlements := sd_entitlements db @ [e], sd_wallet := sd_wallet db @ [item]\<rparr>)"
  using assms by (auto simp: wallet_ok_def lessThan_Suc)

lemma has_item_iff:
  assumes "wallet_ok db"
  shows "has_item (ENTITLEMENT_ITEM i) db \<longleftrightarrow> i < length (sd_entitlements db)"
proof -
  have "has_item (ENTITLEMENT_ITEM i) db \<longleftrightarrow> ENTITLEMENT_ITEM i \<in> pi_source ` set (sd_wallet db)"
    unfolding has_item_def by force
  then show ?thesis using assms by (auto simp: wallet_ok_def)
qed

lemma upsert_case_existing:
  assumes "wallet_ok db" and "e \<in> set (sd_entitlements db)" and "ge_idempotencyKey e = key"
  shows "fst (upsert_case key profileId storeId box expiresAt db) = db"
proof -
  obtain e' where e': "find (\<lambda>e. ge_idempotencyKey e = key) (sd_entitlements db) = Some e'"
    using assms(2,3) by (cases "find (\<lambda>e. ge_idempotencyKey e = key) (sd_entitlements db)")
      (auto simp: find_None_iff)
  have "ge_id e' \<in> set (map ge_id (sd_entitlements db))"
    using find_SomeD [OF e'] by simp
  then have "ge_id e' < length (sd_entitlements db)"
    using assms(1) by (simp add: wallet_ok_def del: set_map)
  then show ?thesis
    using has_item_iff [OF assms(1)] by (simp add: upsert_case_def e' Let_def)
qed

lemma keeps_issue_case:
  assumes safe: "safe db0 t held db" and h: "h \<in> set held" and prize: "prize_of h = Some (LOOT_BOX box)"
  shows "keeps (safe db0 t held)
    (issue_case env plan (row_key t h) (rr_profileId h) storeId box now db) (\<lambda>db _. granted t db h)"
proof -
  let ?until = "now + PRIZE_CLAIM_DAYS * 86400000"
  define db' where "db' = fst (upsert_case (row_key t h) (rr_profileId h) storeId box ?until db)"
  have inv: "settle_inv t held db" using safe by (simp add: safe_def)
  then have wallet: "wallet_ok db" by (simp add: settle_inv_def)
  have "safe db0 t held db' \<and> granted t db' h"
  proof (cases "\<exists>e\<in>set (sd_entitlements db). ge_idempotencyKey e = row_key t h")
    case True
    then have "db' = db" using upsert_case_existing [OF wallet] by (auto simp: db'_def)
    then show ?thesis using True safe prize by (auto simp: granted_def)
  next
    case False
    define e where "e = \<lparr>ge_id = length (sd_entitlements db), ge_idempotencyKey = row_key t h,
      ge_profileId = rr_profileId h, ge_storeId = storeId, ge_lootBoxId = box\<rparr>"
    define item where "item = \<lparr>pi_source = ENTITLEMENT_ITEM (length (sd_entitlements db)),
      pi_profileId = rr_profileId h, pi_expiresAt = ?until\<rparr>"
    have none: "find (\<lambda>e. ge_idempotencyKey e = row_key t h) (sd_entitlements db) = None"
      using False by (simp add: find_None_iff)
    moreover have "\<not> has_item (ENTITLEMENT_ITEM (length (sd_entitlements db)))
        (db\<lparr>sd_entitlements := sd_entitlements db @ [e]\<rparr>)"
      using has_item_iff [OF wallet, of "length (sd_entitlements db)"] by (simp add: has_item_def)
    ultimately have db': "db' = db\<lparr>sd_entitlements := sd_entitlements db @ [e], sd_wallet := sd_wallet db @ [item]\<rparr>"
      by (simp add: db'_def upsert_case_def Let_def e_def item_def)
    obtain r where r: "r \<in> set (sd_results db)" "row_key t h = row_key t r" "rr_profileId h = rr_profileId r"
        "prize_of h = prize_of r"
      using held_row [OF inv h] .
    have grants: "grants_ok t db'"
      unfolding grants_ok_def
    proof (intro conjI ballI)
      show "distinct (map ge_idempotencyKey (sd_entitlements db'))"
        using inv False by (auto simp: db' e_def settle_inv_def grants_ok_def)
      fix x assume x: "x \<in> set (sd_entitlements db')"
      show "\<exists>r\<in>set (sd_results db'). ge_idempotencyKey x = row_key t r \<and> ge_profileId x = rr_profileId r \<and>
          prize_of r = Some (LOOT_BOX (ge_lootBoxId x))"
      proof (cases "x = e")
        case True
        then show ?thesis using r prize by (auto simp: db' e_def)
      next
        case False
        then have "x \<in> set (sd_entitlements db)" using x by (simp add: db')
        then show ?thesis using inv by (simp add: db' settle_inv_def grants_ok_def)
      qed
    qed (use inv in \<open>auto simp: db' settle_inv_def grants_ok_def\<close>)
    have wallet': "wallet_ok db'"
      unfolding db' using wallet by (rule wallet_ok_entitlement) (simp_all add: e_def item_def)
    have "settle_inv t held db'"
      by (rule settle_inv_grow [OF inv _ _ _ wallet' grants]) (auto simp: db')
    then have "safe db0 t held db'"
      by (rule safe_step [OF safe]) (simp add: extends_def db')
    moreover have "granted t db' h" by (simp add: granted_def prize db' e_def)
    ultimately show ?thesis by simp
  qed
  then show ?thesis
    using safe by (auto simp: issue_case_def keeps_def db'_def Let_def case_prod_beta)
qed

section \<open>Issuing a row\<close>

lemma mark_fits_intro:
  assumes "safe db0 t held db" and "h \<in> set held" and "st = MANUAL_PRIZE \<and> (\<exists>l. prize_of h = Some (CUSTOM l)) \<or>
    st = PRIZE_ISSUED \<and> granted t db h \<or> st = PRIZE_FAILED"
  shows "mark_fits t db h st"
  using assms by (auto simp: mark_fits_def safe_def settle_inv_def)

lemma keeps_audit_then:
  assumes "safe db0 t held db"
  shows "keeps (safe db0 t held) (then_call (audit outcome i action db) (\<lambda>db _. (db, Inr x))) (\<lambda>_ _. True)"
  by (rule keeps_then [OF keeps_audit [OF assms]]) (simp add: keeps_def)

lemma keeps_then_audit:
  assumes "keeps (safe db0 t held) c (\<lambda>_ _. True)"
  shows "keeps (safe db0 t held)
    (then_call c (\<lambda>db _. then_call (audit outcome i action db) (\<lambda>db _. (db, Inr x)))) (\<lambda>_ _. True)"
  by (rule keeps_then [OF assms keeps_audit_then])

lemma keeps_guard: "(\<not> b \<Longrightarrow> keeps I c Q) \<Longrightarrow> I db \<Longrightarrow> keeps I (if b then (db, Inl e) else c) Q"
  by (simp add: keeps_def)

lemma keeps_try_issue:
  assumes safe: "safe db0 t held db" and h: "h \<in> set held" and env: "se_tenantId env = t"
  shows "keeps (safe db0 t held) (try_issue env plan now h db) (\<lambda>_ _. True)"
proof -
  obtain stored prize where stored: "rr_prize h = Some stored" "sp_prize stored = Some prize"
    and prize: "prize_of h = Some prize"
    using safe h by (fastforce simp: safe_def settle_inv_def prize_of_def split: option.splits)
  have same: "sp_prize stored = prize_of h" by (simp add: stored(2) prize)
  have mark: "keeps (safe db0 t held) (mark_result outcome (rr_id h) st reward stored' now db) (\<lambda>_ _. True)"
    if "safe db0 t held db" "st = MANUAL_PRIZE \<and> (\<exists>l. prize_of h = Some (CUSTOM l)) \<or>
      st = PRIZE_ISSUED \<and> granted t db h \<or> st = PRIZE_FAILED" "sp_prize stored' = prize_of h"
    for outcome st reward stored' db
    using keeps_mark [OF that(1) h mark_fits_intro [OF that(1) h that(2)] that(3)] .
  show ?thesis
  proof (cases prize)
    case (CUSTOM l)
    show ?thesis
      unfolding try_issue_def stored option.case CUSTOM prize.case
      by (rule keeps_then_audit, rule mark) (simp_all add: safe prize CUSTOM same)
  next
    case (BONUS amount)
    have "keeps (safe db0 t held)
        (then_call (issue_bonus plan (row_key t h) (rr_profileId h) (rr_storeId h) amount now db)
          (\<lambda>db rewardId. mark_result (cp_mark plan) (rr_id h) PRIZE_ISSUED (Some rewardId) stored now db))
        (\<lambda>_ _. True)"
      by (rule keeps_then [OF keeps_issue_bonus mark]) (simp_all add: safe h prize BONUS same)
    from keeps_then_audit [OF this] show ?thesis
      unfolding try_issue_def stored option.case BONUS prize.case Let_def env
      by (intro keeps_guard safe)
  next
    case (LOOT_BOX box)
    have "keeps (safe db0 t held)
        (then_call (issue_case env plan (row_key t h) (rr_profileId h)
            (or_else (rr_storeId h) (home_store_id env (rr_profileId h) now)) box now db)
          (\<lambda>db i. mark_result (cp_mark plan) (rr_id h) PRIZE_ISSUED None
            (stored\<lparr>sp_entitlementId := Some i\<rparr>) now db))
        (\<lambda>_ _. True)"
      by (rule keeps_then [OF keeps_issue_case mark]) (simp_all add: safe h prize LOOT_BOX same)
    from keeps_then_audit [OF this] show ?thesis
      unfolding try_issue_def stored option.case LOOT_BOX prize.case Let_def env
      by (intro keeps_guard safe)
  qed
qed

lemma safe_issue_row:
  assumes safe: "safe db0 t held db" and h: "h \<in> set held" and env: "se_tenantId env = t"
  shows "safe db0 t held (fst (issue_row env plan now h res db))"
proof -
  obtain db' r where attempt: "try_issue env plan now h db = (db', r)"
    by (cases "try_issue env plan now h db")
  then have safe': "safe db0 t held db'"
    using keeps_try_issue [OF assms, of plan now] by (simp add: keeps_def)
  have "sp_prize (failed_prize h e) = prize_of h" for e
    by (auto simp: failed_prize_def prize_of_def split: option.splits)
  then have failed: "keeps (safe db0 t held)
      (then_call (mark_result (cp_mark_failed plan) (rr_id h) PRIZE_FAILED None (failed_prize h e) now db')
        (\<lambda>db _. then_call (audit a (rr_id h) LEADERBOARD_PRIZE_FAILED db) (\<lambda>db _. (db, Inr x)))) (\<lambda>_ _. True)" for e a x
    using keeps_mark [OF safe' h mark_fits_intro [OF safe' h]] by (intro keeps_then_audit) blast
  show ?thesis
  proof (cases r)
    case (Inl e)
    show ?thesis using failed by (simp add: issue_row_def attempt Inl keeps_def)
  next
    case (Inr manual)
    show ?thesis using safe' by (cases manual) (simp_all add: issue_row_def attempt Inr)
  qed
qed

section \<open>Freezing a board\<close>

lemma period_key_clean: "clean (period_key p)"
  using show_int_no_colon [of "lp_year p"] pad_start_no_colon [OF show_int_no_colon [of "lp_month p"], of 2]
  by (auto simp: clean_def period_key_def)

lemma standing_clean:
  assumes "clean_env env" and "s \<in> set (standings_of ci (se_activity env) storeId b config start finish)"
  shows "clean (st_profileId s)"
proof -
  obtain row where "row \<in> set (se_activity env start finish)" "ar_profileId row = st_profileId s"
    using ranked_in_contenders [OF assms(2)] by (auto simp: contenders_def counts_for_def)
  then show ?thesis using assms(1) unfolding clean_env_def by metis
qed

lemma result_of_simps:
  "row_ident (result_of config k sc storeId b now i s) = (k, sc, b, st_profileId s)"
  "rr_id (result_of config k sc storeId b now i s) = i"
  "status_ok (result_of config k sc storeId b now i s)"
  "rr_status (result_of config k sc storeId b now i s) \<noteq> PRIZE_ISSUED"
  "clean_row (result_of config k sc storeId b now i s) \<longleftrightarrow> clean k \<and> clean sc \<and> clean (st_profileId s)"
  by (auto simp: result_of_def Let_def row_ident_def status_ok_def prize_of_def clean_row_def split: option.split)

lemma create_results_ok:
  assumes "rows_ok rows" and "clean k" and "clean sc" and "\<forall>s\<in>set best. clean (st_profileId s)"
  shows "rows_ok (create_results config k sc storeId b now best rows) \<and>
    (\<exists>new. create_results config k sc storeId b now best rows = rows @ new \<and>
       (\<forall>r\<in>set new. status_ok r \<and> rr_status r \<noteq> PRIZE_ISSUED))"
  using assms
proof (induction best arbitrary: rows)
  case (Cons s best)
  define rows' where "rows' =
    (if \<exists>r\<in>set rows. same_board k sc b r \<and> rr_profileId r = st_profileId s then rows
     else rows @ [result_of config k sc storeId b now (length rows) s])"
  have "(k, sc, b, st_profileId s) \<notin> row_ident ` set rows"
    if "\<not> (\<exists>r\<in>set rows. same_board k sc b r \<and> rr_profileId r = st_profileId s)"
    using that by (auto simp: row_ident_def same_board_def)
  then have "rows_ok rows'" and "\<exists>new. rows' = rows @ new \<and> (\<forall>r\<in>set new. status_ok r \<and> rr_status r \<noteq> PRIZE_ISSUED)"
    using Cons.prems by (auto simp: rows'_def rows_ok_def result_of_simps)
  moreover have "create_results config k sc storeId b now (s # best) rows =
      create_results config k sc storeId b now best rows'"
    by (simp add: rows'_def)
  ultimately show ?case
    using Cons.IH [of rows'] Cons.prems(2-4) by fastforce
qed simp

lemma freeze_board_appends:
  assumes "rows_ok (sd_results db)" and "clean_env env" and "clean sc"
  shows "\<exists>new. fst (freeze_board env config period sc storeId now b (db, res)) =
      db\<lparr>sd_results := sd_results db @ new\<rparr> \<and> rows_ok (sd_results db @ new) \<and>
      (\<forall>r\<in>set new. status_ok r \<and> rr_status r \<noteq> PRIZE_ISSUED)"
proof -
  define best where "best = filter (\<lambda>s. st_rank s \<le> int LEADERBOARD_RESULT_SIZE)
    (standings_of (se_compare_ids env) (se_activity env) storeId b config (lp_from period) (lp_to period))"
  have "\<forall>s\<in>set best. clean (st_profileId s)"
    using standing_clean [OF assms(2)] by (auto simp: best_def)
  from create_results_ok [OF assms(1) period_key_clean assms(3) this] obtain new
    where new: "create_results config (period_key period) sc storeId b now best (sd_results db) =
        sd_results db @ new" and ok: "\<forall>r\<in>set new. status_ok r \<and> rr_status r \<noteq> PRIZE_ISSUED"
      and rows: "rows_ok (create_results config (period_key period) sc storeId b now best (sd_results db))"
    by metis
  have "fst (freeze_board env config period sc storeId now b (db, res)) \<in>
      {db, db\<lparr>sd_results := create_results config (period_key period) sc storeId b now best (sd_results db)\<rparr>}"
    by (simp add: freeze_board_def Let_def best_def)
  then show ?thesis
  proof
    assume "fst (freeze_board env config period sc storeId now b (db, res)) = db"
    then show ?thesis using assms(1) by (intro exI [of _ "[]"]) simp
  next
    assume "fst (freeze_board env config period sc storeId now b (db, res)) \<in>
      {db\<lparr>sd_results := create_results config (period_key period) sc storeId b now best (sd_results db)\<rparr>}"
    then show ?thesis using ok rows by (intro exI [of _ new]) (simp add: new)
  qed
qed

lemma settle_inv_freeze:
  assumes inv: "settle_inv t held db" and env: "clean_env env" and sc: "clean sc"
  shows "settle_inv t held (fst (freeze_board env config period sc storeId now b (db, res)))"
proof -
  have "rows_ok (sd_results db)" using inv by (simp add: settle_inv_def)
  then obtain new where new: "fst (freeze_board env config period sc storeId now b (db, res)) =
      db\<lparr>sd_results := sd_results db @ new\<rparr>" "rows_ok (sd_results db @ new)"
      "\<forall>r\<in>set new. status_ok r \<and> rr_status r \<noteq> PRIZE_ISSUED"
    using freeze_board_appends [OF _ env sc] by blast
  have "granted t (db\<lparr>sd_results := rows\<rparr>) r" if "granted t db r" for rows r
    using granted_mono [OF that] by simp
  then show ?thesis
    using inv new by (auto simp: settle_inv_def wallet_ok_def grants_ok_def)
qed

lemma settle_inv_picked:
  assumes "settle_inv t held db"
  shows "settle_inv t (pending_batch db @ held) db"
proof -
  have "set (pending_batch db) \<subseteq> set (pending_rows db)"
    unfolding pending_batch_def using set_take_subset [of PRIZE_BATCH "js_sort compare_pending (pending_rows db)"]
    by simp
  then have "\<forall>h\<in>set (pending_batch db). h \<in> set (sd_results db) \<and> rr_status h = PRIZE_PENDING"
    by (auto simp: pending_rows_def)
  then show ?thesis using assms by (fastforce simp: settle_inv_def status_ok_def)
qed

lemma safe_step_of_system:
  assumes "settlement_step t (db, held) (db', held')" and "settle_inv t held db"
  shows "settle_inv t held' db' \<and> extends db db'"
  using assms(1)
proof cases
  case (freezes env scopeKey config period storeId now b res)
  have "rows_ok (sd_results db)" using assms(2) by (simp add: settle_inv_def)
  then have "extends db db'"
    using freeze_board_appends [OF _ freezes(3,4), of db config period storeId now b res] freezes(1)
    by (auto simp: extends_def)
  then show ?thesis using freezes settle_inv_freeze [OF assms(2)] by simp
next
  case picks
  then show ?thesis using settle_inv_picked [OF assms(2)] by simp
next
  case (issues row env plan now res)
  have "safe db t held db" using assms(2) by (simp add: safe_def)
  from safe_issue_row [OF this] show ?thesis using issues by (simp add: safe_def)
qed

lemma steps_of_system:
  assumes "settlement_steps t (db, held) (db', held')" and "settle_inv t held db"
  shows "settle_inv t held' db' \<and> extends db db'"
  using assms(1)
proof (induction rule: rtranclp_induct2)
  case refl
  show ?case using assms(2) by simp
next
  case (step db1 held1 db2 held2)
  then show ?case using safe_step_of_system extends_trans by blast
qed

lemma settle_inv_start: "settle_inv t [] empty_db"
  by (simp add: settle_inv_def empty_db_def rows_ok_def wallet_ok_def grants_ok_def)

lemma settlement_invariant: "settlement_reachable t (db, held) \<Longrightarrow> settle_inv t held db"
  using steps_of_system settle_inv_start unfolding settlement_reachable_def by blast

section \<open>A run of the service is a run of the system\<close>

lemma fold_steps:
  assumes "\<And>x s. x \<in> set xs \<Longrightarrow> settlement_steps t (fst s, held) (fst (f x s), held)"
  shows "settlement_steps t (fst s, held) (fst (fold f xs s), held)"
  using assms
proof (induction xs arbitrary: s)
  case (Cons x xs)
  have "settlement_steps t (fst s, held) (fst (f x s), held)" using Cons.prems by simp
  also have "settlement_steps t (fst (f x s), held) (fst (fold f xs (f x s)), held)"
    using Cons.prems by (intro Cons.IH) simp
  finally show ?case by simp
qed simp

lemma freeze_due_months_steps:
  assumes "clean_env env"
  shows "settlement_steps t (fst s, held) (fst (freeze_due_months env config created now s), held)"
  unfolding freeze_due_months_def
proof (rule fold_steps)
  fix scope s assume scope: "scope \<in> set (freeze_scopes env config)"
  obtain sc st where sc: "scope = (sc, st)" by (cases scope)
  have "clean sc"
    using scope assms unfolding sc freeze_scopes_def
    by (auto simp: clean_env_def clean_def LEADERBOARD_NETWORK_SCOPE_KEY_def split: if_splits)
  then have "settlement_steps t (fst s, held)
      (fst (freeze_board env config period sc (map_option store_id st) now b s), held)" for period b s
    using freezes [OF assms, of sc t "fst s" held config period "map_option store_id st" now b "snd s"] by auto
  then show "settlement_steps t (fst s, held) (fst (freeze_scope env config created now scope s), held)"
    unfolding freeze_scope_def sc Let_def by (auto intro: fold_steps)
qed

lemma issue_rows_steps:
  assumes "set rows \<subseteq> set held" and "se_tenantId env = t"
  shows "settlement_steps t (db, held) (fst (issue_rows env plans now rows res db), held)"
  using assms(1)
proof (induction rows arbitrary: res db)
  case (Cons row rows)
  have first: "settlement_steps t (db, held) (fst (issue_row env (plans (rr_id row)) now row res db), held)"
    using issues [OF _ assms(2), of row held] Cons.prems by auto
  obtain db' r where issue: "issue_row env (plans (rr_id row)) now row res db = (db', r)"
    by (cases "issue_row env (plans (rr_id row)) now row res db")
  show ?case
  proof (cases r)
    case (Inl e)
    then show ?thesis using first by (simp add: issue)
  next
    case (Inr res')
    then show ?thesis
      using first Cons.IH [of db' res'] Cons.prems by (simp add: issue)
  qed
qed simp

lemma settle_tenant_steps:
  assumes "clean_env env" and "se_tenantId env = t"
  shows "\<exists>held'. settlement_steps t (db, held) (fst (settle_tenant env plans now db), held')"
proof -
  have issue: "\<exists>held'. settlement_steps t (db, held) (fst (issue_pending_prizes env plans now res db), held')" for db res
  proof -
    have "settlement_step t (db, held) (db, pending_batch db @ held)" by (rule picks)
    also have "settlement_steps t (db, pending_batch db @ held)
        (fst (issue_pending_prizes env plans now res db), pending_batch db @ held)"
      unfolding issue_pending_prizes_def using assms(2) by (intro issue_rows_steps) auto
    finally show ?thesis by blast
  qed
  show ?thesis
  proof (cases "se_settings env")
    case None
    then show ?thesis by (auto simp: settle_tenant_def)
  next
    case (Some row)
    show ?thesis
    proof (cases "normalize_leaderboard_config None (sr_config row)")
      case (Inl e)
      then show ?thesis using Some by (auto simp: settle_tenant_def)
    next
      case (Inr config)
      define s where "s = (if sr_enabled row then freeze_due_months env config (sr_createdAt row) now (db, no_result)
        else (db, no_result))"
      have "settlement_steps t (db, held) (fst s, held)"
        using freeze_due_months_steps [OF assms(1), of t "(db, no_result)"] by (auto simp: s_def)
      moreover obtain held' where "settlement_steps t (fst s, held)
          (fst (issue_pending_prizes env plans now (snd s) (fst s)), held')"
        using issue by blast
      moreover have "settle_tenant env plans now db = issue_pending_prizes env plans now (snd s) (fst s)"
        by (simp add: settle_tenant_def Some Inr s_def case_prod_beta Let_def)
      ultimately show ?thesis by (metis rtranclp_trans)
    qed
  qed
qed

end
