(* ===== verification/Leaderboard_Guarantees.thy ===== *)
theory Leaderboard_Guarantees
  imports Leaderboard_Payout
begin

text \<open>
  The guarantees of the settlement of the leaderboard over \<open>Leaderboard_Payout\<close>: prizes are granted
  exactly once, what was frozen or granted stays, and every run works off its batch of pending results.
  The last section shows a weak spot of the code: an error after the commit of a prize leaves it
  recorded as failed although it was granted.
\<close>

section \<open>The grants of a result\<close>

definition bonuses_of :: "string \<Rightarrow> settle_db \<Rightarrow> result_row \<Rightarrow> reward_row list" where
  "bonuses_of t db r = filter (\<lambda>g. gr_idempotencyKey g = row_key t r) (sd_rewards db)"

definition cases_of :: "string \<Rightarrow> settle_db \<Rightarrow> result_row \<Rightarrow> entitlement_row list" where
  "cases_of t db r = filter (\<lambda>e. ge_idempotencyKey e = row_key t r) (sd_entitlements db)"

lemma same_key_row:
  assumes "settle_inv t held db" and "clean t" and "r \<in> set (sd_results db)" and "r' \<in> set (sd_results db)"
    and "row_key t r = row_key t r'"
  shows "r = r'"
proof -
  have rows: "rows_ok (sd_results db)" using assms(1) by (simp add: settle_inv_def)
  then have "row_ident r = row_ident r'"
    using row_key_inject [OF assms(2), of r r'] assms(3-5) by (simp add: rows_ok_def)
  moreover have "distinct (map row_ident (sd_results db))" using rows by (simp add: rows_ok_def)
  ultimately show ?thesis using assms(3,4) by (intro distinct_map_eq [of row_ident])
qed

lemma bonus_of_row:
  assumes "settle_inv t held db" and "clean t" and "r \<in> set (sd_results db)" and "g \<in> set (bonuses_of t db r)"
  shows "gr_profileId g = rr_profileId r \<and> prize_of r = Some (BONUS (gr_amount g))"
proof -
  have "g \<in> set (sd_rewards db)" and key: "gr_idempotencyKey g = row_key t r"
    using assms(4) by (simp_all add: bonuses_of_def)
  then obtain r' where "r' \<in> set (sd_results db)" "row_key t r = row_key t r'" "gr_profileId g = rr_profileId r'"
      "prize_of r' = Some (BONUS (gr_amount g))"
    using assms(1) unfolding settle_inv_def grants_ok_def by force
  with same_key_row [OF assms(1-3)] show ?thesis by blast
qed

lemma case_of_row:
  assumes "settle_inv t held db" and "clean t" and "r \<in> set (sd_results db)" and "e \<in> set (cases_of t db r)"
  shows "ge_profileId e = rr_profileId r \<and> prize_of r = Some (LOOT_BOX (ge_lootBoxId e))"
proof -
  have "e \<in> set (sd_entitlements db)" and key: "ge_idempotencyKey e = row_key t r"
    using assms(4) by (simp_all add: cases_of_def)
  then obtain r' where "r' \<in> set (sd_results db)" "row_key t r = row_key t r'" "ge_profileId e = rr_profileId r'"
      "prize_of r' = Some (LOOT_BOX (ge_lootBoxId e))"
    using assms(1) unfolding settle_inv_def grants_ok_def by force
  with same_key_row [OF assms(1-3)] show ?thesis by blast
qed

lemma at_most_one_grant:
  assumes "settle_inv t held db" and "clean t" and "r \<in> set (sd_results db)"
  shows "length (bonuses_of t db r) + length (cases_of t db r) \<le> 1"
proof -
  have "length (bonuses_of t db r) \<le> 1" and "length (cases_of t db r) \<le> 1"
    using assms(1) unfolding bonuses_of_def cases_of_def settle_inv_def grants_ok_def
    by (blast intro: filter_key_le_1)+
  moreover have "bonuses_of t db r = [] \<or> cases_of t db r = []"
  proof (rule ccontr)
    assume "\<not> (bonuses_of t db r = [] \<or> cases_of t db r = [])"
    then have "hd (bonuses_of t db r) \<in> set (bonuses_of t db r)" "hd (cases_of t db r) \<in> set (cases_of t db r)"
      by simp_all
    with bonus_of_row [OF assms] case_of_row [OF assms] show False by fastforce
  qed
  ultimately show ?thesis by auto
qed

lemma granted_iff:
  assumes "settle_inv t held db" and "clean t" and "r \<in> set (sd_results db)"
  shows "granted t db r \<longleftrightarrow> bonuses_of t db r \<noteq> [] \<or> cases_of t db r \<noteq> []"
proof
  assume "granted t db r"
  then show "bonuses_of t db r \<noteq> [] \<or> cases_of t db r \<noteq> []"
    by (auto simp: granted_def bonuses_of_def cases_of_def filter_empty_conv split: option.splits prize.splits)
next
  assume "bonuses_of t db r \<noteq> [] \<or> cases_of t db r \<noteq> []"
  then show "granted t db r"
  proof
    assume "bonuses_of t db r \<noteq> []"
    then have g: "hd (bonuses_of t db r) \<in> set (bonuses_of t db r)" by simp
    then show ?thesis using bonus_of_row [OF assms g] by (auto simp: granted_def bonuses_of_def)
  next
    assume "cases_of t db r \<noteq> []"
    then have e: "hd (cases_of t db r) \<in> set (cases_of t db r)" by simp
    then show ?thesis using case_of_row [OF assms e] by (auto simp: granted_def cases_of_def)
  qed
qed

lemma no_grant_without_prize:
  assumes "settle_inv t held db" and "clean t" and "r \<in> set (sd_results db)"
    and "rr_status r \<in> {RECORDED, MANUAL_PRIZE}"
  shows "\<not> granted t db r"
proof -
  have "status_ok r" using assms(1,3) by (simp add: settle_inv_def)
  then have "prize_of r = None \<or> (\<exists>l. prize_of r = Some (CUSTOM l))"
    using assms(4) by (auto simp: status_ok_def)
  then show ?thesis by (auto simp: granted_def)
qed


text \<open>
  C28: What was frozen or granted stays. Whatever the settlement does from a state it has reached, the
  frozen results keep their period, club, board, place, profile, value and prize, in the same order,
  with new results only behind them; and no reward and no right to a case is withdrawn or changed. A
  whole run of the service, with any outcome of its calls, is such a sequence of steps.
\<close>

theorem frozen_results_stay:
  assumes "settlement_reachable tenantId (db, held)"
    and "settlement_steps tenantId (db, held) (db1, held1)"
    and "clean_env env" and "se_tenantId env = tenantId"
    and "db' = fst (settle_tenant env plans now db1)"
  shows "take (length (sd_results db)) (map frozen_part (sd_results db')) = map frozen_part (sd_results db) \<and>
    take (length (sd_rewards db)) (sd_rewards db') = sd_rewards db \<and>
    take (length (sd_entitlements db)) (sd_entitlements db') = sd_entitlements db"
proof -
  obtain held' where "settlement_steps tenantId (db1, held1) (db', held')"
    using settle_tenant_steps [OF assms(3,4)] assms(5) by blast
  with assms(2) have "settlement_steps tenantId (db, held) (db', held')"
    by (rule rtranclp_trans)
  then have "extends db db'"
    using steps_of_system settlement_invariant [OF assms(1)] by blast
  then show ?thesis by (auto simp: extends_def)
qed

section \<open>Working off the pending results\<close>

text \<open>What happened to the result with one id since \<open>db0\<close>; \<open>settled\<close>: it is no longer pending.\<close>

definition touched :: "settle_db \<Rightarrow> nat \<Rightarrow> bool \<Rightarrow> settle_db \<Rightarrow> bool" where
  "touched db0 i settled db \<longleftrightarrow>
     (\<exists>f. sd_results db = map (\<lambda>r. if rr_id r = i then f r else r) (sd_results db0) \<and>
        (\<forall>r. rr_id (f r) = rr_id r) \<and> (settled \<longrightarrow> (\<forall>r. rr_status (f r) \<noteq> PRIZE_PENDING)))"

lemma touched_start: "touched db i False db"
  unfolding touched_def by (intro exI [of _ id]) (simp add: map_idI)

lemma touched_same: "touched db0 i d db \<Longrightarrow> sd_results db' = sd_results db \<Longrightarrow> touched db0 i d db'"
  by (simp add: touched_def)

lemma touched_mark:
  assumes "touched db0 i d db" and "st \<noteq> PRIZE_PENDING"
  shows "touched db0 i True (set_result i st reward stored now db)"
proof -
  obtain f where f: "sd_results db = map (\<lambda>r. if rr_id r = i then f r else r) (sd_results db0)"
      "\<forall>r. rr_id (f r) = rr_id r"
    using assms(1) by (auto simp: touched_def)
  let ?g = "\<lambda>r. (f r)\<lparr>rr_status := st, rr_rewardId := reward, rr_prize := Some stored,
    rr_issuedAt := (if st = PRIZE_ISSUED then Some now else None)\<rparr>"
  have "sd_results (set_result i st reward stored now db) =
      map (\<lambda>r. if rr_id r = i then ?g r else r) (sd_results db0)"
    using f(2) by (auto simp: set_result_def f(1))
  then show ?thesis
    unfolding touched_def using assms(2) f(2) by (intro exI [of _ ?g]) simp
qed

lemma touched_True: "touched db0 i True db \<Longrightarrow> touched db0 i d db"
  by (auto simp: touched_def)

lemma touched_keeps_mark:
  assumes "touched db0 i False db" and "st \<noteq> PRIZE_PENDING"
  shows "keeps (touched db0 i False) (mark_result outcome i st reward stored now db) (\<lambda>db _. touched db0 i True db)"
  using touched_mark [OF assms] assms(1) touched_True
  by (cases outcome) (auto simp: mark_result_def write_call_def keeps_def)

lemma touched_keeps_audit:
  assumes "touched db0 i True db"
  shows "keeps (touched db0 i False) (then_call (audit outcome j action db) (\<lambda>db _. (db, Inr x)))
    (\<lambda>db _. touched db0 i True db)"
proof -
  have "touched db0 i d (db\<lparr>sd_audits := sd_audits db @ [(j, action)]\<rparr>)" for d
    using touched_True [OF assms] by (rule touched_same) simp
  then show ?thesis
    using touched_True [OF assms] by (cases outcome) (simp_all add: audit_def write_call_def keeps_def)
qed

lemma touched_keeps_grant:
  assumes "touched db0 i False db"
  shows "keeps (touched db0 i False) (issue_bonus plan key p storeId amount now db) (\<lambda>_ _. True)"
    and "keeps (touched db0 i False) (issue_case env plan key p storeId box now db) (\<lambda>_ _. True)"
  using touched_same [OF assms] assms
  by (auto simp: keeps_def issue_bonus_def create_reward_def issue_case_def upsert_case_def Let_def
      split: option.splits)

lemma touched_try_issue:
  "keeps (touched db (rr_id row) False) (try_issue env plan now row db) (\<lambda>db' _. touched db (rr_id row) True db')"
proof (cases "prize_of row")
  case None
  then show ?thesis
    using touched_start by (auto simp: try_issue_def prize_of_def keeps_def split: option.splits)
next
  case (Some prize)
  then obtain stored where stored: "rr_prize row = Some stored" "sp_prize stored = Some prize"
    by (auto simp: prize_of_def split: option.splits)
  show ?thesis
  proof (cases prize)
    case (CUSTOM l)
    show ?thesis
      unfolding try_issue_def stored option.case CUSTOM prize.case
      by (rule keeps_then [OF touched_keeps_mark touched_keeps_audit]) (simp_all add: touched_start)
  next
    case (BONUS amount)
    show ?thesis
      unfolding try_issue_def stored option.case BONUS prize.case Let_def
      by (intro keeps_guard touched_start)
        (rule keeps_then [OF keeps_then [OF touched_keeps_grant(1) touched_keeps_mark] touched_keeps_audit],
          simp_all add: touched_start)
  next
    case (LOOT_BOX box)
    show ?thesis
      unfolding try_issue_def stored option.case LOOT_BOX prize.case Let_def
      by (intro keeps_guard touched_start)
        (rule keeps_then [OF keeps_then [OF touched_keeps_grant(2) touched_keeps_mark] touched_keeps_audit],
          simp_all add: touched_start)
  qed
qed

definition handled :: "settle_result \<Rightarrow> nat" where
  "handled res = rs_prizesIssued res + rs_manualPrizes res + rs_prizesFailed res"

definition records_failures :: "call_plan \<Rightarrow> bool" where
  "records_failures plan \<longleftrightarrow> cp_mark_failed plan = Done \<and> cp_audit_failed plan = Done"

lemma issue_row_settles:
  assumes "records_failures plan"
  shows "\<exists>db' res'. issue_row env plan now row res db = (db', Inr res') \<and> touched db (rr_id row) True db' \<and>
    handled res' = handled res + 1 \<and>
    (rs_prizesFailed res' = rs_prizesFailed res \<or> (\<exists>e. snd (try_issue env plan now row db) = Inl e))"
proof -
  obtain db1 r where attempt: "try_issue env plan now row db = (db1, r)"
    by (cases "try_issue env plan now row db")
  have kept: "touched db (rr_id row) False db1" "\<And>manual. r = Inr manual \<Longrightarrow> touched db (rr_id row) True db1"
    using touched_try_issue [of db row env plan now] by (simp_all add: attempt keeps_def)
  show ?thesis
  proof (cases r)
    case (Inl e)
    define db2 where "db2 = set_result (rr_id row) PRIZE_FAILED None (failed_prize row e) now db1"
    have "touched db (rr_id row) True db2"
      unfolding db2_def using kept by (intro touched_mark [of _ _ False]) simp_all
    then have "touched db (rr_id row) True (db2\<lparr>sd_audits := sd_audits db2 @ [(rr_id row, LEADERBOARD_PRIZE_FAILED)]\<rparr>)"
      by (rule touched_same) simp
    then show ?thesis
      using assms
      by (simp add: issue_row_def attempt Inl mark_result_def audit_def write_call_def records_failures_def
          db2_def handled_def)
  next
    case (Inr manual)
    then show ?thesis
      using kept by (cases manual) (simp_all add: issue_row_def attempt handled_def)
  qed
qed

lemma touched_pending:
  assumes "touched db i True db'"
  shows "pending_rows db' = filter (\<lambda>r. rr_id r \<noteq> i) (pending_rows db)"
proof -
  obtain f where f: "sd_results db' = map (\<lambda>r. if rr_id r = i then f r else r) (sd_results db)"
      "\<forall>r. rr_status (f r) \<noteq> PRIZE_PENDING"
    using assms by (auto simp: touched_def)
  have "filter (\<lambda>r. rr_status r = PRIZE_PENDING) (map (\<lambda>r. if rr_id r = i then f r else r) rows) =
      filter (\<lambda>r. rr_id r \<noteq> i) (filter (\<lambda>r. rr_status r = PRIZE_PENDING) rows)" for rows
    using f(2) by (induction rows) auto
  then show ?thesis by (simp add: pending_rows_def f(1))
qed

text \<open>What it takes to issue a prize: an actor, an active profile, an active case.\<close>

definition issuable :: "settle_env \<Rightarrow> result_row \<Rightarrow> bool" where
  "issuable env r \<longleftrightarrow>
     (case prize_of r of
        None \<Rightarrow> False
      | Some (CUSTOM l) \<Rightarrow> True
      | Some (BONUS n) \<Rightarrow> settlement_actor env \<noteq> None \<and> profile_is_active env (rr_profileId r)
      | Some (LOOT_BOX i) \<Rightarrow> settlement_actor env \<noteq> None \<and> profile_is_active env (rr_profileId r) \<and>
          (\<exists>b\<in>set (se_boxes env). lb_id b = i \<and> lb_status b = ''ACTIVE''))"

lemma smooth_issue_bonus: "\<exists>db' i. issue_bonus smooth key p storeId amount now db = (db', Inr i)"
  by (auto simp: issue_bonus_def smooth_def create_reward_def Let_def find_None_iff split: option.split)

lemma smooth_issue_case:
  "\<exists>b\<in>set (se_boxes env). lb_id b = box \<and> lb_status b = ''ACTIVE'' \<Longrightarrow>
   \<exists>db' i. issue_case env smooth key p storeId box now db = (db', Inr i)"
  by (auto simp: issue_case_def smooth_def case_prod_beta)

lemma smooth_try:
  assumes "issuable env row"
  shows "\<exists>m. snd (try_issue env smooth now row db) = Inr m"
proof -
  obtain prize stored where stored: "rr_prize row = Some stored" "sp_prize stored = Some prize" "prize_of row = Some prize"
    using assms by (auto simp: issuable_def prize_of_def split: option.splits)
  have smooth: "cp_mark smooth = Done" "cp_audit smooth = Done" "cp_profile smooth"
    by (simp_all add: smooth_def)
  note calls = mark_result_def audit_def write_call_def smooth
  show ?thesis
  proof (cases prize)
    case (CUSTOM l)
    then show ?thesis by (simp add: try_issue_def stored calls) blast
  next
    case (BONUS amount)
    obtain db' i where "issue_bonus smooth (row_key (se_tenantId env) row) (rr_profileId row) (rr_storeId row)
        amount now db = (db', Inr i)"
      using smooth_issue_bonus by blast
    then show ?thesis
      using assms by (simp add: try_issue_def stored BONUS calls Let_def issuable_def) blast
  next
    case (LOOT_BOX box)
    then have box: "\<exists>b\<in>set (se_boxes env). lb_id b = box \<and> lb_status b = ''ACTIVE''"
      using assms by (simp add: issuable_def stored)
    obtain db' i where "issue_case env smooth (row_key (se_tenantId env) row) (rr_profileId row)
        (or_else (rr_storeId row) (home_store_id env (rr_profileId row) now)) box now db = (db', Inr i)"
      using smooth_issue_case [OF box] by blast
    then show ?thesis
      using assms by (simp add: try_issue_def stored LOOT_BOX calls Let_def issuable_def) blast
  qed
qed

lemma issue_rows_settles:
  assumes "\<And>i. records_failures (plans i)"
  shows "\<exists>db' res'. issue_rows env plans now rows res db = (db', Inr res') \<and>
    pending_rows db' = filter (\<lambda>r. rr_id r \<notin> rr_id ` set rows) (pending_rows db) \<and>
    handled res' = handled res + length rows \<and>
    ((\<forall>row\<in>set rows. plans (rr_id row) = smooth \<and> issuable env row) \<longrightarrow>
       rs_prizesFailed res' = rs_prizesFailed res)"
proof (induction rows arbitrary: res db)
  case (Cons row rows)
  obtain db1 res1 where first: "issue_row env (plans (rr_id row)) now row res db = (db1, Inr res1)"
      "touched db (rr_id row) True db1" "handled res1 = handled res + 1"
      "rs_prizesFailed res1 = rs_prizesFailed res \<or>
        (\<exists>e. snd (try_issue env (plans (rr_id row)) now row db) = Inl e)"
    using issue_row_settles [OF assms] by blast
  obtain db2 res2 where rest: "issue_rows env plans now rows res1 db1 = (db2, Inr res2)"
      "pending_rows db2 = filter (\<lambda>r. rr_id r \<notin> rr_id ` set rows) (pending_rows db1)"
      "handled res2 = handled res1 + length rows"
      "(\<forall>row\<in>set rows. plans (rr_id row) = smooth \<and> issuable env row) \<longrightarrow>
         rs_prizesFailed res2 = rs_prizesFailed res1"
    using Cons.IH by blast
  have "rs_prizesFailed res1 = rs_prizesFailed res" if "plans (rr_id row) = smooth" "issuable env row"
    using first(4) smooth_try [OF that(2), of now db] that(1) by auto
  have "pending_rows db2 = filter (\<lambda>r. rr_id r \<notin> rr_id ` set (row # rows)) (pending_rows db)"
    unfolding rest(2) touched_pending [OF first(2)] filter_filter by (rule filter_cong) auto
  moreover note \<open>_ \<Longrightarrow> _ \<Longrightarrow> rs_prizesFailed res1 = _\<close>
  ultimately show ?case using first(1,3) rest(1,3,4) by simp
qed simp

lemma pending_after_batch:
  assumes "distinct (map rr_id (sd_results db))"
  shows "length (filter (\<lambda>r. rr_id r \<notin> rr_id ` set (pending_batch db)) (pending_rows db)) =
    length (pending_rows db) - PRIZE_BATCH"
    and "length (pending_batch db) = min PRIZE_BATCH (length (pending_rows db))"
    and "set (pending_batch db) \<subseteq> set (pending_rows db)"
proof -
  define xs where "xs = js_sort compare_pending (pending_rows db)"
  have same: "mset xs = mset (pending_rows db)" by (simp add: xs_def)
  then have len: "length xs = length (pending_rows db)" by (rule mset_eq_length)
  have "distinct (map rr_id (pending_rows db))"
    using assms by (simp add: pending_rows_def distinct_map_filter)
  then have "distinct (map rr_id xs)"
    using same by (metis mset_eq_imp_distinct_iff mset_map)
  then have ids: "distinct (map rr_id (take PRIZE_BATCH xs @ drop PRIZE_BATCH xs))" by simp
  have "filter (\<lambda>r. rr_id r \<notin> rr_id ` set (take PRIZE_BATCH xs)) (take PRIZE_BATCH xs @ drop PRIZE_BATCH xs) =
      drop PRIZE_BATCH xs"
    using ids unfolding map_append distinct_append filter_append by (auto simp: filter_id_conv filter_empty_conv)
  then have "length (filter (\<lambda>r. rr_id r \<notin> rr_id ` set (take PRIZE_BATCH xs)) xs) = length xs - PRIZE_BATCH"
    by simp
  moreover have "length (filter P xs) = length (filter P (pending_rows db))" for P
    using same by (metis mset_filter size_mset)
  ultimately show "length (filter (\<lambda>r. rr_id r \<notin> rr_id ` set (pending_batch db)) (pending_rows db)) =
      length (pending_rows db) - PRIZE_BATCH"
    by (simp add: pending_batch_def xs_def [symmetric] len)
  show "length (pending_batch db) = min PRIZE_BATCH (length (pending_rows db))"
    by (simp add: pending_batch_def xs_def [symmetric] len)
  show "set (pending_batch db) \<subseteq> set (pending_rows db)"
    using set_take_subset [of PRIZE_BATCH xs] by (simp add: pending_batch_def xs_def)
qed


section \<open>A run\<close>

text \<open>A network with a bonus for its first place and a mug for its second.\<close>

definition sample_env :: settle_env where
  "sample_env =
     \<lparr>se_tenantId = ''t'', se_zdb = moscow_db, se_compare_names = code_unit_compare,
      se_compare_ids = code_unit_compare, se_settings = Some sample_stored, se_stores = sample_stores,
      se_activity = (\<lambda>_ _. sample_activity),
      se_profiles = map (\<lambda>p. \<lparr>gp_id = p, gp_tenantId = ''t'', gp_guestId = None, gp_status = ''ACTIVE'',
        gp_isStaffTest = False, gp_gameActivatedAt = Some 0\<rparr>) [''a'', ''b'', ''c''],
      se_boxes = [], se_users = [\<lparr>su_role = OWNER, su_isActive = True, su_network = True\<rparr>]\<rparr>"

definition sample_config :: leaderboard_config where
  "sample_config = default_leaderboard_config
     \<lparr>lc_prizes := [(''network'', [(POINTS, [Some (BONUS 500), Some (CUSTOM ''mug''), None])])]\<rparr>"

definition sample_period :: period where
  "sample_period =
     \<lparr>lp_year = 2026, lp_month = 8, lp_zone = ''UTC'', lp_from = 0, lp_to = 1, lp_resultsMonth = 9,
      lp_daysLeft = 0, lp_progress = 1\<rparr>"

definition sample_frozen :: settle_db where
  "sample_frozen =
     fst (freeze_board sample_env sample_config sample_period ''network'' None 0 POINTS (empty_db, no_result))"

definition sample_run :: "call_plan \<Rightarrow> settle_db" where
  "sample_run plan = fst (issue_pending_prizes sample_env (\<lambda>_. plan) 0 no_result sample_frozen)"

lemma sample_env_clean: "clean_env sample_env" "se_tenantId sample_env = ''t''" "clean ''t''"
  by (auto simp: clean_env_def sample_env_def sample_stores_def sample_activity_def clean_def)

lemma sample_reachable: "\<exists>held. settlement_reachable ''t'' (sample_run plan, held)"
proof -
  have "clean ''network''" by (simp add: clean_def)
  then have "settlement_steps ''t'' (empty_db, []) (sample_frozen, [])"
    unfolding sample_frozen_def using freezes sample_env_clean(1) by blast
  also have "settlement_step ''t'' (sample_frozen, []) (sample_frozen, pending_batch sample_frozen @ [])"
    by (rule picks)
  also have "settlement_steps ''t'' (sample_frozen, pending_batch sample_frozen @ [])
      (sample_run plan, pending_batch sample_frozen @ [])"
    unfolding sample_run_def issue_pending_prizes_def
    using sample_env_clean(2) by (intro issue_rows_steps) auto
  finally show ?thesis unfolding settlement_reachable_def by blast
qed

lemma sample_issued:
  "map rr_status (take 3 (sd_results (sample_run smooth))) = [PRIZE_ISSUED, MANUAL_PRIZE, MANUAL_PRIZE]"
  "map gr_amount (sd_rewards (sample_run smooth)) = [500]"
  by code_simp+


lemma frozen_results_stay_witness:
  "map frozen_part (sd_results (sample_run smooth)) =
     take (length (sd_results (sample_run smooth)))
       (map frozen_part (sd_results (fst (settle_tenant sample_env (\<lambda>_. smooth) 1795000000000 (sample_run smooth)))))"
proof -
  obtain held where reached: "settlement_reachable ''t'' (sample_run smooth, held)"
    using sample_reachable by blast
  from frozen_results_stay [OF reached rtranclp.rtrancl_refl sample_env_clean(1,2) HOL.refl]
  show ?thesis by simp
qed


text \<open>
  A weak spot: the audit entry is written in the \<open>try\<close> block, after the prize is granted and the
  result marked as issued. When that write fails, the result is overwritten as failed, without the id
  of the reward, although the guest has the bonus; the same happens when \<open>createReward\<close> fails after
  its commit. The result is not retried, and the staff see a prize that was not paid.
\<close>

lemma granted_prize_recorded_as_failed:
  "\<exists>held db. settlement_reachable ''t'' (db, held) \<and>
     (\<exists>r\<in>set (sd_results db). rr_status r = PRIZE_FAILED \<and> rr_rewardId r = None \<and> granted ''t'' db r)"
proof -
  define plan where "plan = smooth\<lparr>cp_audit := Refused\<rparr>"
  obtain held where "settlement_reachable ''t'' (sample_run plan, held)"
    using sample_reachable by blast
  moreover have "\<exists>r\<in>set (sd_results (sample_run plan)). rr_status r = PRIZE_FAILED \<and> rr_rewardId r = None \<and>
      granted ''t'' (sample_run plan) r"
    unfolding plan_def by code_simp
  ultimately show ?thesis by blast
qed

end
