(* ===== verification/Leaderboard_Cache.thy ===== *)
theory Leaderboard_Cache
  imports Js_Prelude
begin

text \<open>
  \<open>guest-leaderboard/guest-leaderboard-read.service.ts\<close>, \<open>cached\<close>: the time-to-live cache behind the
  settings and the activity rows.

  The cache holds promises; a promise is a ticket, numbered in the order of the loads. \<open>cached\<close> answers
  a ticket; a load that fails rejects its promise, and the handler attached to it (\<open>reject\<close>) drops the
  entry when it still holds that promise. The log of the loads and the set of rejected tickets are not
  in the program: they record what the properties speak of. A \<open>Map\<close> is an association list in insertion
  order.
\<close>

definition CACHE_LIMIT :: nat where "CACHE_LIMIT = 300"
definition OPEN_WINDOW_TTL_MS :: int where "OPEN_WINDOW_TTL_MS = 5 * 60 * 1000"
definition CLOSED_WINDOW_TTL_MS :: int where "CLOSED_WINDOW_TTL_MS = 60 * 60 * 1000"
definition SETTINGS_TTL_MS :: int where "SETTINGS_TTL_MS = 60 * 1000"

record cache_entry =
  ce_expiresAt :: int
  ce_value :: nat

type_synonym 'k cache = "('k \<times> cache_entry) list"

record 'k load =
  lo_key :: 'k
  lo_start :: int
  lo_ttl :: int

record 'k cache_state =
  cs_cache :: "'k cache"
  cs_loads :: "'k load list"
  cs_rejected :: "nat set"

text \<open>The loop over the entries once the cache has outgrown its limit.\<close>

fun evict :: "int \<Rightarrow> 'k cache \<Rightarrow> 'k cache \<Rightarrow> 'k cache" where
  "evict now [] c = c"
| "evict now ((k, e) # rest) c =
     (let c' = (if ce_expiresAt e \<le> now \<or> CACHE_LIMIT < length c then AList.delete k c else c)
      in if length c' \<le> CACHE_LIMIT then c' else evict now rest c')"

definition cached :: "'k cache_state \<Rightarrow> 'k \<Rightarrow> int \<Rightarrow> int \<Rightarrow> 'k cache_state \<times> nat" where
  "cached st key ttl now =
     (let hit = map_of (cs_cache st) key;
          ticket = length (cs_loads st);
          c = AList.update key \<lparr>ce_expiresAt = now + ttl, ce_value = ticket\<rparr> (cs_cache st)
      in case hit of
           Some e \<Rightarrow> if now < ce_expiresAt e then (st, ce_value e)
             else (st\<lparr>cs_cache := (if CACHE_LIMIT < length c then evict now c c else c),
                      cs_loads := cs_loads st @ [\<lparr>lo_key = key, lo_start = now, lo_ttl = ttl\<rparr>]\<rparr>, ticket)
         | None \<Rightarrow>
             (st\<lparr>cs_cache := (if CACHE_LIMIT < length c then evict now c c else c),
                 cs_loads := cs_loads st @ [\<lparr>lo_key = key, lo_start = now, lo_ttl = ttl\<rparr>]\<rparr>, ticket))"

text \<open>\<open>value.catch(() => { if (cache.get(key)?.value === value) cache.delete(key) })\<close>\<close>

definition reject :: "'k cache_state \<Rightarrow> 'k \<Rightarrow> nat \<Rightarrow> 'k cache_state" where
  "reject st key ticket =
     st\<lparr>cs_cache := (case map_of (cs_cache st) key of
            Some e \<Rightarrow> if ce_value e = ticket then AList.delete key (cs_cache st) else cs_cache st
          | None \<Rightarrow> cs_cache st),
        cs_rejected := insert ticket (cs_rejected st)\<rparr>"

text \<open>\<open>invalidateSettings\<close>\<close>

definition invalidate :: "'k cache_state \<Rightarrow> 'k \<Rightarrow> 'k cache_state" where
  "invalidate st key = st\<lparr>cs_cache := AList.delete key (cs_cache st)\<rparr>"

definition fresh_cache :: "'k cache_state" where
  "fresh_cache = \<lparr>cs_cache = [], cs_loads = [], cs_rejected = {}\<rparr>"

definition activity_ttl :: "int \<Rightarrow> int \<Rightarrow> int" where
  "activity_ttl finish now = (if finish \<le> now then CLOSED_WINDOW_TTL_MS else OPEN_WINDOW_TTL_MS)"

text \<open>The states a cache can be in: calls, failures of started loads, and invalidations, in any order.\<close>

inductive cache_reachable :: "'k cache_state \<Rightarrow> bool" where
  start: "cache_reachable fresh_cache"
| get: "cache_reachable st \<Longrightarrow> cache_reachable (fst (cached st key ttl now))"
| failed: "cache_reachable st \<Longrightarrow> ticket < length (cs_loads st) \<Longrightarrow>
    cache_reachable (reject st (lo_key (cs_loads st ! ticket)) ticket)"
| dropped: "cache_reachable st \<Longrightarrow> cache_reachable (invalidate st key)"

section \<open>The invariant\<close>

definition holds_load :: "'k cache_state \<Rightarrow> 'k \<times> cache_entry \<Rightarrow> bool" where
  "holds_load st x \<longleftrightarrow>
     (let t = ce_value (snd x)
      in t < length (cs_loads st) \<and> t \<notin> cs_rejected st \<and> lo_key (cs_loads st ! t) = fst x \<and>
         ce_expiresAt (snd x) = lo_start (cs_loads st ! t) + lo_ttl (cs_loads st ! t))"

definition sound_cache :: "'k cache_state \<Rightarrow> bool" where
  "sound_cache st \<longleftrightarrow>
     distinct (map fst (cs_cache st)) \<and> length (cs_cache st) \<le> CACHE_LIMIT \<and>
     (\<forall>t\<in>cs_rejected st. t < length (cs_loads st)) \<and> (\<forall>x\<in>set (cs_cache st). holds_load st x)"

lemma evict_subset: "set (evict now xs c) \<subseteq> set c"
  by (induction now xs c rule: evict.induct) (auto simp: Let_def AList.delete_eq)

lemma distinct_evict: "distinct (map fst c) \<Longrightarrow> distinct (map fst (evict now xs c))"
  by (induction now xs c rule: evict.induct) (simp_all add: Let_def distinct_delete)

lemma evict_first:
  assumes "length c = Suc CACHE_LIMIT" and "distinct (map fst c)"
  shows "evict now c c = tl c"
proof -
  obtain k e rest where c: "c = (k, e) # rest" using assms(1) by (cases c) auto
  then have "AList.delete k c = rest"
    using assms(2) by (force simp: AList.delete_eq filter_id_conv)
  then show ?thesis using assms(1) by (simp add: c)
qed

lemma length_update: "length (AList.update k v m) \<le> Suc (length m)"
  by (induction m) auto

lemma in_update: "(k, v) \<in> set (AList.update k v m)"
  by (induction m) auto

lemma set_update: "distinct (map fst m) \<Longrightarrow> x \<in> set (AList.update k v m) \<Longrightarrow> x = (k, v) \<or> x \<in> set m \<and> fst x \<noteq> k"
  by (induction m) (auto split: if_splits)

lemma stored_cache:
  assumes "distinct (map fst m)" and "length m \<le> CACHE_LIMIT"
    and "c = AList.update k v m" and "c' = (if CACHE_LIMIT < length c then evict now c c else c)"
  shows "length c' \<le> CACHE_LIMIT" and "distinct (map fst c')" and "set c' \<subseteq> set c" and "(k, v) \<in> set c'"
proof -
  have c: "distinct (map fst c)" "length c \<le> Suc CACHE_LIMIT"
    using assms(1-3) length_update [of k v m] by (auto simp: distinct_update)
  have c': "c' = (if CACHE_LIMIT < length c then tl c else c)"
    using assms(4) c evict_first [of c now] by simp
  show "length c' \<le> CACHE_LIMIT" "distinct (map fst c')" "set c' \<subseteq> set c"
    using c by (auto simp: c' distinct_tl map_tl dest: list.set_sel(2) [rotated])
  have "c = m @ [(k, v)]" if "CACHE_LIMIT < length c"
  proof -
    have "length m < length (AList.update k v m)" using assms(2,3) that by simp
    then show ?thesis unfolding assms(3) by (induction m) (auto split: if_splits)
  qed
  moreover have "m \<noteq> []" if "CACHE_LIMIT < length c"
    using that assms(3) by (auto simp: CACHE_LIMIT_def)
  ultimately show "(k, v) \<in> set c'"
    using assms(3) in_update [of k v m] by (auto simp: c')
qed

lemma sound_cached:
  assumes "sound_cache st" and "cached st key ttl now = (st', ticket)"
  shows "sound_cache st'" and "0 < ttl \<Longrightarrow> ticket < length (cs_loads st') \<and> ticket \<notin> cs_rejected st' \<and>
      lo_key (cs_loads st' ! ticket) = key \<and>
      now < lo_start (cs_loads st' ! ticket) + lo_ttl (cs_loads st' ! ticket) \<and>
      (\<exists>e. (key, e) \<in> set (cs_cache st') \<and> ce_value e = ticket)"
proof -
  let ?stale = "case map_of (cs_cache st) key of Some e \<Rightarrow> \<not> now < ce_expiresAt e | None \<Rightarrow> True"
  note sound = assms(1) [unfolded sound_cache_def]
  have "sound_cache st' \<and> (0 < ttl \<longrightarrow> ticket < length (cs_loads st') \<and> ticket \<notin> cs_rejected st' \<and>
      lo_key (cs_loads st' ! ticket) = key \<and>
      now < lo_start (cs_loads st' ! ticket) + lo_ttl (cs_loads st' ! ticket) \<and>
      (\<exists>e. (key, e) \<in> set (cs_cache st') \<and> ce_value e = ticket))"
  proof (cases ?stale)
    case False
    then obtain e where e: "map_of (cs_cache st) key = Some e" "now < ce_expiresAt e"
      by (auto split: option.splits)
    then have "st' = st" "ticket = ce_value e"
      using assms(2) by (simp_all add: cached_def Let_def)
    moreover have "(key, e) \<in> set (cs_cache st)" using e(1) by (rule map_of_SomeD)
    moreover from this have "holds_load st (key, e)" using sound by blast
    ultimately show ?thesis using assms(1) e(2) by (auto simp: holds_load_def Let_def)
  next
    case True
    define t where "t = length (cs_loads st)"
    define e where "e = \<lparr>ce_expiresAt = now + ttl, ce_value = t\<rparr>"
    define c where "c = AList.update key e (cs_cache st)"
    define c' where "c' = (if CACHE_LIMIT < length c then evict now c c else c)"
    have st': "st' = st\<lparr>cs_cache := c', cs_loads := cs_loads st @ [\<lparr>lo_key = key, lo_start = now, lo_ttl = ttl\<rparr>]\<rparr>"
      and ticket: "ticket = t"
      using assms(2) True by (auto simp: cached_def Let_def t_def e_def c_def c'_def split: option.splits)
    note store = stored_cache [OF _ _ c_def c'_def]
    have old: "holds_load st' x" if "holds_load st x" for x
      using that by (simp add: holds_load_def Let_def st' nth_append)
    have "holds_load st' (key, e)"
      using sound by (auto simp: holds_load_def Let_def st' e_def t_def)
    moreover have "x = (key, e) \<or> x \<in> set (cs_cache st)" if "x \<in> set c'" for x
      using store(3) that set_update [of "cs_cache st" x key e] sound by (auto simp: c_def)
    ultimately have "\<forall>x\<in>set c'. holds_load st' x"
      using old sound by blast
    moreover have "\<forall>i\<in>cs_rejected st. i < Suc t" using sound by (auto simp: t_def less_Suc_eq)
    ultimately have "sound_cache st'"
      using store(1,2) sound by (simp add: sound_cache_def st' t_def)
    moreover have "(key, e) \<in> set c'" using store(4) sound by blast
    ultimately show ?thesis
      using sound ticket by (auto simp: st' t_def e_def)
  qed
  then show "sound_cache st'" and "0 < ttl \<Longrightarrow> ticket < length (cs_loads st') \<and> ticket \<notin> cs_rejected st' \<and>
      lo_key (cs_loads st' ! ticket) = key \<and>
      now < lo_start (cs_loads st' ! ticket) + lo_ttl (cs_loads st' ! ticket) \<and>
      (\<exists>e. (key, e) \<in> set (cs_cache st') \<and> ce_value e = ticket)"
    by blast+
qed

lemma sound_delete:
  assumes "sound_cache st"
  shows "sound_cache (st\<lparr>cs_cache := AList.delete key (cs_cache st)\<rparr>)"
proof -
  have "length (AList.delete key (cs_cache st)) \<le> CACHE_LIMIT"
    using assms length_delete_le [of key "cs_cache st"] unfolding sound_cache_def by linarith
  then show ?thesis
    using assms by (auto simp: sound_cache_def holds_load_def AList.delete_eq distinct_map_filter)
qed

lemma sound_reject:
  assumes "sound_cache st" and "ticket < length (cs_loads st)"
  shows "sound_cache (reject st (lo_key (cs_loads st ! ticket)) ticket)"
proof -
  let ?key = "lo_key (cs_loads st ! ticket)"
  define c where "c = cs_cache (reject st ?key ticket)"
  note sound = assms(1) [unfolded sound_cache_def]
  have c: "c = cs_cache st \<or> c = AList.delete ?key (cs_cache st)"
    by (auto simp: c_def reject_def split: option.splits)
  have gone: "ce_value (snd x) \<noteq> ticket" if "x \<in> set c" for x
  proof
    assume ticket: "ce_value (snd x) = ticket"
    have x: "x \<in> set (cs_cache st)" using c that by (auto simp: AList.delete_eq)
    then have key: "fst x = ?key" using sound ticket by (auto simp: holds_load_def Let_def)
    then have "map_of (cs_cache st) ?key = Some (snd x)"
      using x sound by (metis map_of_eq_Some_iff prod.collapse)
    then have "c = AList.delete ?key (cs_cache st)"
      using ticket by (simp add: c_def reject_def)
    with that key show False by (auto simp: AList.delete_eq)
  qed
  have "holds_load (reject st ?key ticket) x" if "x \<in> set c" for x
  proof -
    have "holds_load st x" using c that sound by (auto simp: AList.delete_eq)
    then show ?thesis using gone [OF that] by (simp add: holds_load_def reject_def Let_def)
  qed
  moreover have "length c \<le> CACHE_LIMIT" "distinct (map fst c)"
    using c sound length_delete_le [of ?key "cs_cache st"] by (auto simp: distinct_delete)
  moreover have "\<forall>t\<in>cs_rejected (reject st ?key ticket). t < length (cs_loads (reject st ?key ticket))"
    using sound assms(2) by (simp add: reject_def)
  ultimately show ?thesis
    unfolding sound_cache_def c_def [symmetric] by simp
qed

lemma reachable_sound: "cache_reachable st \<Longrightarrow> sound_cache st"
proof (induction rule: cache_reachable.induct)
  case start
  show ?case by (simp add: sound_cache_def fresh_cache_def)
next
  case (get st key ttl now)
  then show ?case using sound_cached(1) [OF get.IH] by (metis prod.collapse)
next
  case (dropped st key)
  then show ?case by (simp add: invalidate_def sound_delete)
qed (rule sound_reject)

text \<open>
  C26: The cache serves recent answers and stays small. Whatever calls, failures and invalidations came
  before, in any order and with any clock, a call answers a load that was started for the same key, that
  has not failed, and whose time to live (at most an hour for activity rows, a minute for settings) has
  not passed; that load is then in the cache, and the cache never holds more than 300 entries.
\<close>

theorem cache_serves_fresh:
  assumes "cache_reachable st" and "0 < ttl" and "cached st key ttl now = (st', ticket)"
  shows "ticket < length (cs_loads st') \<and> ticket \<notin> cs_rejected st' \<and> lo_key (cs_loads st' ! ticket) = key \<and>
    now < lo_start (cs_loads st' ! ticket) + lo_ttl (cs_loads st' ! ticket) \<and>
    (\<exists>e. map_of (cs_cache st') key = Some e \<and> ce_value e = ticket) \<and> length (cs_cache st') \<le> CACHE_LIMIT"
proof -
  note sound = sound_cached [OF reachable_sound [OF assms(1)] assms(3)]
  have "\<exists>e. map_of (cs_cache st') key = Some e \<and> ce_value e = ticket"
    using sound(1) sound(2) [OF assms(2)] by (auto simp: sound_cache_def)
  then show ?thesis using sound(1) sound(2) [OF assms(2)] by (auto simp: sound_cache_def)
qed

lemma cache_serves_fresh_witness:
  "\<exists>st'. cached (reject (fst (cached fresh_cache ''t'' SETTINGS_TTL_MS 0)) ''t'' 0) ''t'' SETTINGS_TTL_MS 5 = (st', 1) \<and>
     1 \<notin> cs_rejected st' \<and> length (cs_cache st') \<le> CACHE_LIMIT"
proof -
  define st where "st = fst (cached fresh_cache ''t'' SETTINGS_TTL_MS 0)"
  have st: "cache_reachable st" "cs_loads st = [\<lparr>lo_key = ''t'', lo_start = 0, lo_ttl = SETTINGS_TTL_MS\<rparr>]"
    unfolding st_def by (rule cache_reachable.intros)+ (simp add: cached_def fresh_cache_def Let_def)
  then have reached: "cache_reachable (reject st ''t'' 0)"
    using cache_reachable.failed [of st 0] by simp
  have "snd (cached (reject st ''t'' 0) ''t'' SETTINGS_TTL_MS 5) = 1"
    by (simp add: cached_def reject_def Let_def st_def fresh_cache_def CACHE_LIMIT_def)
  moreover have "0 < SETTINGS_TTL_MS" by (simp add: SETTINGS_TTL_MS_def)
  ultimately show ?thesis
    using cache_serves_fresh [OF reached, of SETTINGS_TTL_MS "''t''" 5] unfolding st_def
    by (metis prod.collapse)
qed

end
