(* ===== verification/Session_Window.thy ===== *)
theory Session_Window
  imports Time_Zone Js_Number Tenant_Model
begin

text \<open>
  Time windows of play-time goals (\<open>guest-game-session-window.ts\<close>): which part of a session lies inside
  windows such as "08:00-17:00" on some weekdays, in the time zone of the club.

  The durations are the whole minutes of the database columns. \<open>Intl.DateTimeFormat\<close> throws on an
  unknown zone: \<open>session_minutes_inside_window\<close> is then \<open>None\<close>, if the loop formats an instant at all.

  The loop runs at most 1000 times. \<open>session_loop_reaches_end\<close> counts the edges it can meet, and
  \<open>session_minutes_exact\<close> shows that it measures exactly the milliseconds that lie in the window.
\<close>

section \<open>Values of settings\<close>

text \<open>\<open>a ?? b\<close>, \<open>Number(value)\<close> with \<open>None\<close> for \<open>NaN\<close> and the infinities, \<open>filter(Boolean)\<close> on texts.\<close>

fun js_or :: "js_value \<Rightarrow> js_value \<Rightarrow> js_value" where
  "js_or JUndef w = w"
| "js_or JNull w = w"
| "js_or v w = v"

text \<open>The decimal literals of \<open>StringNumericLiteral\<close>; doubles are the rationals they are written as.\<close>

fun digits_value :: "int \<Rightarrow> string \<Rightarrow> int" where
  "digits_value acc [] = acc"
| "digits_value acc (c # s) = digits_value (10 * acc + int (get_or (char_digit c) 0)) s"

definition take_digits :: "string \<Rightarrow> string \<times> string" where
  "take_digits s = (takeWhile (\<lambda>c. char_digit c \<noteq> None) s, dropWhile (\<lambda>c. char_digit c \<noteq> None) s)"

definition take_sign :: "string \<Rightarrow> bool \<times> string" where
  "take_sign s =
     (case s of
        c # r \<Rightarrow> if c = CHR ''-'' then (True, r) else if c = CHR ''+'' then (False, r) else (False, s)
      | [] \<Rightarrow> (False, []))"

definition read_exponent :: "string \<Rightarrow> int option" where
  "read_exponent s =
     (case s of
        [] \<Rightarrow> Some 0
      | c # r \<Rightarrow>
          if c = CHR ''e'' \<or> c = CHR ''E'' then
            (let (neg, t) = take_sign r; (ds, rest) = take_digits t
             in if ds = [] \<or> rest \<noteq> [] then None
                else Some (if neg then - digits_value 0 ds else digits_value 0 ds))
          else None)"

definition power_of_ten :: "int \<Rightarrow> rat" where
  "power_of_ten n = (if 0 \<le> n then 10 ^ nat n else 1 / 10 ^ nat (- n))"

definition MAX_DOUBLE :: rat where
  "MAX_DOUBLE = (2 ^ 53 - 1) * 2 ^ 971"

definition read_decimal :: "string \<Rightarrow> rat option" where
  "read_decimal s =
     (let (neg, t) = take_sign s; (whole, r) = take_digits t;
          (frac, u) = (case r of c # r' \<Rightarrow> if c = CHR ''.'' then take_digits r' else ([], r) | [] \<Rightarrow> ([], []))
      in if whole = [] \<and> frac = [] then None
         else case read_exponent u of
           None \<Rightarrow> None
         | Some e \<Rightarrow>
             (let m = of_int (digits_value 0 (whole @ frac)) * power_of_ten (e - int (length frac))
              in if MAX_DOUBLE < m then None else Some (if neg then - m else m)))"

fun radix_digit :: "nat \<Rightarrow> char \<Rightarrow> nat option" where
  "radix_digit base c =
     (let n = of_char c :: nat;
          d = (if 48 \<le> n \<and> n \<le> 57 then n - 48 else if 97 \<le> n \<and> n \<le> 102 then n - 87
               else if 65 \<le> n \<and> n \<le> 70 then n - 55 else 99)
      in if d < base then Some d else None)"

fun radix_value :: "nat \<Rightarrow> rat \<Rightarrow> string \<Rightarrow> rat option" where
  "radix_value base acc [] = Some acc"
| "radix_value base acc (c # s) =
     (case radix_digit base c of None \<Rightarrow> None
      | Some d \<Rightarrow> radix_value base (of_nat base * acc + of_nat d) s)"

definition read_radix :: "nat \<Rightarrow> string \<Rightarrow> rat option" where
  "read_radix base s =
     (if s = [] then None
      else case radix_value base 0 s of None \<Rightarrow> None | Some q \<Rightarrow> if MAX_DOUBLE < q then None else Some q)"

definition number_of_text :: "string \<Rightarrow> rat option" where
  "number_of_text s =
     (let t = js_trim s in
      if t = [] then Some 0
      else case t of
        c # x # r \<Rightarrow>
          if c = CHR ''0'' \<and> (x = CHR ''x'' \<or> x = CHR ''X'') then read_radix 16 r
          else if c = CHR ''0'' \<and> (x = CHR ''o'' \<or> x = CHR ''O'') then read_radix 8 r
          else if c = CHR ''0'' \<and> (x = CHR ''b'' \<or> x = CHR ''B'') then read_radix 2 r
          else read_decimal t
      | _ \<Rightarrow> read_decimal t)"

text \<open>An array of one element converts as its element does, a longer one has a comma.\<close>

fun js_to_number :: "js_value \<Rightarrow> rat option" where
  "js_to_number JUndef = None"
| "js_to_number JNull = Some 0"
| "js_to_number (JBool b) = Some (if b then 1 else 0)"
| "js_to_number (JNum q) = Some q"
| "js_to_number (JStr s) = number_of_text s"
| "js_to_number (JArr []) = Some 0"
| "js_to_number (JArr [v]) =
     (case v of JUndef \<Rightarrow> Some 0 | JBool _ \<Rightarrow> None | _ \<Rightarrow> js_to_number v)"
| "js_to_number (JArr _) = None"
| "js_to_number (JObj _) = None"

fun string_values :: "js_value \<Rightarrow> string list" where
  "string_values (JArr vs) =
     filter (\<lambda>s. s \<noteq> []) (map js_trim (concat (map (\<lambda>v. case v of JStr s \<Rightarrow> [s] | _ \<Rightarrow> []) vs)))"
| "string_values (JStr s) = (if js_trim s \<noteq> [] then [js_trim s] else [])"
| "string_values _ = []"

fun string_value :: "js_value \<Rightarrow> string" where
  "string_value (JStr s) = js_upper (js_trim s)"
| "string_value _ = []"

fun number_values :: "js_value \<Rightarrow> int list" where
  "number_values (JArr vs) =
     concat (map (\<lambda>v. case js_to_number v of
                        Some q \<Rightarrow> if q = of_int \<lfloor>q\<rfloor> \<and> 0 \<le> q \<and> q \<le> 6 then [\<lfloor>q\<rfloor>] else []
                      | None \<Rightarrow> []) vs)"
| "number_values _ = []"

section \<open>The window\<close>

datatype window_match = SESSION_END | OVERLAP

record window_spec =
  ws_hours :: "string list"
  ws_weekdays :: "int list"

type_synonym js_record = "(string \<times> js_value) list"

definition guest_game_window_match :: "js_record \<Rightarrow> js_record \<Rightarrow> window_match" where
  "guest_game_window_match metric conditions =
     (case js_or (js_prop metric ''windowMatch'') (js_prop conditions ''windowMatch'') of
        JStr s \<Rightarrow> if js_upper (js_trim s) = ''OVERLAP'' then OVERLAP else SESSION_END
      | _ \<Rightarrow> SESSION_END)"

definition guest_game_window_spec :: "js_record \<Rightarrow> js_record \<Rightarrow> window_spec" where
  "guest_game_window_spec metric conditions =
     (let hours = string_values (js_or (js_prop metric ''hours'') (js_prop conditions ''hours''));
          weekdayMode = string_value (js_or (js_prop metric ''weekdayMode'') (js_prop conditions ''weekdayMode''));
          weekdaysOnly = (js_prop metric ''weekdaysOnly'' = JBool True \<or>
                          js_prop conditions ''weekdaysOnly'' = JBool True);
          weekdays = (if weekdayMode = ''WEEKDAYS'' \<or> weekdaysOnly then [1, 2, 3, 4, 5]
                      else if weekdayMode = ''WEEKENDS'' then [0, 6]
                      else number_values (js_or (js_prop metric ''weekdays'') (js_prop conditions ''weekdays'')))
      in \<lparr>ws_hours = hours, ws_weekdays = weekdays\<rparr>)"

definition guest_game_window_is_restricted :: "window_spec \<Rightarrow> bool" where
  "guest_game_window_is_restricted spec \<longleftrightarrow> 0 < length (ws_hours spec) \<or> 0 < length (ws_weekdays spec)"

definition MINUTE_MS :: int where "MINUTE_MS = 60000"
definition DAY_MINUTES :: int where "DAY_MINUTES = 24 * 60"

text \<open>The match of \<open>^(\d{1,2}):(\d{2})$\<close> with the trimmed text.\<close>

definition time_to_minutes :: "string option \<Rightarrow> int option" where
  "time_to_minutes v =
     (case v of
        None \<Rightarrow> None
      | Some s \<Rightarrow>
          (let (h, r) = take_digits (js_trim s) in
           if length h = 1 \<or> length h = 2 then
             (case r of
                c # m \<Rightarrow>
                  if c = CHR '':'' \<and> length m = 2 \<and> take_digits m = (m, []) then
                    (let hours = digits_value 0 h; minutes = digits_value 0 m
                     in if 23 < hours \<or> 59 < minutes then None else Some (hours * 60 + minutes))
                  else None
              | [] \<Rightarrow> None)
           else None))"

definition js_at :: "'a list \<Rightarrow> nat \<Rightarrow> 'a option" where
  "js_at xs i = (if i < length xs then Some (xs ! i) else None)"

definition parse_window :: "string \<Rightarrow> (int \<times> int) list" where
  "parse_window window =
     (let parts = split_on (CHR ''-'') window
      in case (time_to_minutes (js_at parts 0), time_to_minutes (js_at parts 1)) of
           (Some from, Some raw_to) \<Rightarrow>
             (let to = (if raw_to = DAY_MINUTES - 1 then DAY_MINUTES else raw_to)
              in if from < to then [(from, to)]
                 else if to < from then [(from, DAY_MINUTES), (0, to)] else [])
         | _ \<Rightarrow> [])"

definition parse_windows :: "string list \<Rightarrow> (int \<times> int) list" where
  "parse_windows hours =
     (if hours = [] then [(0, DAY_MINUTES)] else concat (map parse_window hours))"

section \<open>The loop\<close>

record local_parts =
  lo_weekday :: int
  lo_secondOfDay :: int

text \<open>\<open>timeZone || 'UTC'\<close>, and the fields that \<open>formatToParts\<close> gives for an instant.\<close>

definition zone_or_utc :: "string option \<Rightarrow> string" where
  "zone_or_utc zone = (case zone of None \<Rightarrow> ''UTC'' | Some z \<Rightarrow> if z = [] then ''UTC'' else z)"

definition local_parts :: "zone_db \<Rightarrow> string option \<Rightarrow> int \<Rightarrow> local_parts" where
  "local_parts zdb zone t =
     (let s = t div 1000 + zone_offset zdb (zone_or_utc zone) t; r = s mod 86400
      in \<lparr>lo_weekday = (s div 86400 + 4) mod 7,
          lo_secondOfDay = r div 3600 * 3600 + r div 60 mod 60 * 60 + r mod 60\<rparr>)"

text \<open>
  The inner loop over the windows: whether the minute of the day is inside, and the next edge.
  \<open>minuteOfDay\<close> is \<open>secondOfDay / 60\<close>; its comparisons with whole minutes are those of the seconds.
\<close>

fun scan_windows :: "int \<Rightarrow> (int \<times> int) list \<Rightarrow> bool \<Rightarrow> int \<Rightarrow> bool \<times> int" where
  "scan_windows second [] inside edge = (inside, edge)"
| "scan_windows second ((from, to) # ws) inside edge =
     (if from * 60 \<le> second \<and> second < to * 60 then scan_windows second ws True (min edge to)
      else if second < from * 60 then scan_windows second ws inside (min edge from)
      else scan_windows second ws inside edge)"

definition window_step ::
  "zone_db \<Rightarrow> string option \<Rightarrow> int list \<Rightarrow> (int \<times> int) list \<Rightarrow> int \<Rightarrow> int \<Rightarrow> int \<times> bool" where
  "window_step zdb zone weekdays windows endMs cursor =
     (let parts = local_parts zdb zone cursor;
          dayAllowed = (weekdays = [] \<or> lo_weekday parts \<in> set weekdays);
          (inside, edge) = scan_windows (lo_secondOfDay parts) windows False DAY_MINUTES
      in (min (endMs - cursor) (max 1000 ((edge * 60 - lo_secondOfDay parts) * 1000)), dayAllowed \<and> inside))"

text \<open>The rounds left, the cursor and \<open>insideMs\<close>; the cursor the loop stops at and its sum.\<close>

fun window_loop ::
  "zone_db \<Rightarrow> string option \<Rightarrow> int list \<Rightarrow> (int \<times> int) list \<Rightarrow> int \<Rightarrow> nat \<Rightarrow> int \<Rightarrow> int \<Rightarrow> int \<times> int" where
  "window_loop zdb zone weekdays windows endMs 0 cursor insideMs = (cursor, insideMs)"
| "window_loop zdb zone weekdays windows endMs (Suc n) cursor insideMs =
     (if cursor < endMs then
        (let (step, counted) = window_step zdb zone weekdays windows endMs cursor
         in window_loop zdb zone weekdays windows endMs n (cursor + step)
              (if counted then insideMs + step else insideMs))
      else (cursor, insideMs))"

definition LOOP_GUARD :: nat where "LOOP_GUARD = 1000"

definition session_minutes_inside_window ::
  "zone_db \<Rightarrow> jsdate \<Rightarrow> int \<Rightarrow> window_spec \<Rightarrow> string option \<Rightarrow> int option" where
  "session_minutes_inside_window zdb endedAt raw_minutes spec zone =
     (let minutes = max 0 raw_minutes in
      case endedAt of
        Invalid_Date \<Rightarrow> Some 0
      | At endMs \<Rightarrow>
          if minutes = 0 then Some 0
          else (let windows = parse_windows (ws_hours spec) in
            if windows = [] then Some 0
            else if zdb (zone_or_utc zone) = None then None
            else Some (round_div
              (snd (window_loop zdb zone (ws_weekdays spec) windows endMs LOOP_GUARD
                     (endMs - minutes * MINUTE_MS) 0)) MINUTE_MS)))"

section \<open>Edges of the day\<close>

text \<open>The second of the day is inside a window.\<close>

definition in_windows :: "(int \<times> int) list \<Rightarrow> int \<Rightarrow> bool" where
  "in_windows windows second \<longleftrightarrow> (\<exists>(from, to)\<in>set windows. from * 60 \<le> second \<and> second < to * 60)"

lemma in_windows_Cons:
  "in_windows ((f, u) # ws) x \<longleftrightarrow> f * 60 \<le> x \<and> x < u * 60 \<or> in_windows ws x"
  by (auto simp: in_windows_def)

definition edges :: "(int \<times> int) list \<Rightarrow> int set" where
  "edges windows = insert DAY_MINUTES (fst ` set windows \<union> snd ` set windows)"

lemma finite_edges [simp]: "finite (edges ws)"
  by (simp add: edges_def)

lemma card_edges: "card (edges ws) \<le> 2 * length ws + 1"
proof -
  have "card (fst ` set ws \<union> snd ` set ws) \<le> card (fst ` set ws) + card (snd ` set ws)"
    by (rule card_Un_le)
  also have "\<dots> \<le> length ws + length ws"
    by (intro add_mono order_trans [OF card_image_le card_length]) simp_all
  finally show ?thesis
    by (simp add: edges_def card_insert_if)
qed

lemma scan_inside: "fst (scan_windows x ws b e) \<longleftrightarrow> b \<or> in_windows ws x"
  by (induction x ws b e rule: scan_windows.induct) (auto simp: in_windows_Cons in_windows_def)

lemma scan_le: "snd (scan_windows x ws b e) \<le> e"
  by (induction x ws b e rule: scan_windows.induct) auto

lemma scan_edge:
  "snd (scan_windows x ws b e) \<in> insert e (fst ` set ws \<union> snd ` set ws)"
  by (induction x ws b e rule: scan_windows.induct) (auto simp: min_def split: if_splits, metis+)

lemma scan_ahead: "x < e * 60 \<Longrightarrow> x < snd (scan_windows x ws b e) * 60"
  by (induction x ws b e rule: scan_windows.induct) (auto simp: min_def)

lemma scan_constant:
  "x \<le> y \<Longrightarrow> y < snd (scan_windows x ws b e) * 60 \<Longrightarrow> in_windows ws y \<longleftrightarrow> in_windows ws x"
proof (induction x ws b e rule: scan_windows.induct)
  case (2 x f u ws b e)
  consider (inside) "f * 60 \<le> x" "x < u * 60" | (before) "x < f * 60"
    | (after) "f * 60 \<le> x" "u * 60 \<le> x"
    by linarith
  then show ?case
  proof cases
    case inside
    then show ?thesis
      using 2 scan_le [of x ws True "min e u"] by (auto simp: in_windows_Cons)
  next
    case before
    then show ?thesis
      using 2 scan_le [of x ws b "min e f"] by (auto simp: in_windows_Cons)
  next
    case after
    then show ?thesis
      using 2 by (auto simp: in_windows_Cons)
  qed
qed (simp add: in_windows_def)

text \<open>How many edges lie before a local second.\<close>

definition edge_rank :: "(int \<times> int) list \<Rightarrow> int \<Rightarrow> int" where
  "edge_rank ws s =
     int (card (edges ws)) * (s div 86400) + int (card {e \<in> edges ws. e * 60 \<le> s mod 86400})"

lemma edge_rank_le:
  "edge_rank ws s < int (card (edges ws)) * (s div 86400 + 1)"
proof -
  have "DAY_MINUTES \<in> edges ws" and "\<not> DAY_MINUTES * 60 \<le> s mod 86400"
    by (simp_all add: edges_def DAY_MINUTES_def not_le)
  then have "{e \<in> edges ws. e * 60 \<le> s mod 86400} \<subset> edges ws"
    by blast
  then have "card {e \<in> edges ws. e * 60 \<le> s mod 86400} < card (edges ws)"
    by (simp add: psubset_card_mono)
  then show ?thesis
    by (simp add: edge_rank_def algebra_simps)
qed

lemma edge_rank_mono:
  assumes "s \<le> s'"
  shows "edge_rank ws s \<le> edge_rank ws s'"
proof (cases "s div 86400 = s' div 86400")
  case True
  then have "s mod 86400 \<le> s' mod 86400"
    using assms by (simp add: minus_div_mult_eq_mod [symmetric])
  then have "card {e \<in> edges ws. e * 60 \<le> s mod 86400} \<le> card {e \<in> edges ws. e * 60 \<le> s' mod 86400}"
    by (intro card_mono) auto
  then show ?thesis using True by (simp add: edge_rank_def)
next
  case False
  with assms have "s div 86400 + 1 \<le> s' div 86400"
    by (meson add1_zle_eq antisym_conv1 zdiv_mono1 zero_less_numeral)
  then have "int (card (edges ws)) * (s div 86400 + 1) \<le> int (card (edges ws)) * (s' div 86400)"
    by (intro mult_left_mono) auto
  with edge_rank_le [of ws s] show ?thesis
    by (simp add: edge_rank_def)
qed

lemma edge_rank_step:
  assumes e: "e \<in> edges ws" "s mod 86400 < e * 60" "e \<le> DAY_MINUTES"
    and s': "s' = s + (e * 60 - s mod 86400)"
  shows "edge_rank ws s < edge_rank ws s'"
proof (cases "e = DAY_MINUTES")
  case True
  then have "s' = (s div 86400 + 1) * 86400"
    using s' div_mult_mod_eq [of s 86400] unfolding DAY_MINUTES_def by (simp only: ring_distribs)
  with edge_rank_le [of ws s] show ?thesis
    by (simp add: edge_rank_def)
next
  case False
  then have "s' = s div 86400 * 86400 + e * 60"
    using s' by (simp add: minus_mod_eq_div_mult)
  moreover have "0 \<le> e * 60" "e * 60 < 86400"
    using e False pos_mod_sign [of 86400 s] unfolding DAY_MINUTES_def by linarith+
  ultimately have s': "s' div 86400 = s div 86400" "s' mod 86400 = e * 60"
    by simp_all
  have "{x \<in> edges ws. x * 60 \<le> s mod 86400} \<subset> {x \<in> edges ws. x * 60 \<le> e * 60}"
  proof (rule psubsetI)
    show "{x \<in> edges ws. x * 60 \<le> s mod 86400} \<subseteq> {x \<in> edges ws. x * 60 \<le> e * 60}"
      using e by auto
    show "{x \<in> edges ws. x * 60 \<le> s mod 86400} \<noteq> {x \<in> edges ws. x * 60 \<le> e * 60}"
      using e by (metis (no_types, lifting) linorder_not_le mem_Collect_eq order_refl)
  qed
  then have "card {x \<in> edges ws. x * 60 \<le> s mod 86400} < card {x \<in> edges ws. x * 60 \<le> e * 60}"
    by (simp add: psubset_card_mono)
  with s' show ?thesis by (simp add: edge_rank_def)
qed

section \<open>The loop measures the window\<close>

text \<open>An instant counts: its weekday and its second of the day in the zone of the club are allowed.\<close>

definition instant_counts ::
  "zone_db \<Rightarrow> string option \<Rightarrow> int list \<Rightarrow> (int \<times> int) list \<Rightarrow> int \<Rightarrow> bool" where
  "instant_counts zdb zone weekdays windows t \<longleftrightarrow>
     (weekdays = [] \<or> lo_weekday (local_parts zdb zone t) \<in> set weekdays) \<and>
     in_windows windows (lo_secondOfDay (local_parts zdb zone t))"

text \<open>The clock of the club is not changed in a stretch of time.\<close>

definition steady_clock :: "zone_db \<Rightarrow> string option \<Rightarrow> int \<Rightarrow> int \<Rightarrow> int \<Rightarrow> bool" where
  "steady_clock zdb zone start endMs off \<longleftrightarrow>
     (\<forall>t. start \<le> t \<longrightarrow> t < endMs \<longrightarrow> zone_offset zdb (zone_or_utc zone) t = off)"

lemma steady_clockD:
  "steady_clock zdb zone a b off \<Longrightarrow> a \<le> t \<Longrightarrow> t < b \<Longrightarrow> zone_offset zdb (zone_or_utc zone) t = off"
  by (simp add: steady_clock_def)

lemma steady_clock_later: "steady_clock zdb zone a b off \<Longrightarrow> a \<le> a' \<Longrightarrow> steady_clock zdb zone a' b off"
  by (simp add: steady_clock_def)

lemma local_parts_steady:
  assumes "steady_clock zdb zone a b off" and "a \<le> t" and "t < b"
  shows "local_parts zdb zone t =
    \<lparr>lo_weekday = ((t div 1000 + off) div 86400 + 4) mod 7, lo_secondOfDay = (t div 1000 + off) mod 86400\<rparr>"
  using steady_clockD [OF assms] by (simp add: local_parts_def Let_def day_seconds)

text \<open>One round: it goes to the next edge or to the end.\<close>

lemma window_step_steady:
  fixes off t :: int and ws
  defines "s \<equiv> t div 1000 + off"
  assumes clock: "steady_clock zdb zone t endMs off" and t: "t < endMs"
    and step: "window_step zdb zone weekdays ws endMs t = (step, c)"
  obtains e where "e \<in> edges ws" and "e \<le> DAY_MINUTES" and "s mod 86400 < e * 60"
    and "step = min (endMs - t) ((e * 60 - s mod 86400) * 1000)"
    and "c \<longleftrightarrow> instant_counts zdb zone weekdays ws t"
    and "\<And>y. s mod 86400 \<le> y \<Longrightarrow> y < e * 60 \<Longrightarrow> in_windows ws y \<longleftrightarrow> in_windows ws (s mod 86400)"
proof -
  let ?x = "s mod 86400"
  obtain b e where scan: "scan_windows ?x ws False DAY_MINUTES = (b, e)"
    by (cases "scan_windows ?x ws False DAY_MINUTES")
  have parts: "local_parts zdb zone t = \<lparr>lo_weekday = (s div 86400 + 4) mod 7, lo_secondOfDay = ?x\<rparr>"
    using local_parts_steady [OF clock order_refl t] by (simp add: s_def)
  have "?x < DAY_MINUTES * 60" by (simp add: DAY_MINUTES_def)
  then have ahead: "?x < e * 60" using scan_ahead [of ?x DAY_MINUTES ws False] scan by simp
  then have "1000 \<le> (e * 60 - ?x) * 1000" by simp
  then have s1: "step = min (endMs - t) ((e * 60 - ?x) * 1000)"
    and c: "c \<longleftrightarrow> instant_counts zdb zone weekdays ws t"
    using step scan scan_inside [of ?x ws False DAY_MINUTES]
    by (simp_all add: window_step_def parts instant_counts_def max_absorb2)
  show thesis
  proof (rule that [OF _ _ ahead s1 c])
    show "e \<in> edges ws" using scan_edge [of ?x ws False DAY_MINUTES] scan by (simp add: edges_def)
    show "e \<le> DAY_MINUTES" using scan_le [of ?x ws False DAY_MINUTES] scan by simp
    show "in_windows ws y \<longleftrightarrow> in_windows ws ?x" if "?x \<le> y" "y < e * 60" for y
      using scan_constant [of ?x y ws False DAY_MINUTES] scan that by simp
  qed
qed

text \<open>The number of rounds is bounded by the edges between the cursor and the end.\<close>

lemma window_loop_ends:
  assumes "steady_clock zdb zone t endMs off" and "t \<le> endMs"
    and "t < endMs \<longrightarrow> edge_rank ws (endMs div 1000 + off) - edge_rank ws (t div 1000 + off) < int n"
  shows "fst (window_loop zdb zone weekdays ws endMs n t ms) = endMs"
  using assms
proof (induction n arbitrary: t ms)
  case 0
  then have "edge_rank ws (t div 1000 + off) \<le> edge_rank ws (endMs div 1000 + off)"
    by (intro edge_rank_mono) (simp add: zdiv_mono1)
  with 0 show ?case by auto
next
  case (Suc n)
  show ?case
  proof (cases "t < endMs")
    case False
    with Suc.prems show ?thesis by simp
  next
    case True
    let ?s = "t div 1000 + off"
    obtain step c where step: "window_step zdb zone weekdays ws endMs t = (step, c)"
      by (cases "window_step zdb zone weekdays ws endMs t")
    from window_step_steady [OF Suc.prems(1) True step] obtain e where
      e: "e \<in> edges ws" "?s mod 86400 < e * 60" "e \<le> DAY_MINUTES"
      and s1: "step = min (endMs - t) ((e * 60 - ?s mod 86400) * 1000)"
      by metis
    have next_clock: "steady_clock zdb zone (t + step) endMs off"
      using s1 e True by (intro steady_clock_later [OF Suc.prems(1)]) simp
    have "edge_rank ws (endMs div 1000 + off) - edge_rank ws ((t + step) div 1000 + off) < int n"
      if "t + step < endMs"
    proof -
      have "(t + step) div 1000 + off = ?s + (e * 60 - ?s mod 86400)"
      proof -
        have "step = (e * 60 - ?s mod 86400) * 1000"
          using that s1 by (simp add: min_def split: if_splits)
        then show ?thesis
          using div_mult_self1 [of 1000 t "e * 60 - ?s mod 86400"] by simp
      qed
      then have "edge_rank ws ?s < edge_rank ws ((t + step) div 1000 + off)"
        using edge_rank_step [OF e HOL.refl] by (simp only:)
      with Suc.prems(3) True show ?thesis by linarith
    qed
    then have "fst (window_loop zdb zone weekdays ws endMs n (t + step) ms') = endMs" for ms'
      using Suc.IH [OF next_clock, of ms'] s1 by simp
    then show ?thesis using True step by simp
  qed
qed

lemma edge_rank_bound:
  assumes "s' = s + 60 * minutes" and "0 \<le> minutes"
  shows "edge_rank ws s' - edge_rank ws s < (2 * int (length ws) + 1) * (minutes div 1440 + 2)"
proof -
  have "s' div 86400 \<le> s div 86400 + minutes div 1440 + 1"
    using div_bounds [of 86400 s] div_bounds [of 86400 s'] div_bounds [of 1440 minutes] assms by linarith
  then have "int (card (edges ws)) * (s' div 86400 + 1 - s div 86400) \<le>
      (2 * int (length ws) + 1) * (minutes div 1440 + 2)"
    using card_edges [of ws] assms by (intro mult_mono) (auto simp: zdiv_mono1)
  moreover have "int (card (edges ws)) * (s div 86400) \<le> edge_rank ws s"
    by (simp add: edge_rank_def)
  ultimately show ?thesis
    using edge_rank_le [of ws s'] by (simp add: algebra_simps)
qed

definition counted_ms ::
  "zone_db \<Rightarrow> string option \<Rightarrow> int list \<Rightarrow> (int \<times> int) list \<Rightarrow> int \<Rightarrow> int \<Rightarrow> int" where
  "counted_ms zdb zone weekdays ws a b = int (card ({a..<b} \<inter> Collect (instant_counts zdb zone weekdays ws)))"

lemma counted_ms_split:
  assumes "a \<le> b" and "b \<le> c"
  shows "counted_ms zdb zone weekdays ws a c =
    counted_ms zdb zone weekdays ws a b + counted_ms zdb zone weekdays ws b c"
proof -
  let ?C = "Collect (instant_counts zdb zone weekdays ws)"
  have "{a..<c} \<inter> ?C = ({a..<b} \<inter> ?C) \<union> ({b..<c} \<inter> ?C)"
    using assms by auto
  moreover have "card (({a..<b} \<inter> ?C) \<union> ({b..<c} \<inter> ?C)) = card ({a..<b} \<inter> ?C) + card ({b..<c} \<inter> ?C)"
    by (rule card_Un_disjoint) auto
  ultimately show ?thesis
    by (simp add: counted_ms_def)
qed

lemma counted_ms_constant:
  assumes "\<And>t. a \<le> t \<Longrightarrow> t < b \<Longrightarrow> instant_counts zdb zone weekdays ws t \<longleftrightarrow> c" and "a \<le> b"
  shows "counted_ms zdb zone weekdays ws a b = (if c then b - a else 0)"
proof -
  have "{a..<b} \<inter> Collect (instant_counts zdb zone weekdays ws) = (if c then {a..<b} else {})"
    using assms(1) by auto
  then show ?thesis using assms(2) by (simp add: counted_ms_def)
qed

lemma counted_ms_le: "a \<le> b \<Longrightarrow> counted_ms zdb zone weekdays ws a b \<le> b - a"
  using card_mono [of "{a..<b}" "{a..<b} \<inter> Collect (instant_counts zdb zone weekdays ws)"]
  by (simp add: counted_ms_def)

lemma second_in_day:
  assumes "0 \<le> k" and "s mod 86400 + k < 86400"
  shows "(s + k) div 86400 = s div 86400" and "(s + k) mod 86400 = s mod 86400 + (k :: int)"
proof -
  have "s + k = 86400 * (s div 86400) + (s mod 86400 + k)" and "0 \<le> s mod 86400 + k"
    using assms(1) by simp_all
  then show "(s + k) div 86400 = s div 86400" and "(s + k) mod 86400 = s mod 86400 + k"
    using assms(2) by (rule int_div_pos_eq, rule int_mod_pos_eq)
qed

lemma window_step_counts:
  assumes clock: "steady_clock zdb zone t endMs off" and t: "t < endMs"
    and whole: "1000 dvd t" "1000 dvd endMs"
    and step: "window_step zdb zone weekdays ws endMs t = (step, c)"
  shows "0 < step" and "t + step \<le> endMs" and "1000 dvd t + step"
    and "counted_ms zdb zone weekdays ws t (t + step) = (if c then step else 0)"
proof -
  let ?s = "t div 1000 + off"
  obtain e where e: "?s mod 86400 < e * 60" "e \<le> DAY_MINUTES"
    and s1: "step = min (endMs - t) ((e * 60 - ?s mod 86400) * 1000)"
    and c: "c \<longleftrightarrow> instant_counts zdb zone weekdays ws t"
    and const: "\<And>y. ?s mod 86400 \<le> y \<Longrightarrow> y < e * 60 \<Longrightarrow> in_windows ws y \<longleftrightarrow> in_windows ws (?s mod 86400)"
    using window_step_steady [OF clock t step] by metis
  show pos: "0 < step" and le: "t + step \<le> endMs" using s1 e t by simp_all
  show "1000 dvd t + step" using s1 whole by (auto simp: min_def)
  have "instant_counts zdb zone weekdays ws x \<longleftrightarrow> c" if x: "t \<le> x" "x < t + step" for x
  proof -
    define k where "k = x div 1000 - t div 1000"
    have "x < (t div 1000 + (e * 60 - ?s mod 86400)) * 1000"
      using x s1 whole by (auto simp: algebra_simps)
    then have "x div 1000 < t div 1000 + (e * 60 - ?s mod 86400)"
      by (simp add: div_less_iff_less_mult)
    then have k: "0 \<le> k" "?s mod 86400 + k < e * 60"
      using x by (simp_all add: k_def zdiv_mono1)
    then have "?s mod 86400 + k < 86400" using e by (simp add: DAY_MINUTES_def)
    note day = second_in_day [OF k(1) this]
    have "x div 1000 + off = ?s + k" by (simp add: k_def)
    moreover have "x < endMs" using x le by simp
    ultimately have parts: "local_parts zdb zone x =
        \<lparr>lo_weekday = (?s div 86400 + 4) mod 7, lo_secondOfDay = ?s mod 86400 + k\<rparr>"
      using local_parts_steady [OF clock x(1)] day by (simp only:)
    have "in_windows ws (?s mod 86400 + k) \<longleftrightarrow> in_windows ws (?s mod 86400)"
      using const [OF _ k(2)] k(1) by simp
    then show ?thesis
      unfolding c instant_counts_def parts local_parts_steady [OF clock order_refl t] by simp
  qed
  from counted_ms_constant [OF this] pos show "counted_ms zdb zone weekdays ws t (t + step) = (if c then step else 0)"
    by simp
qed

lemma window_loop_measures:
  assumes "steady_clock zdb zone t endMs off" and "t \<le> endMs" and "1000 dvd t" and "1000 dvd endMs"
  shows "t \<le> fst (window_loop zdb zone weekdays ws endMs n t ms) \<and>
    snd (window_loop zdb zone weekdays ws endMs n t ms) =
      ms + counted_ms zdb zone weekdays ws t (fst (window_loop zdb zone weekdays ws endMs n t ms))"
  using assms
proof (induction n arbitrary: t ms)
  case 0
  then show ?case by (simp add: counted_ms_def)
next
  case (Suc n)
  show ?case
  proof (cases "t < endMs")
    case False
    then show ?thesis by (simp add: counted_ms_def)
  next
    case True
    obtain step c where step: "window_step zdb zone weekdays ws endMs t = (step, c)"
      by (cases "window_step zdb zone weekdays ws endMs t")
    note w = window_step_counts [OF Suc.prems(1) True Suc.prems(3,4) step]
    have "steady_clock zdb zone (t + step) endMs off"
      using w by (intro steady_clock_later [OF Suc.prems(1)]) simp
    note ih = Suc.IH [OF this w(2,3) Suc.prems(4)]
    show ?thesis
      using True step w(1,4) ih [of "if c then ms + step else ms"]
        counted_ms_split [of t "t + step" "fst (window_loop zdb zone weekdays ws endMs n (t + step) (if c then ms + step else ms))"]
      by auto
  qed
qed

section \<open>Properties\<close>

lemma counted_ms_no_windows [simp]: "counted_ms zdb zone weekdays [] a b = 0"
  by (simp add: counted_ms_def instant_counts_def [abs_def] in_windows_def)

lemma counted_ms_empty [simp]: "counted_ms zdb zone weekdays ws a a = 0"
  by (simp add: counted_ms_def)

lemma length_parse_windows: "length (parse_windows hours) \<le> 2 * length hours + 1"
proof -
  have one: "length (parse_window h) \<le> 2" for h
    by (simp add: parse_window_def Let_def split: option.split)
  have "length (concat (map parse_window hs)) \<le> 2 * length hs" for hs
  proof (induction hs)
    case (Cons h hs)
    then show ?case using one [of h] by simp
  qed simp
  then show ?thesis by (simp add: parse_windows_def le_SucI)
qed

text \<open>The guard covers a session: its days times the edges of a day, for the configured hours.\<close>

definition guard_covers :: "window_spec \<Rightarrow> int \<Rightarrow> bool" where
  "guard_covers spec minutes \<longleftrightarrow> (4 * int (length (ws_hours spec)) + 3) * (minutes div 1440 + 2) \<le> 1000"

lemma session_loop_ends:
  assumes "steady_clock zdb zone (endMs - minutes * MINUTE_MS) endMs off" and "0 \<le> minutes"
    and "guard_covers spec minutes"
  shows "fst (window_loop zdb zone weekdays (parse_windows (ws_hours spec)) endMs LOOP_GUARD
    (endMs - minutes * MINUTE_MS) 0) = endMs"
proof (rule window_loop_ends [OF assms(1)])
  let ?t = "endMs - minutes * MINUTE_MS" and ?ws = "parse_windows (ws_hours spec)"
  show "?t \<le> endMs" using assms(2) by (simp add: MINUTE_MS_def)
  have "endMs div 1000 = (?t + minutes * 60 * 1000) div 1000" by (simp add: MINUTE_MS_def)
  also have "\<dots> = ?t div 1000 + minutes * 60"
    using div_mult_self1 [of 1000 ?t "minutes * 60"] by (simp only: add.commute)
  finally have "endMs div 1000 + off = ?t div 1000 + off + 60 * minutes" by simp
  note edge_rank_bound [OF this assms(2), of ?ws]
  also have "(2 * int (length ?ws) + 1) * (minutes div 1440 + 2) \<le>
      (4 * int (length (ws_hours spec)) + 3) * (minutes div 1440 + 2)"
    using length_parse_windows [of "ws_hours spec"] assms(2)
    by (intro mult_right_mono) (auto simp: pos_imp_zdiv_nonneg_iff)
  finally show "?t < endMs \<longrightarrow>
      edge_rank ?ws (endMs div 1000 + off) - edge_rank ?ws (?t div 1000 + off) < int LOOP_GUARD"
    using assms(3) by (simp add: guard_covers_def LOOP_GUARD_def)
qed

lemma session_minutes_counted:
  assumes clock: "steady_clock zdb zone (endMs - minutes * MINUTE_MS) endMs off"
    and known: "zdb (zone_or_utc zone) \<noteq> None"
    and minutes: "0 \<le> minutes" and whole: "1000 dvd endMs" and guard: "guard_covers spec minutes"
  shows "session_minutes_inside_window zdb (At endMs) minutes spec zone =
    Some (round_div (counted_ms zdb zone (ws_weekdays spec) (parse_windows (ws_hours spec))
          (endMs - minutes * MINUTE_MS) endMs) MINUTE_MS)"
proof (cases "minutes = 0 \<or> parse_windows (ws_hours spec) = []")
  case True
  then show ?thesis
    using minutes by (auto simp: session_minutes_inside_window_def Let_def MINUTE_MS_def)
next
  case False
  have "endMs - minutes * MINUTE_MS \<le> endMs" "1000 dvd endMs - minutes * MINUTE_MS"
    using minutes whole by (simp_all add: MINUTE_MS_def)
  from window_loop_measures [OF clock this whole] session_loop_ends [OF clock minutes guard] False known minutes
  show ?thesis by (simp add: session_minutes_inside_window_def Let_def max_absorb2)
qed

lemma minutes_range:
  assumes "0 \<le> minutes"
  shows "0 \<le> round_div (counted_ms zdb zone weekdays ws (endMs - minutes * MINUTE_MS) endMs) MINUTE_MS"
    and "round_div (counted_ms zdb zone weekdays ws (endMs - minutes * MINUTE_MS) endMs) MINUTE_MS \<le> minutes"
proof -
  let ?c = "counted_ms zdb zone weekdays ws (endMs - minutes * MINUTE_MS) endMs"
  have "?c \<le> minutes * MINUTE_MS"
    using counted_ms_le [of "endMs - minutes * MINUTE_MS" endMs] assms by (simp add: MINUTE_MS_def)
  then show "round_div ?c MINUTE_MS \<le> minutes"
    using round_div_mono [of ?c "minutes * MINUTE_MS" MINUTE_MS] by (simp add: MINUTE_MS_def)
  show "0 \<le> round_div ?c MINUTE_MS"
    by (simp add: round_div_nonneg counted_ms_def MINUTE_MS_def)
qed

text \<open>
  C33: The loop of \<open>sessionMinutesInsideWindow\<close> always gets to the end of the session: if the clock of
  the club is not changed during the session, and the window edges of a day times the days it touches
  are at most 1000, the guard never cuts a session short, however the windows overlap or wrap.
\<close>

theorem session_loop_reaches_end:
  assumes "steady_clock zdb zone (endMs - minutes * MINUTE_MS) endMs off" and "0 \<le> minutes"
    and "guard_covers spec minutes"
  shows "fst (window_loop zdb zone (ws_weekdays spec) (parse_windows (ws_hours spec)) endMs LOOP_GUARD
    (endMs - minutes * MINUTE_MS) 0) = endMs"
  using assms by (rule session_loop_ends)


text \<open>A session of 36 hours over two windows, the second of which wraps past midnight.\<close>

definition sample_window :: window_spec where
  "sample_window = \<lparr>ws_hours = [''08:00-17:00'', ''22:00-02:00''], ws_weekdays = [1, 2, 3, 4, 5]\<rparr>"

lemma moscow_steady: "steady_clock moscow_db (Some ''Europe/Moscow'') a b 10800"
  by (simp add: steady_clock_def zone_offset_def moscow_db_def zone_or_utc_def)

lemma sample_guard: "guard_covers sample_window 2160"
  by (simp add: guard_covers_def sample_window_def)

theorem session_loop_reaches_end_witness:
  "fst (window_loop moscow_db (Some ''Europe/Moscow'') [1, 2, 3, 4, 5]
     (parse_windows [''08:00-17:00'', ''22:00-02:00'']) 1790000000000 LOOP_GUARD
     (1790000000000 - 2160 * MINUTE_MS) 0) = 1790000000000"
  using session_loop_reaches_end [OF moscow_steady _ sample_guard] by (simp add: sample_window_def)

lemma sample_minutes:
  "session_minutes_inside_window moscow_db (At 1790000000000) 2160 sample_window (Some ''Europe/Moscow'') = Some 660"
  by code_simp


end
