(* ===== verification/Origin_Key.thy ===== *)
theory Origin_Key
  imports Js_Json Js_Number Tenant_Model
begin

text \<open>
  Keys of physical guest actions (\<open>guest-game-origin-key.ts\<close>). The same visit reaches the program from
  several adapters and parser runs; the keys decide which facts are one action, so that a session is
  counted and rewarded once.

  Parameters: \<open>url_host\<close> is \<open>new URL(text).hostname\<close> (\<open>None\<close> when the constructor throws), \<open>sha\<close> the
  hexadecimal SHA-256 digest. The lemmas that need it assume that \<open>sha\<close> does not collide on the two
  payloads at hand; everything else, in particular that the payload determines the identity, is proved.
\<close>

section \<open>Normal forms\<close>

text \<open>An identifier of unknown type: only texts and numbers have a normal form.\<close>

datatype id_value = Id_Text string | Id_Number int | Id_Other

fun id_text :: "string option \<Rightarrow> id_value" where
  "id_text None = Id_Other"
| "id_text (Some s) = Id_Text s"

definition non_empty :: "string \<Rightarrow> string option" where
  "non_empty s = (if s = [] then None else Some s)"

fun normalized_string :: "id_value \<Rightarrow> string option" where
  "normalized_string (Id_Text s) = non_empty (js_trim s)"
| "normalized_string (Id_Number n) = non_empty (js_trim (Js_Number.show_int n))"
| "normalized_string Id_Other = None"

definition normalized_upper :: "id_value \<Rightarrow> string option" where
  "normalized_upper v = map_option js_upper (normalized_string v)"

definition canonical_event_aliases :: "(string \<times> string) list" where
  "canonical_event_aliases =
     [(''SESSION_STARTED'', ''SESSION_START''), (''HOURLY_SESSION_STARTED'', ''SESSION_START''),
      (''PACKAGE_OR_SUBSCRIPTION_USED'', ''SESSION_START''), (''SESSION_START'', ''SESSION_START''),
      (''SESSION_ENDED'', ''SESSION_STOP''), (''SESSION_STOP'', ''SESSION_STOP''),
      (''SESSION_PLAY_TIME_ACCUMULATED'', ''PLAY_HOUR''),
      (''HOURLY_PLAY_TIME_ACCUMULATED'', ''PLAY_HOUR''),
      (''PACKAGE_OR_SUBSCRIPTION_PLAY_TIME_ACCUMULATED'', ''PLAY_HOUR''), (''PLAY_HOUR'', ''PLAY_HOUR''),
      (''PRODUCT_PURCHASED'', ''PRODUCT_PURCHASE''), (''PRODUCT_PURCHASE'', ''PRODUCT_PURCHASE''),
      (''BAR_PURCHASE'', ''PRODUCT_PURCHASE''), (''BALANCE_TOP_UP'', ''BALANCE_TOPUP''),
      (''BALANCE_TOPUP'', ''BALANCE_TOPUP'')]"

definition canonical_guest_game_event_type :: "id_value \<Rightarrow> string option" where
  "canonical_guest_game_event_type v =
     (case normalized_upper v of
        None \<Rightarrow> None
      | Some normalized \<Rightarrow> Some (get_or (map_of canonical_event_aliases normalized) normalized))"

text \<open>The family \<open>PLAY_TIME\<close>, or null.\<close>

definition canonical_guest_game_progress_family :: "id_value \<Rightarrow> bool" where
  "canonical_guest_game_progress_family v \<longleftrightarrow>
     canonical_guest_game_event_type v \<in> set [Some ''PLAY_HOUR'', Some ''SESSION_STOP'', Some ''PLAY_TIME'']"

definition normalize_guest_game_source_kind :: "id_value \<Rightarrow> string option" where
  "normalize_guest_game_source_kind v =
     (case normalized_upper v of
        None \<Rightarrow> None
      | Some normalized \<Rightarrow>
          Some (if normalized = ''GUEST_SESSION'' then ''LANGAME_GUEST_SESSION'' else normalized))"

definition starts_with_text :: "string \<Rightarrow> string \<Rightarrow> bool" where
  "starts_with_text p s \<longleftrightarrow> take (length p) s = p"

fun contains_text :: "string \<Rightarrow> string \<Rightarrow> bool" where
  "contains_text p [] = (p = [])"
| "contains_text p (c # s) = (starts_with_text p (c # s) \<or> contains_text p s)"

definition drop_last_dot :: "string \<Rightarrow> string" where
  "drop_last_dot s = (if s \<noteq> [] \<and> last s = CHR ''.'' then butlast s else s)"

definition drop_scheme :: "string \<Rightarrow> string" where
  "drop_scheme s =
     (if starts_with_text ''https://'' s then drop 8 s
      else if starts_with_text ''http://'' s then drop 7 s else s)"

definition normalize_guest_game_external_domain ::
  "(string \<Rightarrow> string option) \<Rightarrow> id_value \<Rightarrow> string option" where
  "normalize_guest_game_external_domain url_host v =
     (case map_option js_lower (normalized_string v) of
        None \<Rightarrow> None
      | Some normalized \<Rightarrow>
          (case url_host (if contains_text ''://'' normalized then normalized else ''https://'' @ normalized) of
             Some hostname \<Rightarrow> non_empty (drop_last_dot hostname)
           | None \<Rightarrow>
               non_empty (drop_last_dot
                 (takeWhile (\<lambda>c. c \<notin> set ''/?#'') (drop_scheme normalized)))))"

section \<open>Keys\<close>

record origin_input =
  oi_externalProvider :: "string option"
  oi_externalDomain :: "string option"
  oi_eventType :: "string option"
  oi_stableExternalId :: "string option"

record physical_input =
  pi_externalProvider :: "string option"
  pi_externalDomain :: "string option"
  pi_sourceKind :: "string option"
  pi_sessionExternalId :: "string option"
  pi_eventType :: "string option"

record physical_identity =
  ph_externalProvider :: string
  ph_externalDomain :: string
  ph_sourceKind :: string
  ph_sessionExternalId :: string
  ph_family :: string
  ph_key :: string

definition json_texts :: "string list \<Rightarrow> string" where
  "json_texts xs = json_stringify (O_Arr (map O_Str xs))"

definition build_guest_game_origin_key ::
  "(string \<Rightarrow> string option) \<Rightarrow> (string \<Rightarrow> string) \<Rightarrow> origin_input \<Rightarrow> string option" where
  "build_guest_game_origin_key url_host sha i = do {
     provider \<leftarrow> normalized_upper (id_text (oi_externalProvider i));
     domain \<leftarrow> normalize_guest_game_external_domain url_host (id_text (oi_externalDomain i));
     eventType \<leftarrow> canonical_guest_game_event_type (id_text (oi_eventType i));
     stableExternalId \<leftarrow> normalized_string (id_text (oi_stableExternalId i));
     Some (''ggo:v1:'' @ sha (json_texts [provider, domain, eventType, stableExternalId]))
   }"

definition physical_progress_digest ::
  "(string \<Rightarrow> string) \<Rightarrow> string \<Rightarrow> string \<Rightarrow> string \<Rightarrow> string \<Rightarrow> string \<Rightarrow> string" where
  "physical_progress_digest sha provider domain sourceKind sessionExternalId family =
     sha (json_texts [provider, domain, sourceKind, sessionExternalId, family])"

text \<open>The part the two builders share: the four normalised fields of a physical session.\<close>

definition physical_fields ::
  "(string \<Rightarrow> string option) \<Rightarrow> physical_input \<Rightarrow> (string \<times> string \<times> string \<times> string) option" where
  "physical_fields url_host i = do {
     provider \<leftarrow> normalized_upper (id_text (pi_externalProvider i));
     domain \<leftarrow> normalize_guest_game_external_domain url_host (id_text (pi_externalDomain i));
     sourceKind \<leftarrow> normalize_guest_game_source_kind (id_text (pi_sourceKind i));
     sessionExternalId \<leftarrow> normalized_string (id_text (pi_sessionExternalId i));
     Some (provider, domain, sourceKind, sessionExternalId)
   }"

definition build_guest_game_physical_progress_identity ::
  "(string \<Rightarrow> string option) \<Rightarrow> (string \<Rightarrow> string) \<Rightarrow> physical_input \<Rightarrow> physical_identity option" where
  "build_guest_game_physical_progress_identity url_host sha i =
     (case physical_fields url_host i of
        None \<Rightarrow> None
      | Some (p, d, k, s) \<Rightarrow>
          if \<not> canonical_guest_game_progress_family (id_text (pi_eventType i)) then None
          else Some \<lparr>ph_externalProvider = p, ph_externalDomain = d, ph_sourceKind = k,
                     ph_sessionExternalId = s, ph_family = ''PLAY_TIME'',
                     ph_key = ''ggp:v1:'' @ physical_progress_digest sha p d k s ''PLAY_TIME''\<rparr>)"

definition build_guest_game_physical_session_start_identity ::
  "(string \<Rightarrow> string option) \<Rightarrow> (string \<Rightarrow> string) \<Rightarrow> physical_input \<Rightarrow> physical_identity option" where
  "build_guest_game_physical_session_start_identity url_host sha i =
     (case physical_fields url_host i of
        None \<Rightarrow> None
      | Some (p, d, k, s) \<Rightarrow>
          if canonical_guest_game_event_type (id_text (pi_eventType i)) \<noteq> Some ''SESSION_START'' then None
          else Some \<lparr>ph_externalProvider = p, ph_externalDomain = d, ph_sourceKind = k,
                     ph_sessionExternalId = s, ph_family = ''SESSION_START'',
                     ph_key = ''ggs:v1:'' @ physical_progress_digest sha p d k s ''SESSION_START''\<rparr>)"

definition build_guest_game_play_time_origin_key ::
  "(string \<Rightarrow> string option) \<Rightarrow> (string \<Rightarrow> string) \<Rightarrow> physical_input \<Rightarrow> string option" where
  "build_guest_game_play_time_origin_key url_host sha i =
     (case build_guest_game_physical_progress_identity url_host sha i of
        None \<Rightarrow> None
      | Some x \<Rightarrow> Some (''ggo:v2:'' @ physical_progress_digest sha (ph_externalProvider x)
          (ph_externalDomain x) (ph_sourceKind x) (ph_sessionExternalId x) (ph_family x)))"

definition build_guest_game_reward_idempotency_key ::
  "(string \<Rightarrow> string) \<Rightarrow> string option \<Rightarrow> string option \<Rightarrow> string option \<Rightarrow> id_value \<Rightarrow> string option" where
  "build_guest_game_reward_idempotency_key sha origin kind rule slot = do {
     originKey \<leftarrow> normalized_string (id_text origin);
     ruleKind \<leftarrow> normalized_upper (id_text kind);
     ruleId \<leftarrow> normalized_string (id_text rule);
     Some (''ggr:v1:'' @
       sha (json_texts [originKey, ruleKind, ruleId, get_or (normalized_string slot) ''default'']))
   }"

section \<open>What a key identifies\<close>

lemma json_texts_eq [simp]: "length xs = length ys \<Longrightarrow> json_texts xs = json_texts ys \<longleftrightarrow> xs = ys"
  using json_texts_inject [of xs ys] by (auto simp: json_texts_def)

definition identity_payload :: "physical_identity \<Rightarrow> string" where
  "identity_payload x =
     json_texts [ph_externalProvider x, ph_externalDomain x, ph_sourceKind x, ph_sessionExternalId x, ph_family x]"

definition identity_fields :: "physical_identity \<Rightarrow> string \<times> string \<times> string \<times> string" where
  "identity_fields x = (ph_externalProvider x, ph_externalDomain x, ph_sourceKind x, ph_sessionExternalId x)"

text \<open>No collision of the digest among some payloads.\<close>

definition collision_free :: "(string \<Rightarrow> string) \<Rightarrow> string list \<Rightarrow> bool" where
  "collision_free sha payloads \<longleftrightarrow>
     list_all (\<lambda>a. list_all (\<lambda>b. sha a = sha b \<longrightarrow> a = b) payloads) payloads"

lemma collision_free_eq:
  "collision_free sha [a, b] \<Longrightarrow> sha a = sha b \<longleftrightarrow> a = b"
  by (auto simp: collision_free_def)

lemma progress_identity_SomeD:
  assumes "build_guest_game_physical_progress_identity url_host sha i = Some a"
  shows "physical_fields url_host i = Some (identity_fields a)"
    and "ph_key a = ''ggp:v1:'' @ sha (identity_payload a)" and "ph_family a = ''PLAY_TIME''"
    and "canonical_guest_game_progress_family (id_text (pi_eventType i))"
  using assms
  by (auto simp: build_guest_game_physical_progress_identity_def identity_fields_def identity_payload_def
      physical_progress_digest_def split: option.splits if_splits prod.splits)

lemma start_identity_SomeD:
  assumes "build_guest_game_physical_session_start_identity url_host sha i = Some a"
  shows "ph_key a = ''ggs:v1:'' @ sha (identity_payload a)"
  using assms
  by (auto simp: build_guest_game_physical_session_start_identity_def identity_fields_def identity_payload_def
      physical_progress_digest_def split: option.splits if_splits prod.splits)

lemma progress_identity_other_event:
  assumes "build_guest_game_physical_progress_identity url_host sha i = Some a"
    and "canonical_guest_game_progress_family (id_text event)"
  shows "build_guest_game_physical_progress_identity url_host sha (i\<lparr>pi_eventType := event\<rparr>) = Some a"
  using assms
  by (auto simp: build_guest_game_physical_progress_identity_def physical_fields_def
      split: option.splits if_splits prod.splits)

text \<open>
  C31: Two play-time facts get one progress key exactly when provider, domain, source and session agree
  in their normal forms; the name under which an adapter reports the play time does not matter, and no
  session start ever has the key of a play-time fact. The play-time origin key separates the same facts.
\<close>

theorem play_time_key_identifies_session:
  assumes "build_guest_game_physical_progress_identity url_host sha i = Some a"
    and "build_guest_game_physical_progress_identity url_host sha j = Some b"
    and "collision_free sha [identity_payload a, identity_payload b]"
  shows "(ph_key a = ph_key b \<longleftrightarrow> physical_fields url_host i = physical_fields url_host j) \<and>
    (build_guest_game_play_time_origin_key url_host sha i = build_guest_game_play_time_origin_key url_host sha j
       \<longleftrightarrow> physical_fields url_host i = physical_fields url_host j) \<and>
    (canonical_guest_game_progress_family (id_text event) \<longrightarrow>
       build_guest_game_physical_progress_identity url_host sha (i\<lparr>pi_eventType := event\<rparr>) = Some a) \<and>
    (build_guest_game_physical_session_start_identity url_host sha j = Some c \<longrightarrow> ph_key c \<noteq> ph_key a)"
proof (intro conjI impI)
  note a = progress_identity_SomeD [OF assms(1)] and b = progress_identity_SomeD [OF assms(2)]
  have same: "sha (identity_payload a) = sha (identity_payload b) \<longleftrightarrow>
      physical_fields url_host i = physical_fields url_host j"
    using collision_free_eq [OF assms(3)] a b by (simp add: identity_payload_def identity_fields_def)
  then show "ph_key a = ph_key b \<longleftrightarrow> physical_fields url_host i = physical_fields url_host j"
    using a b by simp
  show "build_guest_game_play_time_origin_key url_host sha i = build_guest_game_play_time_origin_key url_host sha j
      \<longleftrightarrow> physical_fields url_host i = physical_fields url_host j"
    using same by (simp add: build_guest_game_play_time_origin_key_def assms physical_progress_digest_def
        identity_payload_def)
  show "build_guest_game_physical_progress_identity url_host sha (i\<lparr>pi_eventType := event\<rparr>) = Some a"
    if "canonical_guest_game_progress_family (id_text event)"
    using progress_identity_other_event [OF assms(1) that] .
  show "ph_key c \<noteq> ph_key a"
    if "build_guest_game_physical_session_start_identity url_host sha j = Some c"
    using start_identity_SomeD [OF that] a by simp
qed

definition sample_fact :: "string \<Rightarrow> string \<Rightarrow> physical_input" where
  "sample_fact domain event =
     \<lparr>pi_externalProvider = Some ''langame'', pi_externalDomain = Some domain,
      pi_sourceKind = Some ''guest_session'', pi_sessionExternalId = Some '' 77 '', pi_eventType = Some event\<rparr>"

lemma sample_identity:
  "build_guest_game_physical_progress_identity (\<lambda>_. None) id (sample_fact ''HTTPS://Club.example.com./x'' ''PLAY_HOUR'') =
     Some \<lparr>ph_externalProvider = ''LANGAME'', ph_externalDomain = ''club.example.com'',
           ph_sourceKind = ''LANGAME_GUEST_SESSION'', ph_sessionExternalId = ''77'', ph_family = ''PLAY_TIME'',
           ph_key = ''ggp:v1:'' @ json_texts [''LANGAME'', ''club.example.com'', ''LANGAME_GUEST_SESSION'', ''77'', ''PLAY_TIME'']\<rparr>"
  "build_guest_game_physical_progress_identity (\<lambda>_. None) id (sample_fact ''club.example.com'' ''session_stop'') =
     Some \<lparr>ph_externalProvider = ''LANGAME'', ph_externalDomain = ''club.example.com'',
           ph_sourceKind = ''LANGAME_GUEST_SESSION'', ph_sessionExternalId = ''77'', ph_family = ''PLAY_TIME'',
           ph_key = ''ggp:v1:'' @ json_texts [''LANGAME'', ''club.example.com'', ''LANGAME_GUEST_SESSION'', ''77'', ''PLAY_TIME'']\<rparr>"
  by code_simp+

theorem play_time_key_identifies_session_witness:
  "build_guest_game_play_time_origin_key (\<lambda>_. None) id (sample_fact ''HTTPS://Club.example.com./x'' ''PLAY_HOUR'') =
   build_guest_game_play_time_origin_key (\<lambda>_. None) id (sample_fact ''club.example.com'' ''session_stop'')"
  using play_time_key_identifies_session [OF sample_identity]
  by (simp add: collision_free_def sample_identity progress_identity_SomeD(1) [OF sample_identity(1)]
      progress_identity_SomeD(1) [OF sample_identity(2)] identity_fields_def)

end
