(* ===== verification/Game_Progress.thy ===== *)
theory Game_Progress
  imports Session_Window Origin_Key Js_Sort
begin

text \<open>
  Progress of a guest towards a mission, a season step or a case (\<open>guest-game-progress.ts\<close>): the events of
  one guest are reduced to physical actions, filtered by the conditions of the rule, and aggregated.

  Settings are the JSON the rules are stored with (\<open>js_value\<close>); a date of a rule is a \<open>Date\<close> or a text.
  Dates of events are valid instants, amounts are rationals, texts are ASCII: the Cyrillic alias of a
  session type is outside the model. A calendar day is the civil date that the \<open>en-CA\<close> format writes,
  for years of four digits. \<open>now\<close> is the \<open>new Date()\<close> used when there is no current event. \<open>Intl\<close>
  throws on an unknown time zone: the evaluation is then \<open>None\<close>.
\<close>

section \<open>Data\<close>

datatype aggregation = AGG_COUNT | AGG_SUM | AGG_DURATION | AGG_DISTINCT_DAYS | AGG_EXISTS | AGG_STREAK

datatype periodicity = DAILY | WEEKLY | MONTHLY

datatype date_value = Date_Value jsdate | Date_Text string | No_Date

record progress_event =
  pe_eventType :: string
  pe_occurredAt :: int
  pe_sourceFactId :: "string option"
  pe_externalProvider :: "string option"
  pe_sourceKind :: "string option"
  pe_sessionExternalId :: "string option"
  pe_storeId :: "string option"
  pe_externalDomain :: "string option"
  pe_sessionType :: "string option"
  pe_sessionPacket :: "bool option"
  pe_sessionMinutes :: "int option"
  pe_spendAmount :: "rat option"
  pe_tariffGroupId :: "string option"
  pe_tariffPeriodId :: "string option"
  pe_tariffTypeId :: "string option"
  pe_guestLogType :: "string option"
  pe_productId :: "string option"
  pe_externalProductId :: "string option"
  pe_externalCategoryKey :: "string option"
  pe_categoryId :: "string option"
  pe_categoryName :: "string option"

text \<open>An absent list of stores or domains is the empty one: both are only tested with \<open>?.length\<close> and \<open>?.includes\<close>.\<close>

record progress_rule =
  pr_triggerKind :: string
  pr_progressTarget :: "rat option"
  pr_progressUnit :: "string option"
  pr_conditions :: js_value
  pr_storeIds :: "string list"
  pr_externalDomains :: "string list"
  pr_periodFrom :: date_value
  pr_periodTo :: date_value
  pr_timeZone :: "string option"
  pr_repeatPeriodicity :: "periodicity option"
  pr_repeatCompletedAt :: date_value

record progress_result =
  pg_applicable :: bool
  pg_aggregation :: aggregation
  pg_current :: rat
  pg_target :: rat
  pg_percent :: int
  pg_completed :: bool
  pg_matchedEvents :: nat
  pg_unit :: "string option"
  pg_windowDays :: "rat option"
  pg_repeatCycleReset :: bool

definition DEFAULT_WINDOW_DAYS :: rat where "DEFAULT_WINDOW_DAYS = 365"

definition SESSION_DURATION_EVENT_TYPES :: "string list" where
  "SESSION_DURATION_EVENT_TYPES = [''PLAY_HOUR'', ''SESSION_STOP'']"

section \<open>Values\<close>

fun progress_record :: "js_value \<Rightarrow> js_record" where
  "progress_record (JObj o1) = o1"
| "progress_record _ = []"

fun progress_string :: "js_value \<Rightarrow> string option" where
  "progress_string (JStr s) = non_empty (js_trim s)"
| "progress_string _ = None"

fun progress_string_value :: "js_value \<Rightarrow> string list" where
  "progress_string_value (JArr vs) = List.map_filter progress_string vs"
| "progress_string_value v = (case progress_string v of None \<Rightarrow> [] | Some s \<Rightarrow> [s])"

definition progress_string_values :: "js_value list \<Rightarrow> string list" where
  "progress_string_values vs = concat (map progress_string_value vs)"

fun progress_number :: "js_value \<Rightarrow> rat option" where
  "progress_number (JNum q) = Some q"
| "progress_number (JStr s) = (if js_trim s \<noteq> [] then number_of_text s else None)"
| "progress_number _ = None"

fun progress_number_array :: "js_value \<Rightarrow> rat list" where
  "progress_number_array (JArr vs) = List.map_filter progress_number vs"
| "progress_number_array _ = []"

definition normalize_progress_token :: "string option \<Rightarrow> string" where
  "normalize_progress_token v = (case v of None \<Rightarrow> [] | Some s \<Rightarrow> js_upper (js_trim s))"

definition date_of :: "(string \<Rightarrow> jsdate) \<Rightarrow> date_value \<Rightarrow> int option" where
  "date_of legacy v =
     (case v of
        Date_Value (At t) \<Rightarrow> Some t
      | Date_Text s \<Rightarrow>
          if js_trim s \<noteq> [] then (case js_parse_date legacy s of At t \<Rightarrow> Some t | Invalid_Date \<Rightarrow> None) else None
      | _ \<Rightarrow> None)"

definition round_progress :: "rat \<Rightarrow> rat" where
  "round_progress v = of_int (js_round (v * 100)) / 100"

definition progress_percent :: "rat \<Rightarrow> rat \<Rightarrow> int" where
  "progress_percent current target =
     (if target \<le> 0 then 0 else max 0 (min 100 (js_round (current / target * 100))))"

definition progress_aggregation :: "string option \<Rightarrow> string option \<Rightarrow> aggregation" where
  "progress_aggregation v checkInMode =
     (if normalize_progress_token checkInMode = ''STREAK'' then AGG_STREAK
      else if v = Some ''sum'' then AGG_SUM
      else if v = Some ''duration'' then AGG_DURATION
      else if v = Some ''distinctDays'' \<or> v = Some ''distinct_days'' then AGG_DISTINCT_DAYS
      else if v = Some ''exists'' then AGG_EXISTS
      else if v = Some ''streak'' then AGG_STREAK
      else AGG_COUNT)"

fun guest_game_progress_periodicity :: "js_value \<Rightarrow> periodicity option" where
  "guest_game_progress_periodicity (JStr s) =
     (let normalized = js_upper (js_trim s)
      in if normalized = ''DAILY'' then Some DAILY else if normalized = ''WEEKLY'' then Some WEEKLY
         else if normalized = ''MONTHLY'' then Some MONTHLY else None)"
| "guest_game_progress_periodicity _ = None"

section \<open>Local calendar\<close>

definition local_date_key :: "zone_db \<Rightarrow> string option \<Rightarrow> int \<Rightarrow> civil" where
  "local_date_key zdb zone t =
     (let w = zoned_parts zdb (zone_or_utc zone) t
      in \<lparr>c_year = w_year w, c_month = w_month w, c_day = w_day w\<rparr>)"

definition local_month_key :: "zone_db \<Rightarrow> string option \<Rightarrow> int \<Rightarrow> int \<times> int" where
  "local_month_key zdb zone t =
     (let k = local_date_key zdb zone t in (c_year k, c_month k))"

definition local_weekday :: "zone_db \<Rightarrow> string option \<Rightarrow> int \<Rightarrow> int" where
  "local_weekday zdb zone t = lo_weekday (local_parts zdb zone t)"

definition local_time_minutes :: "zone_db \<Rightarrow> string option \<Rightarrow> int \<Rightarrow> int" where
  "local_time_minutes zdb zone t =
     (let w = zoned_parts zdb (zone_or_utc zone) t in w_hour w * 60 + w_minute w)"

text \<open>\<open>Date.parse(`${key}T00:00:00Z`)\<close>.\<close>

definition day_start :: "civil \<Rightarrow> int" where
  "day_start k = date_utc (c_year k) (c_month k - 1) (c_day k) 0 0 0"

text \<open>Without a dash \<open>to\<close> is \<open>undefined\<close>, which is not \<open>null\<close> and never reached: the window has no end.\<close>

definition is_within_time_window :: "zone_db \<Rightarrow> int \<Rightarrow> string \<Rightarrow> string option \<Rightarrow> bool" where
  "is_within_time_window zdb t window zone =
     (let current = local_time_minutes zdb zone t
      in case map (\<lambda>p. time_to_minutes (Some p)) (split_on (CHR ''-'') window) of
           [Some from] \<Rightarrow> from \<le> current
         | Some from # Some to # _ \<Rightarrow>
             (if from \<le> to then from \<le> current \<and> current \<le> to else from \<le> current \<or> current \<le> to)
         | _ \<Rightarrow> False)"

definition date_within_bounds :: "(string \<Rightarrow> jsdate) \<Rightarrow> int \<Rightarrow> date_value \<Rightarrow> date_value \<Rightarrow> bool" where
  "date_within_bounds legacy t from to \<longleftrightarrow>
     (case date_of legacy from of None \<Rightarrow> True | Some f \<Rightarrow> f \<le> t) \<and>
     (case date_of legacy to of None \<Rightarrow> True | Some u \<Rightarrow> t \<le> u)"

definition date_within_last_days :: "int \<Rightarrow> int \<Rightarrow> rat \<Rightarrow> bool" where
  "date_within_last_days t reference days \<longleftrightarrow>
     days \<le> 0 \<or> (let diffMs = reference - t in 0 \<le> diffMs \<and> of_int diffMs \<le> days * 24 * 60 * 60 * 1000)"

definition in_repeat_period ::
  "zone_db \<Rightarrow> int \<Rightarrow> int \<Rightarrow> periodicity option \<Rightarrow> string option \<Rightarrow> bool" where
  "in_repeat_period zdb t reference p zone =
     (case p of
        None \<Rightarrow> False
      | Some p \<Rightarrow>
          if reference < t then False
          else (case p of
             DAILY \<Rightarrow> local_date_key zdb zone t = local_date_key zdb zone reference
           | MONTHLY \<Rightarrow> local_month_key zdb zone t = local_month_key zdb zone reference
           | WEEKLY \<Rightarrow> reference - t < 7 * 24 * 60 * 60 * 1000))"

definition guest_game_repeat_cycle_reset ::
  "zone_db \<Rightarrow> (string \<Rightarrow> jsdate) \<Rightarrow> date_value \<Rightarrow> int \<Rightarrow> periodicity option \<Rightarrow> string option \<Rightarrow> bool" where
  "guest_game_repeat_cycle_reset zdb legacy completedAt reference p zone =
     (case date_of legacy completedAt of
        None \<Rightarrow> False
      | Some completed \<Rightarrow> p \<noteq> None \<and> \<not> in_repeat_period zdb completed reference p zone)"

section \<open>Physical actions\<close>

definition strong_identity ::
  "(string \<Rightarrow> string option) \<Rightarrow> (string \<Rightarrow> string) \<Rightarrow> progress_event \<Rightarrow> string option" where
  "strong_identity url_host sha e =
     map_option ph_key (build_guest_game_physical_progress_identity url_host sha
       \<lparr>pi_externalProvider = pe_externalProvider e, pi_externalDomain = pe_externalDomain e,
        pi_sourceKind = pe_sourceKind e, pi_sessionExternalId = pe_sessionExternalId e,
        pi_eventType = Some (pe_eventType e)\<rparr>)"

text \<open>The suffix \<open>/:classification:package(?:[-_]?v)?\d+$/i\<close>.\<close>

definition all_digits :: "string \<Rightarrow> bool" where
  "all_digits s \<longleftrightarrow> s \<noteq> [] \<and> list_all (\<lambda>c. char_digit c \<noteq> None) s"

definition is_package_version :: "string \<Rightarrow> bool" where
  "is_package_version s \<longleftrightarrow>
     (let t = js_lower s; p = '':classification:package''
      in starts_with_text p t \<and>
         (let r = drop (length p) t
          in all_digits r \<or>
             (\<exists>v\<in>set [''v'', ''-v'', ''_v'']. starts_with_text v r \<and> all_digits (drop (length v) r))))"

fun drop_package_version :: "string \<Rightarrow> string" where
  "drop_package_version [] = []"
| "drop_package_version (c # s) =
     (if is_package_version (c # s) then [] else c # drop_package_version s)"

definition physical_source_fact_id :: "string option \<Rightarrow> string option" where
  "physical_source_fact_id v =
     (case trim_or_none v of None \<Rightarrow> None | Some normalized \<Rightarrow> Some (drop_package_version normalized))"

text \<open>\<open>replace(/\s+/g, '_')\<close>.\<close>

fun spaces_to_underscore :: "string \<Rightarrow> string" where
  "spaces_to_underscore [] = []"
| "spaces_to_underscore [c] = [if is_ws c then CHR ''_'' else c]"
| "spaces_to_underscore (c # d # s) =
     (if is_ws c then
        (if is_ws d then spaces_to_underscore (d # s) else CHR ''_'' # spaces_to_underscore (d # s))
      else c # spaces_to_underscore (d # s))"

definition normalize_progress_session_type :: "string option \<Rightarrow> string option" where
  "normalize_progress_session_type v =
     (let normalized = spaces_to_underscore (js_lower (js_trim (get_or v [])))
      in if normalized \<in> set [''packet_hours'', ''packet'', ''package'', ''package_hours'',
             ''package_or_subscription'', ''package_or_subscription_session'', ''subscription'',
             ''membership'', ''abonement'', ''abonnement''] then Some ''packet_hours''
         else if normalized \<in> set [''regular_session'', ''regular'', ''common'', ''default'', ''hourly'',
             ''hourly_session''] then Some ''regular_session''
         else non_empty normalized)"

definition is_package_classification :: "progress_event \<Rightarrow> bool" where
  "is_package_classification e \<longleftrightarrow>
     pe_sessionPacket e = Some True \<or> normalize_progress_session_type (pe_sessionType e) = Some ''packet_hours''"

record candidate =
  ca_event :: progress_event
  ca_current :: bool

definition progress_event_preferred :: "candidate \<Rightarrow> candidate \<Rightarrow> bool" where
  "progress_event_preferred c selected =
     (if ca_current c \<noteq> ca_current selected then ca_current c
      else if is_package_classification (ca_event c) \<noteq> is_package_classification (ca_event selected)
      then is_package_classification (ca_event c)
      else pe_occurredAt (ca_event selected) < pe_occurredAt (ca_event c))"

definition keep_preferred :: "candidate \<Rightarrow> candidate \<Rightarrow> candidate" where
  "keep_preferred c selected = (if progress_event_preferred c selected then c else selected)"

text \<open>A group of facts about one physical session: the selected fact and the ids of its source facts.\<close>

record strong_group =
  sg_selected :: candidate
  sg_factIds :: "string list"

type_synonym groups = "(string \<times> strong_group) list"

definition candidate_fact :: "candidate \<Rightarrow> string option" where
  "candidate_fact c = physical_source_fact_id (pe_sourceFactId (ca_event c))"

definition add_fact :: "string option \<Rightarrow> string list \<Rightarrow> string list" where
  "add_fact f ids = (case f of None \<Rightarrow> ids | Some i \<Rightarrow> if i \<in> set ids then ids else ids @ [i])"

text \<open>The first loop: candidates with a strong identity are grouped, the others are kept.\<close>

fun group_strong ::
  "(progress_event \<Rightarrow> string option) \<Rightarrow> candidate list \<Rightarrow> groups \<Rightarrow> candidate list \<Rightarrow> groups \<times> candidate list" where
  "group_strong key [] groups weak = (groups, weak)"
| "group_strong key (c # cs) groups weak =
     (case key (ca_event c) of
        None \<Rightarrow> group_strong key cs groups (weak @ [c])
      | Some k \<Rightarrow>
          (case map_of groups k of
             None \<Rightarrow> group_strong key cs
               (AList.update k \<lparr>sg_selected = c, sg_factIds = add_fact (candidate_fact c) []\<rparr> groups) weak
           | Some g \<Rightarrow> group_strong key cs
               (AList.update k \<lparr>sg_selected = keep_preferred c (sg_selected g),
                                sg_factIds = add_fact (candidate_fact c) (sg_factIds g)\<rparr> groups) weak))"

text \<open>The second loop: a fact without identity joins the only group that has its source fact.\<close>

fun merge_legacy ::
  "candidate list \<Rightarrow> groups \<Rightarrow> candidate list \<Rightarrow> progress_event list \<Rightarrow>
   groups \<times> candidate list \<times> progress_event list" where
  "merge_legacy [] groups unmerged plain = (groups, unmerged, plain)"
| "merge_legacy (c # cs) groups unmerged plain =
     (case candidate_fact c of
        None \<Rightarrow> merge_legacy cs groups unmerged (plain @ [ca_event c])
      | Some f \<Rightarrow>
          (case filter (\<lambda>(_, g). f \<in> set (sg_factIds g)) groups of
             [(k, g)] \<Rightarrow>
               merge_legacy cs (AList.update k (g\<lparr>sg_selected := keep_preferred c (sg_selected g)\<rparr>) groups) unmerged plain
           | _ \<Rightarrow> merge_legacy cs groups (unmerged @ [c]) plain))"

text \<open>The third loop: the remaining facts, one for each source fact.\<close>

fun select_legacy ::
  "candidate list \<Rightarrow> (string \<times> candidate) list \<Rightarrow> progress_event list \<Rightarrow>
   (string \<times> candidate) list \<times> progress_event list" where
  "select_legacy [] legacy plain = (legacy, plain)"
| "select_legacy (c # cs) legacy plain =
     (case candidate_fact c of
        None \<Rightarrow> select_legacy cs legacy (plain @ [ca_event c])
      | Some f \<Rightarrow>
          (case map_of legacy f of
             None \<Rightarrow> select_legacy cs (AList.update f c legacy) plain
           | Some selected \<Rightarrow> select_legacy cs (AList.update f (keep_preferred c selected) legacy) plain))"

definition progress_candidates :: "progress_event option \<Rightarrow> progress_event list \<Rightarrow> candidate list" where
  "progress_candidates current history =
     map (\<lambda>e. \<lparr>ca_event = e, ca_current = False\<rparr>) history @
     (case current of None \<Rightarrow> [] | Some e \<Rightarrow> [\<lparr>ca_event = e, ca_current = True\<rparr>])"

definition dedupe_progress_events ::
  "(progress_event \<Rightarrow> string option) \<Rightarrow> progress_event option \<Rightarrow> progress_event list \<Rightarrow> progress_event list" where
  "dedupe_progress_events key current history =
     (let (groups1, weak) = group_strong key (progress_candidates current history) [] [];
          (groups2, unmerged, plain1) = merge_legacy weak groups1 [] [];
          (legacy, plain2) = select_legacy unmerged [] plain1
      in map (\<lambda>(_, g). ca_event (sg_selected g)) groups2 @ map (\<lambda>(_, c). ca_event c) legacy @ plain2)"

section \<open>Conditions of a rule\<close>

definition trigger_aliases :: "(string \<times> string list) list" where
  "trigger_aliases =
     [(''VISIT'', [''SESSION_START'', ''CHECK_IN'', ''GUEST_LOG'']),
      (''REPEAT_VISIT'', [''SESSION_START'', ''CHECK_IN'', ''VISIT'']),
      (''CHECK_IN'', [''CHECK_IN'']),
      (''APP_OPEN'', [''APP_OPEN'']),
      (''PLAY_HOUR'', [''PLAY_HOUR'', ''SESSION_STOP'']),
      (''SESSION'', [''SESSION_START'', ''PLAY_HOUR'', ''SESSION_STOP'']),
      (''BAR_PURCHASE'', [''PRODUCT_PURCHASE'', ''BAR_PURCHASE'']),
      (''PRODUCT_PURCHASE'', [''PRODUCT_PURCHASE'', ''BAR_PURCHASE'']),
      (''BALANCE_TOPUP'', [''BALANCE_TOPUP'', ''BALANCE_TOP_UP'']),
      (''BALANCE_TOP_UP'', [''BALANCE_TOPUP'', ''BALANCE_TOP_UP'']),
      (''REFERRAL'', [''REFERRAL_ACCEPTED'', ''GAME_REFERRAL_ACCEPTED'']),
      (''REFERRAL_ACCEPTED'', [''REFERRAL_ACCEPTED'', ''GAME_REFERRAL_ACCEPTED'']),
      (''PACKET_SESSION'', [''SESSION_START'', ''PLAY_HOUR''])]"

definition guest_game_trigger_matches :: "string option \<Rightarrow> string option \<Rightarrow> bool" where
  "guest_game_trigger_matches expected_value actual_value =
     (let expected = normalize_progress_token expected_value; actual = normalize_progress_token actual_value
      in expected = [] \<or> actual = [] \<or> expected = actual \<or>
         actual \<in> set (get_or (map_of trigger_aliases expected) []))"

text \<open>The setting of a metric, or else that of the conditions.\<close>

definition setting :: "js_record \<Rightarrow> js_record \<Rightarrow> string \<Rightarrow> js_value" where
  "setting metric conditions k = js_or (js_prop metric k) (js_prop conditions k)"

definition matches_one_of :: "string list \<Rightarrow> string option \<Rightarrow> bool" where
  "matches_one_of vs actual \<longleftrightarrow>
     vs = [] \<or> (case actual of None \<Rightarrow> False | Some a \<Rightarrow> a \<noteq> [] \<and> a \<in> set vs)"

definition matches_weekdays ::
  "zone_db \<Rightarrow> js_record \<Rightarrow> js_record \<Rightarrow> int \<Rightarrow> string option \<Rightarrow> bool" where
  "matches_weekdays zdb conditions metric t zone =
     (let weekdays = progress_number_array (setting metric conditions ''weekdays'');
          weekdayMode = normalize_progress_token (progress_string (setting metric conditions ''weekdayMode''));
          weekdaysOnly = (js_prop metric ''weekdaysOnly'' = JBool True \<or>
                          js_prop conditions ''weekdaysOnly'' = JBool True);
          expected = (if weekdayMode = ''WEEKDAYS'' \<or> weekdaysOnly then [1, 2, 3, 4, 5]
                      else if weekdayMode = ''WEEKENDS'' then [0, 6] else weekdays)
      in expected = [] \<or> of_int (local_weekday zdb zone t) \<in> set expected)"

definition matches_hours ::
  "zone_db \<Rightarrow> js_record \<Rightarrow> js_record \<Rightarrow> int \<Rightarrow> string option \<Rightarrow> bool" where
  "matches_hours zdb conditions metric t zone =
     (let hours = progress_string_values [js_prop metric ''hours'', js_prop conditions ''hours'']
      in hours = [] \<or> (\<exists>window\<in>set hours. is_within_time_window zdb t window zone))"

definition is_actionable_session_type :: "string option \<Rightarrow> bool" where
  "is_actionable_session_type v \<longleftrightarrow>
     get_or (normalize_progress_session_type v) [] \<in> set [''regular_session'', ''packet_hours'']"

definition matches_session_type :: "js_record \<Rightarrow> progress_event \<Rightarrow> bool" where
  "matches_session_type conditions e =
     (case progress_string (js_prop conditions ''sessionType'') of
        None \<Rightarrow> True
      | Some expected \<Rightarrow>
          \<not> is_actionable_session_type (Some expected) \<or>
          (let actual = normalize_progress_session_type (pe_sessionType e)
           in actual \<noteq> None \<and> actual = normalize_progress_session_type (Some expected)))"

definition matches_tariff :: "js_record \<Rightarrow> progress_event \<Rightarrow> bool" where
  "matches_tariff conditions e \<longleftrightarrow>
     matches_one_of (progress_string_values
       [js_prop conditions ''tariffGroupIds'', js_prop conditions ''tariffGroupId'']) (pe_tariffGroupId e) \<and>
     matches_one_of (progress_string_values
       [js_prop conditions ''tariffPeriodIds'', js_prop conditions ''tariffPeriodId'']) (pe_tariffPeriodId e) \<and>
     matches_one_of (progress_string_values
       [js_prop conditions ''tariffTypeIds'', js_prop conditions ''tariffTypeId'']) (pe_tariffTypeId e)"

definition matches_guest_log_type :: "js_record \<Rightarrow> progress_event \<Rightarrow> bool" where
  "matches_guest_log_type conditions e =
     (let allowed = map js_lower (progress_string_values
            [js_prop conditions ''guestLogTypes'', js_prop conditions ''guestLogType'',
             js_prop conditions ''logTypes'', js_prop conditions ''logType'']);
          blocked = map js_lower (progress_string_values
            [js_prop conditions ''blockedGuestLogTypes'', js_prop conditions ''deniedGuestLogTypes'',
             js_prop conditions ''blockedLogTypes'', js_prop conditions ''deniedLogTypes'']);
          actual = js_lower (js_trim (get_or (pe_guestLogType e) []))
      in \<not> (blocked \<noteq> [] \<and> actual \<noteq> [] \<and> actual \<in> set blocked) \<and>
         (allowed = [] \<or> actual \<noteq> [] \<and> actual \<in> set allowed))"

text \<open>The settings of one name in both records, in the order in which they are collected.\<close>

definition both :: "js_record \<Rightarrow> js_record \<Rightarrow> string \<Rightarrow> string \<Rightarrow> string list" where
  "both metric conditions many one =
     progress_string_values
       [js_prop metric many, js_prop metric one, js_prop conditions many, js_prop conditions one]"

definition matches_product_filters :: "js_record \<Rightarrow> js_record \<Rightarrow> progress_event \<Rightarrow> bool" where
  "matches_product_filters conditions metric e =
     (let purchaseSource = normalize_progress_token (progress_string (setting metric conditions ''purchaseSource''));
          catalog = normalize_progress_token (progress_string (setting metric conditions ''categoryCatalogSource''));
          categoryMode = (purchaseSource = ''CATEGORY'')
      in matches_one_of (both metric conditions ''productIds'' ''productId'') (pe_productId e) \<and>
         matches_one_of (both metric conditions ''externalProductIds'' ''externalProductId'')
           (pe_externalProductId e) \<and>
         matches_one_of
           (if categoryMode \<and> catalog = ''LEETPLUS'' then []
            else both metric conditions ''externalCategoryKeys'' ''externalCategoryKey'')
           (pe_externalCategoryKey e) \<and>
         matches_one_of
           (if categoryMode \<and> catalog \<noteq> ''LEETPLUS'' then []
            else both metric conditions ''categoryIds'' ''categoryId'')
           (pe_categoryId e) \<and>
         matches_one_of
           (if categoryMode then [] else map js_lower (both metric conditions ''categoryNames'' ''categoryName''))
           (map_option js_lower (pe_categoryName e)))"

record match_options =
  mo_eventTypes :: "string list"
  mo_windowDays :: rat
  mo_windowAppliedToDuration :: bool
  mo_repeatCycleReset :: bool
  mo_completedAt :: "int option"
  mo_resetImmediately :: bool

definition session_minutes_of :: "progress_event \<Rightarrow> int" where
  "session_minutes_of e = max 0 (get_or (pe_sessionMinutes e) 0)"

definition spend_amount_of :: "progress_event \<Rightarrow> rat" where
  "spend_amount_of e = max 0 (get_or (pe_spendAmount e) 0)"

definition matches_progress_event ::
  "zone_db \<Rightarrow> (string \<Rightarrow> jsdate) \<Rightarrow> progress_rule \<Rightarrow> js_record \<Rightarrow> js_record \<Rightarrow> progress_event \<Rightarrow> int \<Rightarrow>
   match_options \<Rightarrow> bool" where
  "matches_progress_event zdb legacy rule conditions metric e reference opt \<longleftrightarrow>
     (if mo_eventTypes opt \<noteq> [] then
        (let actual = normalize_progress_token (Some (pe_eventType e))
         in \<exists>x\<in>set (map (\<lambda>t. normalize_progress_token (Some t)) (mo_eventTypes opt)).
              guest_game_trigger_matches (Some x) (Some actual))
      else guest_game_trigger_matches (Some (pr_triggerKind rule)) (Some (pe_eventType e))) \<and>
     date_within_bounds legacy (pe_occurredAt e) (pr_periodFrom rule) (pr_periodTo rule) \<and>
     date_within_last_days (pe_occurredAt e) reference (mo_windowDays opt) \<and>
     (mo_repeatCycleReset opt \<longrightarrow>
        in_repeat_period zdb (pe_occurredAt e) reference (pr_repeatPeriodicity rule) (pr_timeZone rule)) \<and>
     \<not> (mo_resetImmediately opt \<and>
        (case mo_completedAt opt of None \<Rightarrow> False | Some c \<Rightarrow> pe_occurredAt e \<le> c)) \<and>
     (pr_storeIds rule = [] \<or>
        (case pe_storeId e of
           Some s \<Rightarrow>
             if s \<noteq> [] then s \<in> set (pr_storeIds rule)
             else get_or (pe_externalDomain e) [] \<noteq> [] \<and>
                  get_or (pe_externalDomain e) [] \<in> set (pr_externalDomains rule)
         | None \<Rightarrow> get_or (pe_externalDomain e) [] \<noteq> [] \<and>
                   get_or (pe_externalDomain e) [] \<in> set (pr_externalDomains rule))) \<and>
     (case progress_number (setting metric conditions ''minSessionMinutes'') of
        None \<Rightarrow> True | Some m \<Rightarrow> m \<le> of_int (session_minutes_of e)) \<and>
     \<not> (mo_windowAppliedToDuration opt \<and> get_or (pe_sessionMinutes e) 0 = 0) \<and>
     (case progress_number (setting metric conditions ''minSpendAmount'') of
        None \<Rightarrow> True | Some m \<Rightarrow> m \<le> spend_amount_of e) \<and>
     (mo_windowAppliedToDuration opt \<or>
        matches_weekdays zdb conditions metric (pe_occurredAt e) (pr_timeZone rule)) \<and>
     (case progress_number (setting metric conditions ''exactSpendAmount'') of
        None \<Rightarrow> True | Some x \<Rightarrow> \<bar>spend_amount_of e - x\<bar> \<le> 5 / 1000) \<and>
     (mo_windowAppliedToDuration opt \<or>
        matches_hours zdb conditions metric (pe_occurredAt e) (pr_timeZone rule)) \<and>
     matches_session_type conditions e \<and>
     matches_tariff conditions e \<and>
     matches_guest_log_type conditions e \<and>
     matches_product_filters conditions metric e"

section \<open>Values\<close>

definition is_session_duration_event :: "progress_event \<Rightarrow> bool" where
  "is_session_duration_event e \<longleftrightarrow>
     normalize_progress_token (Some (pe_eventType e)) \<in> set SESSION_DURATION_EVENT_TYPES \<and>
     0 < get_or (pe_sessionMinutes e) 0"

text \<open>The loop of \<open>activeDayStreak\<close>: the longest run, the current one and the day before.\<close>

fun streak_loop :: "int list \<Rightarrow> int \<Rightarrow> int \<Rightarrow> int option \<Rightarrow> int \<times> int" where
  "streak_loop [] longest current previous = (longest, current)"
| "streak_loop (day # days) longest current previous =
     (let current' = (case previous of
            Some p \<Rightarrow> if day - p = 86400000 then current + 1 else 1
          | None \<Rightarrow> 1)
      in streak_loop days (max longest current') current' (Some day))"

definition active_day_streak :: "civil list \<Rightarrow> rat \<Rightarrow> civil \<Rightarrow> int" where
  "active_day_streak keys target reference_key =
     (let days = js_sort (\<lambda>a b. a - b) (map day_start (js_uniq keys));
          (longest, current) = streak_loop days 0 0 None
      in if target \<le> of_int longest then longest
         else if days = [] then 0
         else if 86400000 < day_start reference_key - last days then 0
         else current)"

definition progress_value ::
  "zone_db \<Rightarrow> aggregation \<Rightarrow> progress_event list \<Rightarrow> string option \<Rightarrow> rat \<Rightarrow> civil \<Rightarrow> rat" where
  "progress_value zdb agg events zone target reference_key =
     (case agg of
        AGG_EXISTS \<Rightarrow> if 0 < length events then 1 else 0
      | AGG_SUM \<Rightarrow> round_progress (fold (\<lambda>e sum. sum + spend_amount_of e) events 0)
      | AGG_DURATION \<Rightarrow> round_progress (fold (\<lambda>e sum. sum + of_int (session_minutes_of e)) events 0)
      | AGG_DISTINCT_DAYS \<Rightarrow>
          of_nat (length (js_uniq (map (\<lambda>e. local_date_key zdb zone (pe_occurredAt e)) events)))
      | AGG_STREAK \<Rightarrow>
          of_int (active_day_streak (map (\<lambda>e. local_date_key zdb zone (pe_occurredAt e)) events)
            target reference_key)
      | AGG_COUNT \<Rightarrow> of_nat (length events))"

definition product_coverage_matches :: "js_record \<Rightarrow> js_record \<Rightarrow> progress_event list \<Rightarrow> bool" where
  "product_coverage_matches conditions metric events =
     (if normalize_progress_token (progress_string (setting metric conditions ''productMatch'')) \<noteq> ''ALL'' then True
      else if normalize_progress_token (progress_string (setting metric conditions ''purchaseSource'')) = ''CATEGORY''
      then
        (let leetplus = (normalize_progress_token
               (progress_string (setting metric conditions ''categoryCatalogSource'')) = ''LEETPLUS'');
             field = (if leetplus then ''categoryIds'' else ''externalCategoryKeys'');
             selections = (case js_prop metric ''categorySelections'' of
                 JArr vs \<Rightarrow> filter (\<lambda>ks. ks \<noteq> [])
                   (concat (map (\<lambda>v. case v of JObj o1 \<Rightarrow> [progress_string_values [js_prop o1 field]] | _ \<Rightarrow> []) vs))
               | _ \<Rightarrow> []);
             purchased = concat (map (\<lambda>e.
               case (if leetplus then pe_categoryId e else pe_externalCategoryKey e) of
                 None \<Rightarrow> [] | Some k \<Rightarrow> if k = [] then [] else [k]) events)
         in list_all (\<lambda>ks. \<exists>k\<in>set ks. k \<in> set purchased) selections)
      else
        (let expected = progress_string_values
               [js_prop metric ''productIds'', js_prop metric ''externalProductIds'',
                js_prop conditions ''productIds'', js_prop conditions ''externalProductIds''];
             purchased = concat (map (\<lambda>e.
               concat (map (\<lambda>p. case p of None \<Rightarrow> [] | Some k \<Rightarrow> if k = [] then [] else [k])
                 [pe_productId e, pe_externalProductId e])) events)
         in list_all (\<lambda>k. k \<in> set purchased) expected))"

section \<open>The evaluation\<close>

text \<open>The settings that \<open>evaluateGuestGameProgress\<close> derives from a rule before it looks at the events.\<close>

record progress_setup =
  ps_conditions :: js_record
  ps_metric :: js_record
  ps_target :: "rat option"
  ps_reference :: int
  ps_cycleReset :: bool
  ps_completedAt :: "int option"
  ps_resetImmediately :: bool
  ps_aggregation :: aggregation
  ps_windowDays :: rat
  ps_eventTypes :: "string list"
  ps_multiDayGoal :: bool
  ps_overlapSpec :: "window_spec option"

definition progress_setup ::
  "zone_db \<Rightarrow> (string \<Rightarrow> jsdate) \<Rightarrow> int \<Rightarrow> progress_rule \<Rightarrow> progress_event option \<Rightarrow> progress_setup" where
  "progress_setup zdb legacy now rule current =
     (let conditions = progress_record (pr_conditions rule);
          metric = progress_record (js_or (js_prop conditions ''metric'') (js_prop conditions ''progressMetric''));
          target = or_else (progress_number (js_prop metric ''target''))
            (or_else (progress_number (js_prop conditions ''progressTarget'')) (pr_progressTarget rule));
          reference = (case current of Some e \<Rightarrow> pe_occurredAt e | None \<Rightarrow> now);
          completedAt = date_of legacy (pr_repeatCompletedAt rule);
          agg = progress_aggregation
            (or_else (progress_string (js_prop metric ''aggregation''))
              (or_else (progress_string (js_prop metric ''type''))
                (progress_string (js_prop conditions ''aggregation''))))
            (progress_string (setting metric conditions ''checkInMode''))
      in \<lparr>ps_conditions = conditions, ps_metric = metric, ps_target = target, ps_reference = reference,
          ps_cycleReset = guest_game_repeat_cycle_reset zdb legacy (pr_repeatCompletedAt rule) reference
            (pr_repeatPeriodicity rule) (pr_timeZone rule),
          ps_completedAt = completedAt,
          ps_resetImmediately = (case completedAt of
             None \<Rightarrow> False | Some c \<Rightarrow> pr_repeatPeriodicity rule = None \<and> c \<le> reference),
          ps_aggregation = agg,
          ps_windowDays = get_or (or_else (progress_number (js_prop metric ''windowDays''))
            (progress_number (js_prop conditions ''windowDays''))) DEFAULT_WINDOW_DAYS,
          ps_eventTypes = progress_string_values
            [js_prop metric ''eventTypes'', js_prop metric ''eventType'',
             js_prop conditions ''eventTypes'', js_prop conditions ''eventType''],
          ps_multiDayGoal = (agg = AGG_STREAK \<or> agg = AGG_DISTINCT_DAYS),
          ps_overlapSpec = (if guest_game_window_match metric conditions = OVERLAP
             then Some (guest_game_window_spec metric conditions) else None)\<rparr>)"

text \<open>The event with the minutes inside the window, and whether it is in \<open>windowApplied\<close>.\<close>

definition apply_overlap ::
  "zone_db \<Rightarrow> string option \<Rightarrow> window_spec option \<Rightarrow> progress_event \<Rightarrow> progress_event \<times> bool" where
  "apply_overlap zdb zone spec e =
     (case spec of
        None \<Rightarrow> (e, False)
      | Some s \<Rightarrow>
          if \<not> is_session_duration_event e then (e, False)
          else (e\<lparr>pe_sessionMinutes := session_minutes_inside_window zdb (At (pe_occurredAt e))
                   (get_or (pe_sessionMinutes e) 0) s zone\<rparr>, True))"

definition setup_options :: "progress_setup \<Rightarrow> bool \<Rightarrow> match_options" where
  "setup_options st applied =
     \<lparr>mo_eventTypes = ps_eventTypes st, mo_windowDays = ps_windowDays st,
      mo_windowAppliedToDuration = applied,
      mo_repeatCycleReset = (ps_cycleReset st \<and> \<not> ps_multiDayGoal st),
      mo_completedAt = ps_completedAt st,
      mo_resetImmediately = (ps_resetImmediately st \<or>
        ps_multiDayGoal st \<and> (case ps_completedAt st of None \<Rightarrow> False | Some c \<Rightarrow> c \<le> ps_reference st))\<rparr>"

text \<open>\<open>allEvents\<close>.\<close>

definition matched_events ::
  "zone_db \<Rightarrow> (string \<Rightarrow> jsdate) \<Rightarrow> (progress_event \<Rightarrow> string option) \<Rightarrow> progress_rule \<Rightarrow> progress_setup \<Rightarrow>
   progress_event option \<Rightarrow> progress_event list \<Rightarrow> progress_event list" where
  "matched_events zdb legacy key rule st current history =
     map fst (filter (\<lambda>(e, applied). matches_progress_event zdb legacy rule (ps_conditions st) (ps_metric st) e
                                       (ps_reference st) (setup_options st applied))
       (map (apply_overlap zdb (pr_timeZone rule) (ps_overlapSpec st))
         (dedupe_progress_events key current history)))"

definition progress_applicable :: "progress_setup \<Rightarrow> bool" where
  "progress_applicable st \<longleftrightarrow>
     \<not> (ps_metric st = [] \<and> (case ps_target st of None \<Rightarrow> True | Some t \<Rightarrow> t = 0 \<or> t \<le> 1))"

text \<open>Whether \<open>guestGameRepeatCycleReset\<close> formats a date, which fails for an unknown zone.\<close>

definition repeat_formats :: "progress_rule \<Rightarrow> progress_setup \<Rightarrow> bool" where
  "repeat_formats rule st \<longleftrightarrow>
     (case ps_completedAt st of
        None \<Rightarrow> False
      | Some c \<Rightarrow> pr_repeatPeriodicity rule \<in> {Some DAILY, Some MONTHLY} \<and> c \<le> ps_reference st)"

definition evaluate_guest_game_progress ::
  "zone_db \<Rightarrow> (string \<Rightarrow> jsdate) \<Rightarrow> (progress_event \<Rightarrow> string option) \<Rightarrow> int \<Rightarrow> progress_rule \<Rightarrow>
   progress_event option \<Rightarrow> progress_event list \<Rightarrow> progress_result option" where
  "evaluate_guest_game_progress zdb legacy key now rule current history =
     (let st = progress_setup zdb legacy now rule current in
      if zdb (zone_or_utc (pr_timeZone rule)) = None \<and> (progress_applicable st \<or> repeat_formats rule st) then None
      else if \<not> progress_applicable st then
        Some \<lparr>pg_applicable = False, pg_aggregation = AGG_COUNT, pg_current = 0,
              pg_target = get_or (ps_target st) 1, pg_percent = 0, pg_completed = True, pg_matchedEvents = 0,
              pg_unit = pr_progressUnit rule, pg_windowDays = None, pg_repeatCycleReset = ps_cycleReset st\<rparr>
      else
        (let resolvedTarget = max 1 (get_or (ps_target st) 1);
             events = matched_events zdb legacy key rule st current history;
             value = progress_value zdb (ps_aggregation st) events (pr_timeZone rule) resolvedTarget
               (local_date_key zdb (pr_timeZone rule) (ps_reference st))
         in Some \<lparr>pg_applicable = True, pg_aggregation = ps_aggregation st, pg_current = value,
                  pg_target = resolvedTarget, pg_percent = progress_percent value resolvedTarget,
                  pg_completed = (resolvedTarget \<le> value \<and>
                    product_coverage_matches (ps_conditions st) (ps_metric st) events),
                  pg_matchedEvents = length events,
                  pg_unit = or_else (pr_progressUnit rule) (progress_string (js_prop (ps_metric st) ''unit'')),
                  pg_windowDays = Some (ps_windowDays st), pg_repeatCycleReset = ps_cycleReset st\<rparr>))"

end
