(* ===== verification/Game_Streak.thy ===== *)
theory Game_Streak
  imports Game_Progress
begin

text \<open>
  Streaks and active days: what \<open>activeDayStreak\<close> and the set of date keys compute from the events, stated
  on the numbers of the local days, without sorting, time zones or texts.
\<close>

section \<open>Days\<close>

text \<open>The number of the local day of an instant.\<close>

definition local_day :: "zone_db \<Rightarrow> string option \<Rightarrow> int \<Rightarrow> int" where
  "local_day zdb zone t = (t div 1000 + zone_offset zdb (zone_or_utc zone) t) div 86400"

lemma local_date_key_day: "local_date_key zdb zone t = civil_of_day (local_day zdb zone t)"
  by (simp add: local_date_key_def zoned_parts_def wall_of_seconds_def local_day_def Let_def)

lemma day_start_civil [simp]: "day_start (civil_of_day n) = 86400000 * n"
proof -
  have "first_of_month (c_year (civil_of_day n)) (c_month (civil_of_day n) - 1) + (c_day (civil_of_day n) - 1) = n"
    using first_of_month_day [of "civil_of_day n"] by simp
  then show ?thesis by (simp add: day_start_def date_utc_def)
qed

lemma civil_of_day_inj: "inj civil_of_day"
  by (metis day_number_civil injI)

lemma remdups_map_inj: "inj f \<Longrightarrow> remdups (map f xs) = map f (remdups xs)"
  by (induction xs) (auto dest: injD)

lemma js_uniq_map: "inj f \<Longrightarrow> js_uniq (map f xs) = map f (js_uniq xs)"
  by (simp add: js_uniq_def remdups_map_inj rev_map)

section \<open>Runs of days\<close>

definition is_run :: "int set \<Rightarrow> int \<Rightarrow> int \<Rightarrow> bool" where
  "is_run D n k \<longleftrightarrow> {n - k + 1..n} \<subseteq> D"

text \<open>The length of the longest run, and of the run that ends on a day.\<close>

definition longest_run :: "int set \<Rightarrow> int \<Rightarrow> bool" where
  "longest_run D m \<longleftrightarrow> (\<exists>n. is_run D n m) \<and> (\<forall>n k. is_run D n k \<longrightarrow> k \<le> m)"

definition ending_run :: "int set \<Rightarrow> int \<Rightarrow> int \<Rightarrow> bool" where
  "ending_run D n k \<longleftrightarrow> 1 \<le> k \<and> is_run D n k \<and> n - k \<notin> D"

lemma longest_run_empty: "longest_run {} 0"
  by (auto simp: longest_run_def is_run_def)

lemma ending_run_max: "ending_run D n c \<Longrightarrow> is_run D n k \<Longrightarrow> k \<le> c"
  by (auto simp: ending_run_def is_run_def) (smt (verit) atLeastAtMost_iff subsetD)

lemma ending_run_step:
  assumes new: "\<forall>x\<in>P. x < d" and c: "ending_run P p c" and p: "\<forall>x\<in>P. x \<le> p"
  shows "ending_run (insert d P) d (if d - p = 1 then c + 1 else 1)"
proof (cases "d - p = 1")
  case True
  then have d: "d = p + 1" by simp
  have "{p + 1 - (c + 1) + 1..p + 1} = insert (p + 1) {p - c + 1..p}"
    using c by (auto simp: ending_run_def)
  then show ?thesis
    using c unfolding d ending_run_def is_run_def by auto
next
  case False
  have "p \<in> P" using c by (auto simp: ending_run_def is_run_def)
  then have "d - 1 \<notin> insert d P" using False new p by force
  then show ?thesis using False by (auto simp: ending_run_def is_run_def)
qed

lemma longest_run_step:
  assumes new: "\<forall>x\<in>P. x < d" and l: "longest_run P l" and c: "ending_run (insert d P) d c"
  shows "longest_run (insert d P) (max l c)"
proof -
  have "k \<le> max l c" if k: "is_run (insert d P) n k" for n k
  proof (cases "d \<in> {n - k + 1..n}")
    case False
    then have "is_run P n k" using k by (auto simp: is_run_def)
    then show ?thesis using l by (auto simp: longest_run_def intro: max.coboundedI1)
  next
    case True
    then have "n \<in> {n - k + 1..n}" by simp
    then have "n \<in> insert d P" using k unfolding is_run_def by blast
    moreover have "d \<le> n" using True by simp
    ultimately have "n = d" using new by force
    then show ?thesis using ending_run_max [OF c, of k] k by (simp add: max.coboundedI2)
  qed
  moreover have "\<exists>n. is_run (insert d P) n (max l c)"
  proof (cases "l \<le> c")
    case True
    then show ?thesis using c by (auto simp: ending_run_def max_def)
  next
    case False
    then show ?thesis using l by (auto simp: longest_run_def is_run_def max_def)
  qed
  ultimately show ?thesis by (simp add: longest_run_def)
qed

lemma streak_loop_snoc:
  "streak_loop (xs @ [d]) l c p =
     (let (l', c') = streak_loop xs l c p;
          p' = (if xs = [] then p else Some (last xs));
          c'' = (case p' of Some q \<Rightarrow> if d - q = 86400000 then c' + 1 else 1 | None \<Rightarrow> 1)
      in (max l' c'', c''))"
  by (induction xs arbitrary: l c p) (simp_all add: Let_def split: option.splits)

lemma streak_loop_runs:
  assumes "sorted_wrt (<) ns"
  shows "longest_run (set ns) (fst (streak_loop (map ((*) 86400000) ns) 0 0 None)) \<and>
    (ns \<noteq> [] \<longrightarrow> ending_run (set ns) (last ns) (snd (streak_loop (map ((*) 86400000) ns) 0 0 None)))"
  using assms
proof (induction ns rule: rev_induct)
  case Nil
  then show ?case using longest_run_empty by simp
next
  case (snoc d ns)
  obtain l c where prev: "streak_loop (map ((*) 86400000) ns) 0 0 None = (l, c)"
    by (cases "streak_loop (map ((*) 86400000) ns) 0 0 None")
  have new: "\<forall>x\<in>set ns. x < d" and sorted: "sorted_wrt (<) ns"
    using snoc.prems by (simp_all add: sorted_wrt_append)
  define c1 where "c1 = (if ns \<noteq> [] \<and> d - last ns = 1 then c + 1 else 1)"
  have now: "streak_loop (map ((*) 86400000) (ns @ [d])) 0 0 None = (max l c1, c1)"
  proof -
    have "86400000 * d - 86400000 * last ns = 86400000 \<longleftrightarrow> d - last ns = 1" by auto
    then show ?thesis
      by (simp add: streak_loop_snoc prev c1_def Let_def last_map)
  qed
  have ending: "ending_run (insert d (set ns)) d c1"
  proof (cases "ns = []")
    case True
    then show ?thesis by (auto simp: c1_def ending_run_def is_run_def)
  next
    case False
    have "\<forall>x\<in>set ns. x \<le> last ns"
      using sorted False by (induction ns) (auto simp: less_imp_le)
    then show ?thesis
      using ending_run_step [OF new] snoc.IH [OF sorted] False prev by (simp add: c1_def)
  qed
  moreover have "longest_run (insert d (set ns)) (max l c1)"
    using longest_run_step [OF new _ ending] snoc.IH [OF sorted] prev by simp
  ultimately show ?case
    unfolding now by simp
qed

section \<open>The streak\<close>

interpretation instants: js_total_comparator "\<lambda>a b :: int. a - b"
  by unfold_locales (auto simp: sgn_if)

lemma sorted_instants:
  fixes xs :: "int list"
  assumes "distinct xs"
  shows "sorted_wrt (<) (js_sort (\<lambda>a b. a - b) xs)"
proof -
  have "sorted (js_sort (\<lambda>a b. a - b) xs)"
    using instants.sorted_sort [of xs] by simp
  then show ?thesis using assms by (simp add: strict_sorted_iff)
qed

lemma sorted_day_starts:
  "js_sort (\<lambda>a b. a - b) (map ((*) 86400000) ns) = map ((*) 86400000) (js_sort (\<lambda>a b. a - b) ns)"
proof (rule instants.sorted_unique)
  show "sorted_wrt (\<lambda>a b. a - b \<le> 0) (map ((*) 86400000) (js_sort (\<lambda>a b. a - b) ns))"
    using instants.sorted_sort [of ns] by (simp add: sorted_wrt_map)
  show "sorted_wrt (\<lambda>a b. a - b \<le> 0) (js_sort (\<lambda>a b. a - b) (map ((*) 86400000) ns))"
    by (rule instants.sorted_sort)
qed simp

lemma active_day_streak_runs:
  fixes ns :: "int list" and today :: int and target :: rat
  defines "r \<equiv> active_day_streak (map civil_of_day ns) target (civil_of_day today)"
  obtains longest current where "longest_run (set ns) longest"
    and "ns \<noteq> [] \<longrightarrow> ending_run (set ns) (Max (set ns)) current"
    and "r = (if target \<le> of_int longest then longest
              else if ns = [] \<or> Max (set ns) < today - 1 then 0 else current)"
proof -
  let ?ds = "js_sort (\<lambda>a b. a - b) (js_uniq ns)"
  obtain l c where loop: "streak_loop (map ((*) 86400000) ?ds) 0 0 None = (l, c)"
    by (cases "streak_loop (map ((*) 86400000) ?ds) 0 0 None")
  have sorted: "sorted_wrt (<) ?ds" by (simp add: sorted_instants)
  have days: "js_sort (\<lambda>a b. a - b) (map day_start (js_uniq (map civil_of_day ns))) = map ((*) 86400000) ?ds"
    by (simp add: js_uniq_map civil_of_day_inj comp_def sorted_day_starts)
  have empty: "?ds = [] \<longleftrightarrow> ns = []"
    by (metis js_sort_eq_Nil set_empty set_js_uniq)
  have last_max: "last ?ds = Max (set ns)" if "ns \<noteq> []"
  proof -
    have "?ds \<noteq> []" using that empty by simp
    moreover have "sorted ?ds" using sorted by (simp add: strict_sorted_imp_sorted)
    ultimately have "last ?ds = Max (set ?ds)"
      by (metis Max_eqI finite_set last_in_set last_conv_nth length_greater_0_conv sorted_nth_mono in_set_conv_nth
          diff_less zero_less_one less_imp_le Suc_pred' less_Suc_eq_le)
    then show ?thesis by simp
  qed
  show thesis
  proof
    show "longest_run (set ns) l" and "ns \<noteq> [] \<longrightarrow> ending_run (set ns) (Max (set ns)) c"
      using streak_loop_runs [OF sorted] loop last_max empty by simp_all
    show "r = (if target \<le> of_int l then l else if ns = [] \<or> Max (set ns) < today - 1 then 0 else c)"
    proof -
      have "86400000 < 86400000 * today - 86400000 * M \<longleftrightarrow> M < today - 1" for M by linarith
      then show ?thesis
        using last_max empty by (simp add: r_def active_day_streak_def Let_def days loop last_map)
    qed
  qed
qed

section \<open>Properties\<close>

definition active_days :: "zone_db \<Rightarrow> string option \<Rightarrow> progress_event list \<Rightarrow> int set" where
  "active_days zdb zone events = (\<lambda>e. local_day zdb zone (pe_occurredAt e)) ` set events"

lemma distinct_days_exact:
  "progress_value zdb AGG_DISTINCT_DAYS events zone target reference = of_nat (card (active_days zdb zone events))"
proof -
  have "map (\<lambda>e. local_date_key zdb zone (pe_occurredAt e)) events =
      map civil_of_day (map (\<lambda>e. local_day zdb zone (pe_occurredAt e)) events)"
    by (simp add: local_date_key_day)
  then have "length (js_uniq (map (\<lambda>e. local_date_key zdb zone (pe_occurredAt e)) events)) =
      length (js_uniq (map (\<lambda>e. local_day zdb zone (pe_occurredAt e)) events))"
    by (simp only: js_uniq_map [OF civil_of_day_inj] length_map)
  also have "\<dots> = card (active_days zdb zone events)"
    by (metis active_days_def distinct_card distinct_js_uniq set_js_uniq set_map)
  finally show ?thesis by (simp add: progress_value_def)
qed

text \<open>
  C30: The progress of a streak goal is what a calendar says: when the guest has ever been active on
  enough consecutive local days, the length of the longest such run; otherwise the length of the run
  that ends on the last active day, as long as that day is today or yesterday; otherwise nothing.
\<close>

theorem progress_streak_exact:
  "\<exists>longest current.
    longest_run (active_days zdb zone events) longest \<and>
    (active_days zdb zone events \<noteq> {} \<longrightarrow>
       ending_run (active_days zdb zone events) (Max (active_days zdb zone events)) current) \<and>
    progress_value zdb AGG_STREAK events zone target (local_date_key zdb zone reference) =
      of_int (if target \<le> of_int longest then longest
              else if active_days zdb zone events = {} \<or>
                Max (active_days zdb zone events) < local_day zdb zone reference - 1 then 0
              else current)"
proof -
  let ?ns = "map (\<lambda>e. local_day zdb zone (pe_occurredAt e)) events"
  have keys: "map (\<lambda>e. local_date_key zdb zone (pe_occurredAt e)) events = map civil_of_day ?ns"
    by (simp add: local_date_key_day)
  have days: "set ?ns = active_days zdb zone events" by (simp add: active_days_def)
  have empty: "?ns = [] \<longleftrightarrow> active_days zdb zone events = {}" by (simp add: active_days_def)
  have streak: "progress_value zdb AGG_STREAK events zone target (local_date_key zdb zone reference) =
      of_int (active_day_streak (map civil_of_day ?ns) target (civil_of_day (local_day zdb zone reference)))"
    by (simp only: progress_value_def keys local_date_key_day [of zdb zone reference] aggregation.case)
  obtain longest current where "longest_run (set ?ns) longest"
    and "?ns \<noteq> [] \<longrightarrow> ending_run (set ?ns) (Max (set ?ns)) current"
    and "active_day_streak (map civil_of_day ?ns) target (civil_of_day (local_day zdb zone reference)) =
      (if target \<le> of_int longest then longest
       else if ?ns = [] \<or> Max (set ?ns) < local_day zdb zone reference - 1 then 0 else current)"
    by (rule active_day_streak_runs)
  then show ?thesis
    unfolding days empty streak by (intro exI [of _ longest] exI [of _ current]) (simp only: simp_thms)
qed

definition visit_at :: "int \<Rightarrow> progress_event" where
  "visit_at t =
     \<lparr>pe_eventType = ''CHECK_IN'', pe_occurredAt = t, pe_sourceFactId = None, pe_externalProvider = None,
      pe_sourceKind = None, pe_sessionExternalId = None, pe_storeId = None, pe_externalDomain = None,
      pe_sessionType = None, pe_sessionPacket = None, pe_sessionMinutes = None, pe_spendAmount = None,
      pe_tariffGroupId = None, pe_tariffPeriodId = None, pe_tariffTypeId = None, pe_guestLogType = None,
      pe_productId = None, pe_externalProductId = None, pe_externalCategoryKey = None,
      pe_categoryId = None, pe_categoryName = None\<rparr>"

definition sample_visits :: "progress_event list" where
  "sample_visits = map visit_at [1789819200000, 1789905600000, 1790078400000]"

text \<open>Two days in a row, a day off, and the day before the reference: a streak of one.\<close>

theorem progress_streak_exact_witness:
  "progress_value moscow_db AGG_STREAK sample_visits
     (Some ''Europe/Moscow'') 5 (local_date_key moscow_db (Some ''Europe/Moscow'') 1790164800000) = 1"
proof -
  have day: "local_day moscow_db (Some ''Europe/Moscow'') t = (t div 1000 + 10800) div 86400" for t
    by (simp add: local_day_def zone_offset_def moscow_db_def zone_or_utc_def)
  have days: "active_days moscow_db (Some ''Europe/Moscow'') sample_visits = {20715, 20716, 20718}"
    by (simp add: active_days_def sample_visits_def visit_at_def day)
  have short: "longest \<le> 2" if run: "longest_run {20715, 20716, 20718} longest" for longest
  proof (rule ccontr)
    assume "\<not> longest \<le> 2"
    moreover obtain n where n: "{n - longest + 1..n} \<subseteq> {20715, 20716, 20718}"
      using run unfolding longest_run_def is_run_def by blast
    ultimately have "n \<in> {n - longest + 1..n}" "n - 1 \<in> {n - longest + 1..n}" "n - 2 \<in> {n - longest + 1..n}"
      by auto
    then have "n \<in> {20715, 20716, 20718}" "n - 1 \<in> {20715, 20716, 20718}" "n - 2 \<in> {20715, 20716, 20718}"
      using n by blast+
    then show False by auto
  qed
  obtain longest current where "longest_run {20715, 20716, 20718} longest"
    and current: "ending_run {20715, 20716, 20718} 20718 current"
    and streak: "progress_value moscow_db AGG_STREAK sample_visits (Some ''Europe/Moscow'') 5
      (local_date_key moscow_db (Some ''Europe/Moscow'') 1790164800000) =
      of_int (if 5 \<le> (of_int longest :: rat) then longest else current)"
    using progress_streak_exact [of moscow_db "Some ''Europe/Moscow''" sample_visits 5 1790164800000]
    by (auto simp: days day)
  moreover have "current = 1"
  proof -
    have "current \<le> 1"
    proof (rule ccontr)
      assume "\<not> current \<le> 1"
      then have "20717 \<in> {20718 - current + 1..20718}" by auto
      moreover have "{20718 - current + 1..20718} \<subseteq> {20715, 20716, 20718}"
        using current unfolding ending_run_def is_run_def by blast
      ultimately have "(20717 :: int) \<in> {20715, 20716, 20718}" by blast
      then show False by simp
    qed
    with current show ?thesis by (simp add: ending_run_def)
  qed
  ultimately show ?thesis using short by fastforce
qed

end
