(* ===== verification/Game_Dedupe.thy ===== *)
theory Game_Dedupe
  imports Game_Streak
begin

text \<open>
  The reduction of the events of a guest to physical actions (\<open>dedupeProgressEvents\<close>): at most one event of
  a physical session and at most one of a source fact, nothing invented, nothing anonymous lost, and the
  event that is being evaluated is never the one that is dropped.

  The three loops are followed with the association lists as maps. \<open>joins\<close> gives the groups that have a
  source fact; it is fixed after the first loop, so that every fact without identity has one fate.
\<close>

section \<open>Identities\<close>

datatype action_identity = Strong string | Source_Fact string | Anonymous

definition action_identity :: "(progress_event \<Rightarrow> string option) \<Rightarrow> progress_event \<Rightarrow> action_identity" where
  "action_identity key e =
     (case key e of
        Some k \<Rightarrow> Strong k
      | None \<Rightarrow>
          (case physical_source_fact_id (pe_sourceFactId e) of Some f \<Rightarrow> Source_Fact f | None \<Rightarrow> Anonymous))"

definition joins :: "groups \<Rightarrow> string \<Rightarrow> string list" where
  "joins groups f = map fst (filter (\<lambda>(_, g). f \<in> set (sg_factIds g)) groups)"

lemma joins_update:
  assumes "map_of groups k = Some g" and "sg_factIds g' = sg_factIds g"
  shows "joins (AList.update k g' groups) f = joins groups f"
  using assms by (induction groups) (auto simp: joins_def split: if_splits)

lemma keys_update:
  "map_of m k = Some v \<Longrightarrow> map fst (AList.update k v' m) = map fst m"
  by (induction m) (auto split: if_splits)

lemma keep_preferred_in: "keep_preferred c s \<in> {c, s}"
  by (simp add: keep_preferred_def)

lemma keep_preferred_current:
  assumes "ca_current c0" and "ca_current c \<Longrightarrow> c = c0" and "ca_current s \<Longrightarrow> s = c0" and "c = c0 \<or> s = c0"
  shows "keep_preferred c s = c0"
  using assms by (auto simp: keep_preferred_def progress_event_preferred_def)

section \<open>The loops\<close>

text \<open>A selected candidate belongs to its group: by its identity, or by the source fact only this group has.\<close>

definition belongs ::
  "(progress_event \<Rightarrow> string option) \<Rightarrow> (string \<Rightarrow> string list) \<Rightarrow> string \<Rightarrow> candidate \<Rightarrow> bool" where
  "belongs key J k c \<longleftrightarrow>
     key (ca_event c) = Some k \<or>
     key (ca_event c) = None \<and> (\<exists>f. candidate_fact c = Some f \<and> J f = [k])"

definition groups_ok ::
  "(progress_event \<Rightarrow> string option) \<Rightarrow> candidate set \<Rightarrow> (string \<Rightarrow> string list) \<Rightarrow> groups \<Rightarrow> bool" where
  "groups_ok key C J groups \<longleftrightarrow>
     distinct (map fst groups) \<and>
     (\<forall>k g. map_of groups k = Some g \<longrightarrow> sg_selected g \<in> C \<and> belongs key J k (sg_selected g))"

definition selects :: "groups \<Rightarrow> candidate \<Rightarrow> bool" where
  "selects groups c \<longleftrightarrow> (\<exists>k g. map_of groups k = Some g \<and> sg_selected g = c)"

definition only_current :: "candidate set \<Rightarrow> candidate \<Rightarrow> bool" where
  "only_current C c0 \<longleftrightarrow> ca_current c0 \<and> (\<forall>c\<in>C. ca_current c \<longrightarrow> c = c0)"

lemma selects_update_new:
  "map_of groups k = None \<Longrightarrow> selects (AList.update k g groups) c \<longleftrightarrow> sg_selected g = c \<or> selects groups c"
  unfolding selects_def update_conv' by (metis fun_upd_apply option.inject option.distinct(1))

lemma selects_update_preferred:
  assumes "only_current C c0" and "map_of groups k = Some g" and "c \<in> C" and "sg_selected g \<in> C"
    and "sg_selected g' = keep_preferred c (sg_selected g)" and "c = c0 \<or> selects groups c0"
  shows "selects (AList.update k g' groups) c0"
proof (cases "c = c0 \<or> sg_selected g = c0")
  case True
  then have "keep_preferred c (sg_selected g) = c0"
    using assms(1,3,4) by (intro keep_preferred_current) (auto simp: only_current_def)
  then show ?thesis using assms(5) by (auto simp: selects_def update_conv')
next
  case False
  then obtain k1 g1 where "map_of groups k1 = Some g1" "sg_selected g1 = c0" "k1 \<noteq> k"
    using assms(2,6) unfolding selects_def by (metis option.inject)
  then show ?thesis by (auto simp: selects_def update_conv')
qed

lemma group_strong_result:
  assumes "group_strong key cs groups weak = (groups1, weak1)"
    and "groups_ok key C (\<lambda>_. []) groups" and "set cs \<subseteq> C"
  shows "groups_ok key C (\<lambda>_. []) groups1 \<and>
    weak1 = weak @ filter (\<lambda>c. key (ca_event c) = None) cs \<and>
    fst ` set groups1 = fst ` set groups \<union> {k. \<exists>c\<in>set cs. key (ca_event c) = Some k} \<and>
    (\<forall>c0. only_current C c0 \<longrightarrow> selects groups c0 \<or> c0 \<in> set cs \<and> key (ca_event c0) \<noteq> None \<longrightarrow> selects groups1 c0)"
  using assms
proof (induction cs arbitrary: groups weak)
  case Nil
  then show ?case by auto
next
  case (Cons c cs)
  have c: "c \<in> C" and cs: "set cs \<subseteq> C" using Cons.prems by auto
  show ?case
  proof (cases "key (ca_event c)")
    case None
    then have "group_strong key cs groups (weak @ [c]) = (groups1, weak1)" using Cons.prems by simp
    from Cons.IH [OF this Cons.prems(2) cs] None show ?thesis by auto
  next
    case (Some k)
    show ?thesis
    proof (cases "map_of groups k")
      case None
      let ?g = "\<lparr>sg_selected = c, sg_factIds = add_fact (candidate_fact c) []\<rparr>"
      have run: "group_strong key cs (AList.update k ?g groups) weak = (groups1, weak1)"
        using Cons.prems Some None by simp
      have ok: "groups_ok key C (\<lambda>_. []) (AList.update k ?g groups)"
        using Cons.prems(2) Some c
        by (auto simp: groups_ok_def distinct_update update_conv' belongs_def)
      show ?thesis
        using Cons.IH [OF run ok cs] Some None by (auto simp: dom_update selects_update_new)
    next
      case g: (Some g)
      let ?g = "\<lparr>sg_selected = keep_preferred c (sg_selected g), sg_factIds = add_fact (candidate_fact c) (sg_factIds g)\<rparr>"
      have run: "group_strong key cs (AList.update k ?g groups) weak = (groups1, weak1)"
        using Cons.prems Some g by simp
      have old: "sg_selected g \<in> C" "belongs key (\<lambda>_. []) k (sg_selected g)"
        using Cons.prems(2) g by (auto simp: groups_ok_def)
      then have ok: "groups_ok key C (\<lambda>_. []) (AList.update k ?g groups)"
        using Cons.prems(2) Some c
        by (auto simp: groups_ok_def distinct_update update_conv' belongs_def keep_preferred_def)
      have keys: "fst ` set (AList.update k ?g groups) = fst ` set groups" and "k \<in> fst ` set groups"
        using keys_update [OF g, of ?g] g by (metis list.set_map) (metis g map_of_SomeD fst_conv imageI)
      moreover have "selects (AList.update k ?g groups) c0"
        if "only_current C c0" "c = c0 \<or> selects groups c0" for c0
        by (rule selects_update_preferred [OF that(1) g c old(1) _ that(2)]) simp
      ultimately show ?thesis
        using Cons.IH [OF run ok cs] Some by auto
    qed
  qed
qed

text \<open>The second loop keeps the keys and the source facts of the groups.\<close>

lemma sole_group:
  assumes "filter (\<lambda>(_, g). f \<in> set (sg_factIds g)) groups = [(k, g)]" and "distinct (map fst groups)"
  shows "map_of groups k = Some g" and "joins groups f = [k]"
proof -
  have "(k, g) \<in> set (filter (\<lambda>(_, g). f \<in> set (sg_factIds g)) groups)" using assms(1) by simp
  then have "(k, g) \<in> set groups" by simp
  then show "map_of groups k = Some g" using assms(2) by simp
  show "joins groups f = [k]" using assms(1) by (simp add: joins_def)
qed

lemma no_sole_group:
  assumes "\<forall>k g. filter (\<lambda>(_, g). f \<in> set (sg_factIds g)) groups \<noteq> [(k, g)]"
  shows "\<forall>k. joins groups f \<noteq> [k]"
  using assms by (auto simp: joins_def map_eq_Cons_conv)

definition stray :: "(string \<Rightarrow> string list) \<Rightarrow> candidate \<Rightarrow> bool" where
  "stray J c \<longleftrightarrow> (\<exists>f. candidate_fact c = Some f \<and> (\<forall>k. J f \<noteq> [k]))"

lemma merge_legacy_result:
  assumes "merge_legacy cs groups unmerged plain = (groups1, unmerged1, plain1)"
    and "groups_ok key C J groups" and "joins groups = J" and "set cs \<subseteq> C"
    and "\<forall>c\<in>set cs. key (ca_event c) = None"
  shows "groups_ok key C J groups1 \<and> map fst groups1 = map fst groups \<and>
    unmerged1 = unmerged @ filter (stray J) cs \<and>
    plain1 = plain @ map ca_event (filter (\<lambda>c. candidate_fact c = None) cs) \<and>
    (\<forall>c0. only_current C c0 \<longrightarrow>
       selects groups c0 \<or> c0 \<in> set cs \<and> candidate_fact c0 \<noteq> None \<and> \<not> stray J c0 \<longrightarrow> selects groups1 c0)"
  using assms
proof (induction cs arbitrary: groups unmerged plain)
  case Nil
  then show ?case by auto
next
  case (Cons c cs)
  have c: "c \<in> C" and cs: "set cs \<subseteq> C" and weak: "key (ca_event c) = None"
    and rest: "\<forall>c\<in>set cs. key (ca_event c) = None"
    using Cons.prems by auto
  show ?case
  proof (cases "candidate_fact c")
    case None
    then have "merge_legacy cs groups unmerged (plain @ [ca_event c]) = (groups1, unmerged1, plain1)"
      using Cons.prems(1) by simp
    from Cons.IH [OF this Cons.prems(2,3) cs rest] None show ?thesis by (auto simp: stray_def)
  next
    case f: (Some f)
    show ?thesis
    proof (cases "\<exists>k g. filter (\<lambda>(_, g). f \<in> set (sg_factIds g)) groups = [(k, g)]")
      case False
      then have "merge_legacy cs groups (unmerged @ [c]) plain = (groups1, unmerged1, plain1)"
        using Cons.prems(1) f by (auto split: list.splits)
      from Cons.IH [OF this Cons.prems(2,3) cs rest]
      show ?thesis using f no_sole_group [of f groups] False Cons.prems(3) by (auto simp: stray_def)
    next
      case True
      then obtain k g where sole: "filter (\<lambda>(_, g). f \<in> set (sg_factIds g)) groups = [(k, g)]" by blast
      have "distinct (map fst groups)" using Cons.prems(2) by (simp add: groups_ok_def)
      note k = sole_group [OF sole this]
      let ?g = "g\<lparr>sg_selected := keep_preferred c (sg_selected g)\<rparr>"
      let ?groups = "AList.update k ?g groups"
      have run: "merge_legacy cs ?groups unmerged plain = (groups1, unmerged1, plain1)"
        using Cons.prems(1) f sole by simp
      have old: "sg_selected g \<in> C" "belongs key J k (sg_selected g)"
        using Cons.prems(2) k by (auto simp: groups_ok_def)
      have "belongs key J k c" using weak f k(2) Cons.prems(3) by (auto simp: belongs_def)
      then have ok: "groups_ok key C J ?groups"
        using Cons.prems(2) c old
        by (auto simp: groups_ok_def distinct_update update_conv' keep_preferred_def)
      have J: "joins ?groups = J" using joins_update [OF k(1), of ?g] Cons.prems(3) by auto
      have kept: "selects ?groups c0" if "only_current C c0" "c = c0 \<or> selects groups c0" for c0
        by (rule selects_update_preferred [OF that(1) k(1) c old(1) _ that(2)]) simp
      have "\<not> stray J c" using f k(2) Cons.prems(3) by (auto simp: stray_def)
      then show ?thesis
        using Cons.IH [OF run ok J cs rest] f kept keys_update [OF k(1), of ?g] by auto
    qed
  qed
qed

lemma select_legacy_result:
  assumes "select_legacy cs legacy plain = (legacy1, plain1)" and "set cs \<subseteq> C"
    and "\<forall>c\<in>set cs. P c \<and> candidate_fact c \<noteq> None"
    and "distinct (map fst legacy)"
    and "\<forall>f c. map_of legacy f = Some c \<longrightarrow> candidate_fact c = Some f \<and> P c \<and> c \<in> C"
  shows "distinct (map fst legacy1) \<and> plain1 = plain \<and>
    (\<forall>f c. map_of legacy1 f = Some c \<longrightarrow> candidate_fact c = Some f \<and> P c \<and> c \<in> C) \<and>
    (\<forall>c0. only_current C c0 \<longrightarrow> c0 \<in> ran (map_of legacy) \<or> c0 \<in> set cs \<longrightarrow> c0 \<in> ran (map_of legacy1))"
  using assms
proof (induction cs arbitrary: legacy)
  case Nil
  then show ?case by auto
next
  case (Cons c cs)
  obtain f where f: "candidate_fact c = Some f" using Cons.prems(3) by auto
  have c: "c \<in> C" "P c" and cs: "set cs \<subseteq> C" "\<forall>c\<in>set cs. P c \<and> candidate_fact c \<noteq> None"
    using Cons.prems by auto
  define c1 where "c1 = (case map_of legacy f of None \<Rightarrow> c | Some s \<Rightarrow> keep_preferred c s)"
  have run: "select_legacy cs (AList.update f c1 legacy) plain = (legacy1, plain1)"
    using Cons.prems(1) f by (simp add: c1_def split: option.splits)
  have c1: "candidate_fact c1 = Some f" "P c1" "c1 \<in> C"
    using Cons.prems(5) f c by (auto simp: c1_def keep_preferred_def split: option.splits)
  have dist: "distinct (map fst (AList.update f c1 legacy))"
    using Cons.prems(4) by (simp add: distinct_update)
  have ok: "\<forall>f' c. map_of (AList.update f c1 legacy) f' = Some c \<longrightarrow> candidate_fact c = Some f' \<and> P c \<and> c \<in> C"
    using Cons.prems(5) c1 by (auto simp: update_conv')
  have kept: "c0 \<in> ran (map_of (AList.update f c1 legacy))"
    if cur: "only_current C c0" and c0: "c0 \<in> ran (map_of legacy) \<or> c0 = c" for c0
  proof (cases "c = c0 \<or> map_of legacy f = Some c0")
    case True
    have "c1 = c0"
    proof (cases "map_of legacy f")
      case None
      then show ?thesis using True by (simp add: c1_def)
    next
      case (Some s)
      then have "s \<in> C" using Cons.prems(5) by blast
      then have "keep_preferred c s = c0"
        using True Some cur c(1) by (intro keep_preferred_current) (auto simp: only_current_def)
      then show ?thesis using Some by (simp add: c1_def)
    qed
    then show ?thesis by (auto simp: ran_def update_conv')
  next
    case False
    then have "c0 \<in> ran (map_of legacy)" using c0 by blast
    then obtain f' where "map_of legacy f' = Some c0" by (auto simp: ran_def)
    moreover from this False have "f' \<noteq> f" by auto
    ultimately have "map_of legacy f' = Some c0" "f' \<noteq> f" by simp_all
    then show ?thesis by (auto simp: ran_def update_conv')
  qed
  show ?case
    using Cons.IH [OF run cs dist ok] kept by auto
qed

section \<open>The reduction\<close>

lemma distinct_map_by_key:
  assumes "distinct (map fst xs)"
    and "\<And>k v k' v'. (k, v) \<in> set xs \<Longrightarrow> (k', v') \<in> set xs \<Longrightarrow> h (k, v) = h (k', v') \<Longrightarrow> k = k'"
  shows "distinct (map h xs)"
  using assms
proof (induction xs)
  case (Cons x xs)
  obtain k v where x: "x = (k, v)" by (cases x)
  have "h x \<notin> h ` set xs"
  proof
    assume "h x \<in> h ` set xs"
    then obtain k' v' where y: "(k', v') \<in> set xs" "h (k, v) = h (k', v')" by (auto simp: x)
    then have "k = k'" using Cons.prems(2) [of k v k' v'] by (simp add: x)
    then show False using y Cons.prems(1) by (auto simp: x image_iff)
  qed
  moreover have "distinct (map h xs)"
    using Cons.prems by (intro Cons.IH) (simp, meson list.set_intros(2))
  ultimately show ?case by simp
qed simp

lemma belongs_identity:
  assumes "belongs key J k c"
  shows "action_identity key (ca_event c) = Strong k \<or>
    (\<exists>f. action_identity key (ca_event c) = Source_Fact f \<and> J f = [k])"
  using assms by (auto simp: belongs_def action_identity_def candidate_fact_def)

lemma weak_identity:
  "key (ca_event c) = None \<Longrightarrow> candidate_fact c = Some f \<Longrightarrow> action_identity key (ca_event c) = Source_Fact f"
  "key (ca_event c) = None \<Longrightarrow> candidate_fact c = None \<Longrightarrow> action_identity key (ca_event c) = Anonymous"
  by (simp_all add: action_identity_def candidate_fact_def)

text \<open>The three parts of the result and what is known of each.\<close>

definition dedupe_shape ::
  "(progress_event \<Rightarrow> string option) \<Rightarrow> candidate list \<Rightarrow> progress_event list \<Rightarrow> groups \<Rightarrow>
   (string \<times> candidate) list \<Rightarrow> (string \<Rightarrow> string list) \<Rightarrow> bool" where
  "dedupe_shape key cs kept groups legacy J \<longleftrightarrow>
     kept = map (\<lambda>(_, g). ca_event (sg_selected g)) groups @ map (\<lambda>(_, c). ca_event c) legacy @
       map ca_event (filter (\<lambda>c. key (ca_event c) = None \<and> candidate_fact c = None) cs) \<and>
     groups_ok key (set cs) J groups \<and>
     fst ` set groups = {k. \<exists>c\<in>set cs. key (ca_event c) = Some k} \<and>
     distinct (map fst legacy) \<and>
     (\<forall>f c. map_of legacy f = Some c \<longrightarrow>
       candidate_fact c = Some f \<and> key (ca_event c) = None \<and> stray J c \<and> c \<in> set cs) \<and>
     (\<forall>c0\<in>set cs. only_current (set cs) c0 \<longrightarrow>
       selects groups c0 \<or> c0 \<in> ran (map_of legacy) \<or> key (ca_event c0) = None \<and> candidate_fact c0 = None)"

lemma dedupe_has_shape:
  fixes current history key
  defines "cs \<equiv> progress_candidates current history"
  shows "\<exists>groups legacy J. dedupe_shape key cs (dedupe_progress_events key current history) groups legacy J"
proof -
  obtain groups1 weak where loop1: "group_strong key cs [] [] = (groups1, weak)"
    by (cases "group_strong key cs [] []")
  obtain groups unmerged plain1 where loop2: "merge_legacy weak groups1 [] [] = (groups, unmerged, plain1)"
    by (cases "merge_legacy weak groups1 [] []") auto
  obtain legacy plain where loop3: "select_legacy unmerged [] plain1 = (legacy, plain)"
    by (cases "select_legacy unmerged [] plain1")
  define J where "J = joins groups1"
  have start: "groups_ok key (set cs) (\<lambda>_. []) []" by (simp add: groups_ok_def)
  note r1 = group_strong_result [OF loop1 start order_refl]
  have weak: "weak = filter (\<lambda>c. key (ca_event c) = None) cs" using r1 by simp
  have ok1: "groups_ok key (set cs) J groups1"
    using r1 by (fastforce simp: groups_ok_def belongs_def)
  have "set weak \<subseteq> set cs" and "\<forall>c\<in>set weak. key (ca_event c) = None" using weak by auto
  note r2 = merge_legacy_result [OF loop2 ok1 J_def [symmetric] this]
  have unmerged: "unmerged = filter (stray J) weak" using r2 by simp
  have strays: "\<forall>c\<in>set unmerged. (key (ca_event c) = None \<and> stray J c) \<and> candidate_fact c \<noteq> None"
    using unmerged weak by (auto simp: stray_def)
  have "set unmerged \<subseteq> set cs" using unmerged weak by auto
  note r3 = select_legacy_result [OF loop3 this strays]
  have plain: "plain = map ca_event (filter (\<lambda>c. key (ca_event c) = None \<and> candidate_fact c = None) cs)"
    using r3 r2 weak by (simp add: conj_commute)
  have "dedupe_shape key cs (dedupe_progress_events key current history) groups legacy J"
    unfolding dedupe_shape_def
  proof (intro conjI)
    show "dedupe_progress_events key current history =
       map (\<lambda>(_, g). ca_event (sg_selected g)) groups @ map (\<lambda>(_, c). ca_event c) legacy @
       map ca_event (filter (\<lambda>c. key (ca_event c) = None \<and> candidate_fact c = None) cs)"
      using loop1 loop2 loop3 plain by (simp add: dedupe_progress_events_def cs_def)
    show "groups_ok key (set cs) J groups" using r2 by simp
    show "fst ` set groups = {k. \<exists>c\<in>set cs. key (ca_event c) = Some k}"
      using r1 r2 by (metis (no_types, lifting) Un_empty_left image_empty list.set(1) list.set_map)
    show "distinct (map fst legacy)" using r3 by simp
    show "\<forall>f c. map_of legacy f = Some c \<longrightarrow>
        candidate_fact c = Some f \<and> key (ca_event c) = None \<and> stray J c \<and> c \<in> set cs"
      using r3 by simp
    show "\<forall>c0\<in>set cs. only_current (set cs) c0 \<longrightarrow>
        selects groups c0 \<or> c0 \<in> ran (map_of legacy) \<or> key (ca_event c0) = None \<and> candidate_fact c0 = None"
    proof (intro ballI impI)
      fix c0 assume c0: "c0 \<in> set cs" "only_current (set cs) c0"
      show "selects groups c0 \<or> c0 \<in> ran (map_of legacy) \<or> key (ca_event c0) = None \<and> candidate_fact c0 = None"
      proof (cases "key (ca_event c0) = None")
        case False
        then show ?thesis using r1 r2 c0 by blast
      next
        case True
        then have "c0 \<in> set weak" using weak c0 by simp
        moreover have "c0 \<in> ran (map_of legacy)" if "stray J c0"
        proof -
          have "c0 \<in> set unmerged" using that unmerged \<open>c0 \<in> set weak\<close> by simp
          with r3 c0(2) show ?thesis by simp
        qed
        moreover have "selects groups c0" if "candidate_fact c0 \<noteq> None" "\<not> stray J c0"
          using r2 c0(2) \<open>c0 \<in> set weak\<close> that by blast
        ultimately show ?thesis using True by blast
      qed
    qed
  qed
  then show ?thesis by blast
qed

section \<open>Properties\<close>

lemma ran_in_alist: "c \<in> ran (map_of m) \<Longrightarrow> \<exists>k. (k, c) \<in> set m"
  by (auto simp: ran_def dest: map_of_SomeD)

lemma shape_group:
  assumes "dedupe_shape key cs kept groups legacy J" and "(k, g) \<in> set groups"
  shows "sg_selected g \<in> set cs" and "belongs key J k (sg_selected g)"
  using assms by (auto simp: dedupe_shape_def groups_ok_def)

lemma shape_legacy:
  assumes "dedupe_shape key cs kept groups legacy J" and "(f, c) \<in> set legacy"
  shows "candidate_fact c = Some f" and "action_identity key (ca_event c) = Source_Fact f"
    and "stray J c" and "c \<in> set cs"
  using assms weak_identity(1) by (auto simp: dedupe_shape_def)

lemma anonymous_iff:
  "action_identity key (ca_event c) = Anonymous \<longleftrightarrow> key (ca_event c) = None \<and> candidate_fact c = None"
  by (auto simp: action_identity_def candidate_fact_def split: option.splits)

lemma shape_identities:
  assumes shape: "dedupe_shape key cs kept groups legacy J"
  shows "filter (\<lambda>a. a \<noteq> Anonymous) (map (action_identity key) kept) =
    map (\<lambda>(_, g). action_identity key (ca_event (sg_selected g))) groups @
    map (\<lambda>(_, c). action_identity key (ca_event c)) legacy" (is "_ = ?G @ ?L")
    and "filter (\<lambda>e. action_identity key e = Anonymous) kept =
      filter (\<lambda>e. action_identity key e = Anonymous) (map ca_event cs)"
proof -
  let ?id = "action_identity key"
  have kept: "kept = map (\<lambda>(_, g). ca_event (sg_selected g)) groups @ map (\<lambda>(_, c). ca_event c) legacy @
      map ca_event (filter (\<lambda>c. key (ca_event c) = None \<and> candidate_fact c = None) cs)"
    using shape by (simp add: dedupe_shape_def)
  have G: "Anonymous \<notin> set ?G" using shape_group [OF shape] belongs_identity by fastforce
  have L: "Anonymous \<notin> set ?L" using shape_legacy(2) [OF shape] by fastforce
  have "map ?id kept = ?G @ ?L @ map (\<lambda>c. ?id (ca_event c))
      (filter (\<lambda>c. key (ca_event c) = None \<and> candidate_fact c = None) cs)"
    by (simp add: kept comp_def case_prod_unfold)
  moreover have "filter (\<lambda>a. a \<noteq> Anonymous) ?G = ?G" and "filter (\<lambda>a. a \<noteq> Anonymous) ?L = ?L"
    using G L by (metis (mono_tags, lifting) filter_True)+
  moreover have "filter (\<lambda>a. a \<noteq> Anonymous) (map (\<lambda>c. ?id (ca_event c))
      (filter (\<lambda>c. key (ca_event c) = None \<and> candidate_fact c = None) cs)) = []"
    by (auto simp: filter_empty_conv anonymous_iff)
  ultimately show "filter (\<lambda>a. a \<noteq> Anonymous) (map ?id kept) = ?G @ ?L" by simp
  have "filter (\<lambda>e. ?id e = Anonymous) (map (\<lambda>(_, g). ca_event (sg_selected g)) groups) = []"
    using belongs_identity [OF shape_group(2) [OF shape]] by (fastforce simp: filter_empty_conv)
  moreover have "filter (\<lambda>e. ?id e = Anonymous) (map (\<lambda>(_, c). ca_event c) legacy) = []"
    using shape_legacy(2) [OF shape] by (fastforce simp: filter_empty_conv)
  ultimately show "filter (\<lambda>e. ?id e = Anonymous) kept = filter (\<lambda>e. ?id e = Anonymous) (map ca_event cs)"
    by (simp add: kept filter_map comp_def anonymous_iff)
qed

lemma shape_distinct:
  assumes shape: "dedupe_shape key cs kept groups legacy J"
  shows "distinct (filter (\<lambda>a. a \<noteq> Anonymous) (map (action_identity key) kept))"
proof -
  let ?id = "action_identity key"
  let ?G = "map (\<lambda>(_, g). ?id (ca_event (sg_selected g))) groups" and ?L = "map (\<lambda>(_, c). ?id (ca_event c)) legacy"
  have keys: "distinct (map fst groups)" "distinct (map fst legacy)"
    using shape by (simp_all add: dedupe_shape_def groups_ok_def)
  have "distinct ?G"
    by (rule distinct_map_by_key [OF keys(1)]) (auto dest!: shape_group(2) [OF shape] belongs_identity)
  moreover have "distinct ?L"
    by (rule distinct_map_by_key [OF keys(2)]) (auto dest!: shape_legacy(2) [OF shape])
  moreover have "set ?G \<inter> set ?L = {}"
  proof -
    have False if g: "(k, g) \<in> set groups" and c: "(f, c) \<in> set legacy"
      and same: "?id (ca_event (sg_selected g)) = ?id (ca_event c)" for k g f c
      using belongs_identity [OF shape_group(2) [OF shape g]] shape_legacy(1-3) [OF shape c] same
      by (auto simp: stray_def)
    then show ?thesis by fastforce
  qed
  ultimately show ?thesis
    unfolding shape_identities(1) [OF shape] by simp
qed

lemma shape_current:
  assumes shape: "dedupe_shape key cs kept groups legacy J" and c: "c \<in> set cs" and cur: "only_current (set cs) c"
  shows "ca_event c \<in> set kept"
proof -
  have kept: "kept = map (\<lambda>(_, g). ca_event (sg_selected g)) groups @ map (\<lambda>(_, c). ca_event c) legacy @
      map ca_event (filter (\<lambda>c. key (ca_event c) = None \<and> candidate_fact c = None) cs)"
    using shape by (simp add: dedupe_shape_def)
  have "selects groups c \<or> c \<in> ran (map_of legacy) \<or> key (ca_event c) = None \<and> candidate_fact c = None"
    using shape c cur unfolding dedupe_shape_def by blast
  then consider "selects groups c" | "c \<in> ran (map_of legacy)" | "key (ca_event c) = None \<and> candidate_fact c = None"
    by blast
  then show ?thesis
  proof cases
    case 1
    then obtain k g where g: "(k, g) \<in> set groups" "sg_selected g = c"
      by (auto simp: selects_def dest: map_of_SomeD)
    have "ca_event c \<in> set (map (\<lambda>(_, g). ca_event (sg_selected g)) groups)"
      unfolding set_map by (rule rev_image_eqI [OF g(1)]) (simp add: g(2))
    then show ?thesis by (simp only: kept set_append Un_iff simp_thms)
  next
    case 2
    from ran_in_alist [OF this] obtain f where f: "(f, c) \<in> set legacy" ..
    have "ca_event c \<in> set (map (\<lambda>(_, c). ca_event c) legacy)"
      unfolding set_map by (rule rev_image_eqI [OF f]) simp
    then show ?thesis by (simp only: kept set_append Un_iff simp_thms)
  next
    case 3
    with c show ?thesis unfolding kept by simp
  qed
qed

lemma shape_given:
  assumes shape: "dedupe_shape key cs kept groups legacy J"
  shows "set kept \<subseteq> ca_event ` set cs" and "card {k. \<exists>c\<in>set cs. key (ca_event c) = Some k} \<le> length kept"
proof -
  have kept: "kept = map (\<lambda>(_, g). ca_event (sg_selected g)) groups @ map (\<lambda>(_, c). ca_event c) legacy @
      map ca_event (filter (\<lambda>c. key (ca_event c) = None \<and> candidate_fact c = None) cs)"
    and keys: "fst ` set groups = {k. \<exists>c\<in>set cs. key (ca_event c) = Some k}"
    using shape by (simp_all add: dedupe_shape_def)
  show "set kept \<subseteq> ca_event ` set cs"
    using shape_group(1) [OF shape] shape_legacy(4) [OF shape] unfolding kept by auto
  have "card (fst ` set groups) \<le> length groups"
    by (metis card_length length_map list.set_map)
  then show "card {k. \<exists>c\<in>set cs. key (ca_event c) = Some k} \<le> length kept"
    by (simp add: kept flip: keys)
qed

definition given_events :: "progress_event option \<Rightarrow> progress_event list \<Rightarrow> progress_event list" where
  "given_events current history = history @ (case current of None \<Rightarrow> [] | Some e \<Rightarrow> [e])"

lemma candidate_events: "map ca_event (progress_candidates current history) = given_events current history"
  by (cases current) (simp_all add: given_events_def progress_candidates_def comp_def)


text \<open>One session, reported by two parser runs and then by the live adapter.\<close>

definition sample_play :: "string \<Rightarrow> int \<Rightarrow> progress_event" where
  "sample_play event t =
     (visit_at t)\<lparr>pe_eventType := event, pe_externalProvider := Some ''langame'',
       pe_externalDomain := Some ''club.example.com'', pe_sourceKind := Some ''GUEST_SESSION'',
       pe_sessionExternalId := Some ''77'', pe_sourceFactId := Some ''fact-1'', pe_sessionMinutes := Some 60\<rparr>"

definition sample_key :: "progress_event \<Rightarrow> string option" where
  "sample_key = strong_identity (\<lambda>_. None) id"

lemma sample_kept:
  "dedupe_progress_events sample_key (Some (sample_play ''SESSION_STOP'' 3000))
     [sample_play ''PLAY_HOUR'' 1000, sample_play ''HOURLY_PLAY_TIME_ACCUMULATED'' 2000] =
   [sample_play ''SESSION_STOP'' 3000]"
  by code_simp


end
