(* ===== verification/Game_Result.thy ===== *)
theory Game_Result
  imports Game_Dedupe
begin

text \<open>
  What the evaluation of a rule promises as a whole (\<open>evaluateGuestGameProgress\<close>): the result is within its
  bounds and consistent, and the facts that earned a reward never earn the next one.
\<close>

section \<open>Values\<close>

lemma fold_sum_nonneg:
  fixes f :: "'e \<Rightarrow> rat"
  assumes "\<And>e. 0 \<le> f e" and "0 \<le> s"
  shows "0 \<le> fold (\<lambda>e sum. sum + f e) es s"
  using assms(2) by (induction es arbitrary: s) (simp_all add: assms(1))

lemma round_progress_nonneg: "0 \<le> v \<Longrightarrow> 0 \<le> round_progress v"
proof -
  assume "0 \<le> v"
  then have "(0 :: rat) \<le> v * 100 + 1 / 2" by simp
  then have "0 \<le> js_round (v * 100)" by (simp add: js_round_def)
  then show ?thesis by (simp add: round_progress_def)
qed

lemma active_day_streak_nonneg: "0 \<le> active_day_streak (map civil_of_day ns) target (civil_of_day today)"
proof -
  obtain longest current where runs: "longest_run (set ns) longest"
      "ns \<noteq> [] \<longrightarrow> ending_run (set ns) (Max (set ns)) current"
    and streak: "active_day_streak (map civil_of_day ns) target (civil_of_day today) =
      (if target \<le> of_int longest then longest else if ns = [] \<or> Max (set ns) < today - 1 then 0 else current)"
    by (rule active_day_streak_runs)
  have "is_run (set ns) 0 0" by (simp add: is_run_def)
  then have "0 \<le> longest" using runs(1) unfolding longest_run_def by blast
  then show ?thesis using runs(2) streak by (auto simp: ending_run_def)
qed

lemma progress_value_nonneg:
  "0 \<le> progress_value zdb agg events zone target (local_date_key zdb zone reference)"
proof -
  have streak: "0 \<le> active_day_streak (map (\<lambda>e. local_date_key zdb zone (pe_occurredAt e)) events) target
      (local_date_key zdb zone reference)"
    using active_day_streak_nonneg [of "map (\<lambda>e. local_day zdb zone (pe_occurredAt e)) events"]
    by (simp add: local_date_key_day comp_def)
  have sums: "0 \<le> fold (\<lambda>e sum. sum + spend_amount_of e) events 0"
    "0 \<le> fold (\<lambda>e sum. sum + (of_int (session_minutes_of e) :: rat)) events 0"
    by (intro fold_sum_nonneg; simp add: spend_amount_of_def session_minutes_of_def)+
  show ?thesis
    by (cases agg) (simp_all add: progress_value_def streak sums round_progress_nonneg)
qed

lemma floor_half [simp]: "\<lfloor>1 / 2 :: rat\<rfloor> = 0"
  by (simp add: floor_eq_iff)

lemma progress_value_none:
  assumes "1 \<le> target"
  shows "progress_value zdb agg [] zone target reference = 0"
  using assms
  by (cases agg) (simp_all add: progress_value_def round_progress_def js_round_def active_day_streak_def
      js_uniq_def)

lemma progress_percent_range: "0 \<le> progress_percent c t \<and> progress_percent c t \<le> 100"
  by (simp add: progress_percent_def)

lemma progress_percent_full:
  assumes "0 < t"
  shows "progress_percent c t = 100 \<longleftrightarrow> 199 * t \<le> 200 * c"
proof -
  have "progress_percent c t = 100 \<longleftrightarrow> 100 \<le> js_round (c / t * 100)"
    using assms by (auto simp: progress_percent_def)
  also have "\<dots> \<longleftrightarrow> 199 / 2 \<le> c / t * 100"
    by (simp add: js_round_def le_floor_iff) linarith
  also have "\<dots> \<longleftrightarrow> 199 * t \<le> 200 * c"
    using assms by (simp add: field_simps)
  finally show ?thesis .
qed

section \<open>The events that count\<close>

lemma apply_overlap_time: "pe_occurredAt (fst (apply_overlap zdb zone spec e)) = pe_occurredAt e"
  by (simp add: apply_overlap_def split: option.split)

lemma dedupe_given: "set (dedupe_progress_events key current history) \<subseteq> set (given_events current history)"
  using dedupe_has_shape [of key current history] shape_given(1)
  by (metis candidate_events list.set_map)

lemma matched_event_given:
  assumes "e \<in> set (matched_events zdb legacy key rule st current history)"
  shows "\<exists>e0\<in>set (given_events current history). pe_occurredAt e0 = pe_occurredAt e"
    and "\<exists>applied. matches_progress_event zdb legacy rule (ps_conditions st) (ps_metric st) e
      (ps_reference st) (setup_options st applied)"
proof -
  let ?apply = "apply_overlap zdb (pr_timeZone rule) (ps_overlapSpec st)"
  obtain x where x: "x \<in> set (map ?apply (dedupe_progress_events key current history))"
    and e: "e = fst x"
    and m: "matches_progress_event zdb legacy rule (ps_conditions st) (ps_metric st) (fst x) (ps_reference st)
      (setup_options st (snd x))"
    using assms unfolding matched_events_def by (auto simp only: set_map set_filter case_prod_unfold)
  obtain e0 where e0: "e0 \<in> set (dedupe_progress_events key current history)" "x = ?apply e0"
    using x by auto
  show "\<exists>e0\<in>set (given_events current history). pe_occurredAt e0 = pe_occurredAt e"
    using e0 e dedupe_given apply_overlap_time by (metis subsetD)
  show "\<exists>applied. matches_progress_event zdb legacy rule (ps_conditions st) (ps_metric st) e
      (ps_reference st) (setup_options st applied)"
    using m e by blast
qed

lemma matched_after_completion:
  assumes "matches_progress_event zdb legacy rule conditions metric e reference (setup_options st applied)"
    and "ps_completedAt st = Some c"
    and "ps_resetImmediately st \<or> ps_multiDayGoal st \<and> c \<le> ps_reference st"
  shows "c < pe_occurredAt e"
  using assms by (auto simp: matches_progress_event_def setup_options_def)

lemma setup_completion:
  assumes "date_of legacy (pr_repeatCompletedAt rule) = Some c"
    and "c \<le> (case current of Some e \<Rightarrow> pe_occurredAt e | None \<Rightarrow> now)"
    and "pr_repeatPeriodicity rule = None \<or> ps_multiDayGoal (progress_setup zdb legacy now rule current)"
  shows "ps_completedAt (progress_setup zdb legacy now rule current) = Some c"
    and "ps_resetImmediately (progress_setup zdb legacy now rule current) \<or>
      ps_multiDayGoal (progress_setup zdb legacy now rule current) \<and>
      c \<le> ps_reference (progress_setup zdb legacy now rule current)"
  using assms by (auto simp: progress_setup_def Let_def)

lemma evaluate_applicable:
  fixes zdb legacy now rule current
  defines "st \<equiv> progress_setup zdb legacy now rule current"
  assumes "evaluate_guest_game_progress zdb legacy key now rule current history = Some r" and "pg_applicable r"
  shows "pg_target r = max 1 (get_or (ps_target st) 1)"
    and "pg_current r = progress_value zdb (ps_aggregation st) (matched_events zdb legacy key rule st current history)
      (pr_timeZone rule) (pg_target r) (local_date_key zdb (pr_timeZone rule) (ps_reference st))"
    and "pg_percent r = progress_percent (pg_current r) (pg_target r)"
    and "pg_completed r \<longleftrightarrow> pg_target r \<le> pg_current r \<and>
      product_coverage_matches (ps_conditions st) (ps_metric st) (matched_events zdb legacy key rule st current history)"
    and "pg_matchedEvents r = length (matched_events zdb legacy key rule st current history)"
  using assms
  by (auto simp: evaluate_guest_game_progress_def Let_def split: if_splits)

section \<open>Properties\<close>



text \<open>A mission of two check-ins, evaluated again after it has been completed at 2000.\<close>

definition sample_mission :: "date_value \<Rightarrow> progress_rule" where
  "sample_mission completedAt =
     \<lparr>pr_triggerKind = ''CHECK_IN'', pr_progressTarget = Some 2, pr_progressUnit = None, pr_conditions = JNull,
      pr_storeIds = [], pr_externalDomains = [], pr_periodFrom = No_Date, pr_periodTo = No_Date,
      pr_timeZone = Some ''Europe/Moscow'', pr_repeatPeriodicity = None, pr_repeatCompletedAt = completedAt\<rparr>"

definition sample_result :: "rat \<Rightarrow> int \<Rightarrow> nat \<Rightarrow> progress_result" where
  "sample_result current percent n =
     \<lparr>pg_applicable = True, pg_aggregation = AGG_COUNT, pg_current = current, pg_target = 2,
      pg_percent = percent, pg_completed = (n = 2), pg_matchedEvents = n, pg_unit = None,
      pg_windowDays = Some 365, pg_repeatCycleReset = False\<rparr>"

lemma sample_evaluation:
  "evaluate_guest_game_progress moscow_db (\<lambda>_. Invalid_Date) sample_key 3000 (sample_mission No_Date)
     (Some (visit_at 2000)) [visit_at 1000] = Some (sample_result 2 100 2)"
  "evaluate_guest_game_progress moscow_db (\<lambda>_. Invalid_Date) sample_key 3000 (sample_mission (Date_Value (At 2000)))
     (Some (visit_at 2000)) [visit_at 1000] = Some (sample_result 0 0 0)"
  by code_simp+



end
