(* ===== verification/Ledger_Rule.thy ===== *)
theory Ledger_Rule
  imports Game_Progress
begin

text \<open>
  The evaluation of a rule on the facts of the activity ledger (\<open>guest-game-rule-evaluator.ts\<close>), which
  recovers rewards from history and cross-checks the live events.

  Texts for people are left out: a blocker is a constructor of \<open>ledger_reason\<close>, and an evaluation keeps
  its status, blockers, facts and progress. A fact whose duration was replaced by the minutes inside an
  OVERLAP window is marked by the flag beside it (the \<open>WeakSet\<close> of the source). Objects are told apart
  by their position in the list of facts. \<open>Intl\<close> throws on an unknown zone: the evaluation is then \<open>None\<close>.
\<close>

section \<open>Data\<close>

record ledger_rule =
  lr_triggerKind :: "string option"
  lr_sessionType :: "string option"
  lr_activatedAt :: int
  lr_periodFrom :: "int option"
  lr_periodTo :: "int option"
  lr_periodRules :: js_value
  lr_storeIds :: "string list"
  lr_externalDomains :: "string list"
  lr_domainTimeZones :: "(string \<times> string) list"
  lr_progressTarget :: "rat option"
  lr_progressUnit :: "string option"

record ledger_fact =
  lf_id :: string
  lf_factType :: string
  lf_confidence :: string
  lf_happenedAt :: "int option"
  lf_createdAt :: int
  lf_storeId :: "string option"
  lf_externalDomain :: "string option"
  lf_amount :: "rat option"
  lf_durationMinutes :: "int option"
  lf_evidence :: js_value
  lf_storeTimeZone :: "string option"
  lf_sourceExternalId :: "string option"
  lf_sessionExternalId :: "string option"

datatype evaluation_mode = EVENT_PARITY | HISTORICAL_RECOVERY

record ledger_context =
  lc_mode :: evaluation_mode
  lc_sourceEventType :: "string option"
  lc_sourceFactId :: "string option"
  lc_sourceExternalId :: "string option"
  lc_sourceOriginKey :: "string option"
  lc_sourceSessionExternalId :: "string option"
  lc_occurredAt :: "jsdate option"
  lc_correlationWindowMs :: "int option"

datatype ledger_reason =
  BEFORE_ACTIVATION | BEFORE_PERIOD | AFTER_PERIOD | OTHER_SELECTED_STORE | STORE_UNKNOWN | STORE_OUT_OF_SCOPE
| RULE_DOMAIN_UNKNOWN | FACT_DOMAIN_UNKNOWN | DOMAIN_OUT_OF_SCOPE | OUT_OF_WINDOW | TIME_ZONE_MISSING
| WEEKDAY_OUT | HOURS_OUT | OUTSIDE_LAST_DAYS rat | SESSION_SHORT rat | AMOUNT_NOT_EXACT rat | AMOUNT_BELOW rat
| PRODUCT_FIELDS_MISSING "string list" | PRODUCT_MISMATCH | CATEGORIES_MISSING nat | PRODUCTS_MISSING nat
| NO_RECENT_FACTS | NO_LONG_SESSION rat | NO_EXACT_AMOUNT rat | NO_MIN_AMOUNT rat
| LOCAL_DAY_TIMEZONE_MISSING | TARGET_NOT_REACHED rat rat | NO_FACTS "string list"
| PARITY_SOURCE_EVENT_MISSING | PARITY_TRIGGER_MISMATCH | PARITY_CURRENT_FACT_NOT_FOUND
| PARITY_CURRENT_FACT_OUT_OF_SCOPE

datatype ledger_status = MATCHED | BLOCKED | NO_MATCH | INSUFFICIENT_DATA

record ledger_progress =
  lp_aggregation :: aggregation
  lp_current :: rat
  lp_target :: rat
  lp_unit :: "string option"
  lp_matchedFacts :: nat

record ledger_evaluation =
  le_status :: ledger_status
  le_blockers :: "ledger_reason list"
  le_facts :: "ledger_fact list"
  le_progress :: "ledger_progress option"

type_synonym marked_fact = "ledger_fact \<times> bool"

section \<open>Values\<close>

text \<open>\<open>nullableString\<close> of a text, and of the texts that are tested for truth.\<close>

definition nullable_text :: "string option \<Rightarrow> string option" where
  "nullable_text v = (case v of None \<Rightarrow> None | Some s \<Rightarrow> non_empty (js_trim s))"

definition truthy :: "string option \<Rightarrow> string option" where
  "truthy v = (case v of None \<Rightarrow> None | Some s \<Rightarrow> non_empty s)"

definition normalize_ledger_token :: "string option \<Rightarrow> string" where
  "normalize_ledger_token v = js_lower (js_trim (get_or v []))"

definition guest_game_string_array :: "js_value \<Rightarrow> string list" where
  "guest_game_string_array v =
     (case v of JArr vs \<Rightarrow> concat (map (\<lambda>x. case x of JStr s \<Rightarrow> [s] | _ \<Rightarrow> []) vs) | _ \<Rightarrow> [])"

definition decimal_number :: "rat option \<Rightarrow> rat" where
  "decimal_number v = get_or v 0"

definition fact_time :: "ledger_fact \<Rightarrow> int" where
  "fact_time f = get_or (lf_happenedAt f) (lf_createdAt f)"

definition minutes_of :: "ledger_fact \<Rightarrow> int" where
  "minutes_of f = max 0 (get_or (lf_durationMinutes f) 0)"

text \<open>The settings of a rule: \<open>jsonObject(rule.periodRules) ?? {}\<close> and its \<open>metric\<close>.\<close>

definition rule_conditions :: "ledger_rule \<Rightarrow> js_record" where
  "rule_conditions rule = progress_record (lr_periodRules rule)"

definition rule_metric :: "ledger_rule \<Rightarrow> js_record" where
  "rule_metric rule = progress_record (js_prop (rule_conditions rule) ''metric'')"

section \<open>Rules\<close>

definition guest_game_rule_activation_at :: "(string \<Rightarrow> jsdate) \<Rightarrow> int \<Rightarrow> js_value \<Rightarrow> int" where
  "guest_game_rule_activation_at legacy createdAt metadata =
     (let o1 = progress_record metadata;
          candidates = concat (map (\<lambda>v. case v of
              JStr s \<Rightarrow> (case js_parse_date legacy s of At t \<Rightarrow> [t] | Invalid_Date \<Rightarrow> [])
            | _ \<Rightarrow> []) [js_prop o1 ''activatedAt'', js_prop o1 ''restartedAt''])
      in fold (\<lambda>c latest. if latest < c then c else latest) candidates createdAt)"

definition guest_game_rule_external_domains ::
  "string list \<Rightarrow> (string \<times> string option) list \<Rightarrow> string list" where
  "guest_game_rule_external_domains storeIds stores =
     (if storeIds = [] then []
      else js_uniq (List.map_filter (\<lambda>(_, d). nullable_text d) (filter (\<lambda>(i, _). i \<in> set storeIds) stores)))"

text \<open>The zones of a domain and whether a club of it has none, for the selected clubs.\<close>

definition guest_game_rule_domain_time_zones ::
  "zone_db \<Rightarrow> string list \<Rightarrow> (string \<times> string option \<times> string option) list \<Rightarrow> (string \<times> string) list" where
  "guest_game_rule_domain_time_zones zdb storeIds stores =
     (if storeIds = [] then []
      else
        (let rows = List.map_filter (\<lambda>(_, d, z). map_option (\<lambda>d. (d, nullable_text z)) (nullable_text d))
               (filter (\<lambda>(i, _). i \<in> set storeIds) stores);
             candidates = js_group fst ([], False)
               (\<lambda>(_, z) (zones, incomplete). case z of
                  Some z \<Rightarrow> if zdb z \<noteq> None then (add_fact (Some z) zones, incomplete) else (zones, True)
                | None \<Rightarrow> (zones, True)) rows
         in concat (map (\<lambda>(d, zones, incomplete).
              case zones of [z] \<Rightarrow> if incomplete then [] else [(d, z)] | _ \<Rightarrow> []) candidates)))"

definition guest_game_session_type_from_conditions :: "js_value \<Rightarrow> string option" where
  "guest_game_session_type_from_conditions conditions =
     progress_string (js_prop (progress_record conditions) ''sessionType'')"

definition contains_any :: "string list \<Rightarrow> string \<Rightarrow> bool" where
  "contains_any ps s \<longleftrightarrow> list_ex (\<lambda>p. contains_text p s) ps"

definition relevant_guest_game_facts :: "string option \<Rightarrow> string option \<Rightarrow> string list" where
  "relevant_guest_game_facts triggerKind sessionType =
     (let trigger = js_upper (get_or triggerKind []); session = js_upper (get_or sessionType []);
          package = contains_any [''PACKET'', ''PACKAGE'', ''SUBSCRIPTION''] session;
          hourly = contains_any [''HOURLY'', ''REGULAR''] session
      in if contains_any [''PLAY_TIME'', ''TIME_PLAYED'', ''MINUTE'', ''HOUR''] trigger then
           (if package then [''PACKAGE_OR_SUBSCRIPTION_PLAY_TIME_ACCUMULATED'']
            else if hourly then [''HOURLY_PLAY_TIME_ACCUMULATED'']
            else [''SESSION_PLAY_TIME_ACCUMULATED'', ''HOURLY_PLAY_TIME_ACCUMULATED'',
                  ''PACKAGE_OR_SUBSCRIPTION_PLAY_TIME_ACCUMULATED''])
         else if contains_text ''SESSION'' trigger then
           (if package then [''PACKAGE_OR_SUBSCRIPTION_USED'']
            else if hourly then [''HOURLY_SESSION_STARTED'']
            else [''SESSION_STARTED''])
         else if contains_any [''BALANCE_TOPUP'', ''BALANCE_TOP_UP'', ''ACCOUNT_TOPUP'', ''TOPUP'', ''DEPOSIT''] trigger
         then [''BALANCE_TOPUP'']
         else if contains_any [''PRODUCT'', ''GOODS'', ''PURCHASE'', ''BAR'', ''ASSORTMENT''] trigger
         then [''PRODUCT_PURCHASED'']
         else if contains_text ''CHECK_IN'' trigger then [''CHECK_IN_PERFORMED'']
         else if contains_text ''APP_OPEN'' trigger then [''APP_OPENED'']
         else [''SESSION_STARTED'', ''VISIT'', ''REWARD_TRACE''])"

definition guest_game_ledger_rule_is_cumulative :: "ledger_rule \<Rightarrow> bool" where
  "guest_game_ledger_rule_is_cumulative rule =
     (let conditions = rule_conditions rule; metric = rule_metric rule;
          agg = normalize_ledger_token (or_else (progress_string (js_prop metric ''aggregation''))
            (progress_string (js_prop conditions ''aggregation'')));
          target = or_else (progress_number (js_or (js_prop metric ''target'') (js_prop conditions ''progressTarget'')))
            (lr_progressTarget rule)
      in agg \<in> set [''sum'', ''duration'', ''distinctdays'', ''streak''] \<or>
         (case target of None \<Rightarrow> False | Some t \<Rightarrow> 1 < t))"

section \<open>Time\<close>

definition ledger_fact_time_zone :: "ledger_rule \<Rightarrow> ledger_fact \<Rightarrow> string option" where
  "ledger_fact_time_zone rule f =
     (case nullable_text (lf_storeTimeZone f) of
        Some z \<Rightarrow> Some z
      | None \<Rightarrow>
          if lf_factType f \<noteq> ''BALANCE_TOPUP'' \<or> lf_storeId f \<noteq> None then None
          else (case nullable_text (lf_externalDomain f) of
             None \<Rightarrow> None
           | Some d \<Rightarrow> nullable_text (map_of (lr_domainTimeZones rule) d)))"

definition ledger_is_within_time_window :: "int \<Rightarrow> string \<Rightarrow> bool" where
  "ledger_is_within_time_window minutesOfDay window =
     (let parts = split_on (CHR ''-'') window
      in case (time_to_minutes (js_at parts 0), time_to_minutes (js_at parts 1)) of
           (Some from, Some to) \<Rightarrow>
             if from \<le> to then from \<le> minutesOfDay \<and> minutesOfDay \<le> to
             else from \<le> minutesOfDay \<or> minutesOfDay \<le> to
         | _ \<Rightarrow> False)"

text \<open>The blockers and the missing data of the period of a rule; \<open>None\<close> when \<open>Intl\<close> rejects the zone.\<close>

definition evaluate_guest_game_period ::
  "zone_db \<Rightarrow> ledger_rule \<Rightarrow> int \<Rightarrow> string option \<Rightarrow> (ledger_reason list \<times> ledger_reason list) option" where
  "evaluate_guest_game_period zdb rule happenedAt timeZone =
     (let rules = rule_conditions rule; metric = rule_metric rule;
          weekdayMode = map_option js_upper (progress_string (setting metric rules ''weekdayMode''));
          weekdays = number_values (setting metric rules ''weekdays'');
          hours = guest_game_string_array (setting metric rules ''hours'');
          weekdaysOnly = (js_prop metric ''weekdaysOnly'' = JBool True \<or> js_prop rules ''weekdaysOnly'' = JBool True);
          restricted = (weekdays \<noteq> [] \<or> weekdaysOnly \<or>
            weekdayMode \<in> set [Some ''WEEKDAYS'', Some ''WEEKENDS'', Some ''CUSTOM''])
      in if \<not> restricted \<and> hours = [] then Some ([], [])
         else case timeZone of
           None \<Rightarrow> Some ([], [TIME_ZONE_MISSING])
         | Some zone \<Rightarrow>
             if zdb zone = None then None
             else
               (let expected = (if weekdayMode = Some ''WEEKDAYS'' \<or> weekdaysOnly then [1, 2, 3, 4, 5]
                      else if weekdayMode = Some ''WEEKENDS'' then [0, 6] else weekdays)
                in Some
                  ((if expected \<noteq> [] \<and> local_weekday zdb (Some zone) happenedAt \<notin> set expected
                    then [WEEKDAY_OUT] else []) @
                   (if hours \<noteq> [] \<and>
                       \<not> list_ex (ledger_is_within_time_window (local_time_minutes zdb (Some zone) happenedAt)) hours
                    then [HOURS_OUT] else []), [])))"

definition local_fact_date_key :: "zone_db \<Rightarrow> ledger_rule \<Rightarrow> ledger_fact \<Rightarrow> civil option" where
  "local_fact_date_key zdb rule f =
     (case ledger_fact_time_zone rule f of
        None \<Rightarrow> None
      | Some zone \<Rightarrow> if zdb zone = None then None else Some (local_date_key zdb (Some zone) (fact_time f)))"

fun latest_fact :: "ledger_fact option \<Rightarrow> ledger_fact list \<Rightarrow> ledger_fact option" where
  "latest_fact latest [] = latest"
| "latest_fact latest (f # fs) =
     latest_fact (case latest of
        None \<Rightarrow> Some f
      | Some l \<Rightarrow> if fact_time l < fact_time f then Some f else Some l) fs"

definition ledger_reference_date_key ::
  "zone_db \<Rightarrow> ledger_rule \<Rightarrow> ledger_fact list \<Rightarrow> int \<Rightarrow> civil option" where
  "ledger_reference_date_key zdb rule facts evaluatedAt =
     (case latest_fact None facts of
        None \<Rightarrow> None
      | Some f \<Rightarrow>
          (case ledger_fact_time_zone rule f of
             None \<Rightarrow> None
           | Some zone \<Rightarrow> if zdb zone = None then None else Some (local_date_key zdb (Some zone) evaluatedAt)))"

section \<open>Products\<close>

datatype product_filter =
  PF_MATCHED "ledger_fact list" "ledger_reason option" | PF_BLOCKED ledger_reason | PF_INSUFFICIENT ledger_reason

definition matches_ledger_selector :: "string list \<Rightarrow> string option list \<Rightarrow> bool" where
  "matches_ledger_selector expected actual \<longleftrightarrow>
     expected = [] \<or>
     list_ex (\<lambda>v. case v of None \<Rightarrow> False | Some s \<Rightarrow> s \<noteq> [] \<and> s \<in> set expected) actual"

definition upper_setting :: "js_record \<Rightarrow> js_record \<Rightarrow> string \<Rightarrow> string option" where
  "upper_setting metric conditions k = map_option js_upper (progress_string (setting metric conditions k))"

text \<open>The selectors of a purchase condition, named as \<open>Object.entries(selectors)\<close> lists them.\<close>

definition leetplus_catalog :: "js_record \<Rightarrow> js_record \<Rightarrow> bool" where
  "leetplus_catalog conditions metric \<longleftrightarrow>
     upper_setting metric conditions ''categoryCatalogSource'' = Some ''LEETPLUS''"

definition category_source :: "js_record \<Rightarrow> js_record \<Rightarrow> bool" where
  "category_source conditions metric \<longleftrightarrow> upper_setting metric conditions ''purchaseSource'' = Some ''CATEGORY''"

definition ledger_selectors :: "js_record \<Rightarrow> js_record \<Rightarrow> (string \<times> string list) list" where
  "ledger_selectors conditions metric =
     (let categorySource = category_source conditions metric; leetplus = leetplus_catalog conditions metric
      in [(''productIds'', both metric conditions ''productIds'' ''productId''),
          (''externalProductIds'', both metric conditions ''externalProductIds'' ''externalProductId''),
          (''productNames'', map js_lower (both metric conditions ''productNames'' ''productName'')),
          (''categoryIds'', if categorySource \<and> \<not> leetplus then []
                            else both metric conditions ''categoryIds'' ''categoryId''),
          (''externalCategoryKeys'', if categorySource \<and> leetplus then []
                            else both metric conditions ''externalCategoryKeys'' ''externalCategoryKey''),
          (''categoryNames'', if categorySource then []
                            else map js_lower (both metric conditions ''categoryNames'' ''categoryName''))])"

definition selector :: "(string \<times> string list) list \<Rightarrow> string \<Rightarrow> string list" where
  "selector selectors k = get_or (map_of selectors k) []"

definition object_items :: "js_value \<Rightarrow> js_record list" where
  "object_items v =
     (case v of JArr vs \<Rightarrow> concat (map (\<lambda>x. case x of JObj o1 \<Rightarrow> [o1] | _ \<Rightarrow> []) vs) | _ \<Rightarrow> [])"

definition product_refs :: "js_record \<Rightarrow> string list list" where
  "product_refs metric =
     filter (\<lambda>ids. ids \<noteq> [])
       (map (\<lambda>o1. progress_string_values [js_prop o1 ''productId'', js_prop o1 ''externalProductId''])
         (object_items (js_prop metric ''productRefs'')))"

definition evidence_text :: "ledger_fact \<Rightarrow> string \<Rightarrow> string option" where
  "evidence_text f k = progress_string (js_prop (progress_record (lf_evidence f)) k)"

definition fields_present :: "ledger_fact \<Rightarrow> string list" where
  "fields_present f =
     (let present = (\<lambda>k. evidence_text f k \<noteq> None)
      in (if present ''productId'' then [''productIds''] else []) @
         (if present ''externalProductId'' \<or> present ''productId'' then [''externalProductIds''] else []) @
         (if present ''productName'' then [''productNames''] else []) @
         (if present ''categoryId'' then [''categoryIds''] else []) @
         (if present ''externalCategoryKey'' then [''externalCategoryKeys''] else []) @
         (if present ''categoryName'' then [''categoryNames''] else []))"

definition product_fact_matches :: "(string \<times> string list) list \<Rightarrow> string list \<Rightarrow> ledger_fact \<Rightarrow> bool" where
  "product_fact_matches selectors selectedIds f \<longleftrightarrow>
     matches_ledger_selector selectedIds [evidence_text f ''productId'', evidence_text f ''externalProductId''] \<and>
     matches_ledger_selector (selector selectors ''productNames'')
       [map_option js_lower (evidence_text f ''productName'')] \<and>
     matches_ledger_selector (selector selectors ''categoryIds'') [evidence_text f ''categoryId''] \<and>
     matches_ledger_selector (selector selectors ''externalCategoryKeys'')
       [evidence_text f ''externalCategoryKey''] \<and>
     matches_ledger_selector (selector selectors ''categoryNames'')
       [map_option js_lower (evidence_text f ''categoryName'')]"

text \<open>What an ALL condition still misses: categories of the configured selections, or products.\<close>

definition missing_categories :: "bool \<Rightarrow> js_value \<Rightarrow> ledger_fact list \<Rightarrow> nat" where
  "missing_categories leetplus selections matched =
     (let field = (if leetplus then ''categoryIds'' else ''externalCategoryKeys'');
          categorySelections = filter (\<lambda>keys. keys \<noteq> [])
            (map (\<lambda>o1. progress_string_values [js_prop o1 field]) (object_items selections));
          covered = filter (\<lambda>keys. list_ex (\<lambda>f.
              case evidence_text f (if leetplus then ''categoryId'' else ''externalCategoryKey'') of
                None \<Rightarrow> False | Some key \<Rightarrow> key \<in> set keys) matched) categorySelections
      in length categorySelections - length covered)"

definition missing_products :: "string list list \<Rightarrow> ledger_fact list \<Rightarrow> nat" where
  "missing_products required matched =
     length (filter (\<lambda>ids. \<not> list_ex (\<lambda>f. list_ex (\<lambda>i.
        Some i \<in> set [evidence_text f ''productId'', evidence_text f ''externalProductId'']) ids) matched) required)"

fun is_array :: "js_value \<Rightarrow> bool" where
  "is_array (JArr _) = True"
| "is_array _ = False"

text \<open>\<open>coverageBlocker\<close>.\<close>

definition coverage_blocker ::
  "js_record \<Rightarrow> js_record \<Rightarrow> (string \<times> string list) list \<Rightarrow> ledger_fact list \<Rightarrow> ledger_reason option" where
  "coverage_blocker conditions metric selectors matched =
     (if upper_setting metric conditions ''productMatch'' \<noteq> Some ''ALL'' then None
      else if category_source conditions metric \<and> is_array (js_prop metric ''categorySelections'') then
        (let missing = missing_categories (leetplus_catalog conditions metric)
               (js_prop metric ''categorySelections'') matched
         in if 0 < missing then Some (CATEGORIES_MISSING missing) else None)
      else
        (let required = (if product_refs metric \<noteq> [] then product_refs metric
               else map (\<lambda>i. [i]) (if selector selectors ''externalProductIds'' \<noteq> []
                 then selector selectors ''externalProductIds'' else selector selectors ''productIds''));
             missing = missing_products required matched
         in if 0 < missing then Some (PRODUCTS_MISSING missing) else None))"

definition filter_ledger_product_facts ::
  "ledger_fact list \<Rightarrow> js_record \<Rightarrow> js_record \<Rightarrow> product_filter" where
  "filter_ledger_product_facts facts conditions metric =
     (let selectors = ledger_selectors conditions metric;
          selectedIds = js_uniq (selector selectors ''productIds'' @ selector selectors ''externalProductIds'' @
            concat (product_refs metric));
          productFacts = filter (\<lambda>f. lf_factType f = ''PRODUCT_PURCHASED'') facts;
          fieldsPresent = concat (map fields_present productFacts);
          matched = filter (product_fact_matches selectors selectedIds) productFacts;
          missingFields = filter (\<lambda>k. k \<notin> set fieldsPresent) (map fst (filter (\<lambda>(_, vs). vs \<noteq> []) selectors))
      in if list_all (\<lambda>(_, vs). vs = []) selectors \<and> product_refs metric = [] then PF_MATCHED facts None
         else if matched \<noteq> [] then PF_MATCHED matched (coverage_blocker conditions metric selectors matched)
         else if missingFields \<noteq> [] then PF_INSUFFICIENT (PRODUCT_FIELDS_MISSING missingFields)
         else PF_BLOCKED PRODUCT_MISMATCH)"

section \<open>The scope of a fact\<close>

definition domain_scoped_fact :: "ledger_fact \<Rightarrow> bool" where
  "domain_scoped_fact f \<longleftrightarrow> lf_factType f = ''BALANCE_TOPUP'' \<and> lf_storeId f = None"

definition scope_blockers :: "ledger_rule \<Rightarrow> ledger_fact \<Rightarrow> string option \<Rightarrow> ledger_reason list" where
  "scope_blockers rule f selectedStoreId =
     (if fact_time f < lr_activatedAt rule then [BEFORE_ACTIVATION] else []) @
     (case lr_periodFrom rule of None \<Rightarrow> [] | Some p \<Rightarrow> if fact_time f < p then [BEFORE_PERIOD] else []) @
     (case lr_periodTo rule of None \<Rightarrow> [] | Some p \<Rightarrow> if p < fact_time f then [AFTER_PERIOD] else []) @
     (case (truthy selectedStoreId, truthy (lf_storeId f)) of
        (Some s, Some t) \<Rightarrow> if t \<noteq> s then [OTHER_SELECTED_STORE] else []
      | _ \<Rightarrow> []) @
     (if lr_storeIds rule \<noteq> [] \<and> \<not> domain_scoped_fact f then
        (case truthy (lf_storeId f) of
           None \<Rightarrow> [] | Some s \<Rightarrow> if s \<notin> set (lr_storeIds rule) then [STORE_OUT_OF_SCOPE] else [])
      else []) @
     (if domain_scoped_fact f \<and> lr_storeIds rule \<noteq> [] \<and> lr_externalDomains rule \<noteq> [] then
        (case truthy (lf_externalDomain f) of
           None \<Rightarrow> []
         | Some d \<Rightarrow> if d \<notin> set (lr_externalDomains rule) then [DOMAIN_OUT_OF_SCOPE] else [])
      else [])"

definition scope_insufficient :: "ledger_rule \<Rightarrow> ledger_fact \<Rightarrow> ledger_reason list" where
  "scope_insufficient rule f =
     (if lr_storeIds rule \<noteq> [] \<and> \<not> domain_scoped_fact f \<and> truthy (lf_storeId f) = None
      then [STORE_UNKNOWN] else []) @
     (if domain_scoped_fact f \<and> lr_storeIds rule \<noteq> [] then
        (if lr_externalDomains rule = [] then [RULE_DOMAIN_UNKNOWN]
         else if truthy (lf_externalDomain f) = None then [FACT_DOMAIN_UNKNOWN] else [])
      else [])"

definition evaluate_ledger_fact_scope ::
  "zone_db \<Rightarrow> ledger_rule \<Rightarrow> marked_fact \<Rightarrow> string option \<Rightarrow> (ledger_reason list \<times> ledger_reason list) option" where
  "evaluate_ledger_fact_scope zdb rule mf selectedStoreId =
     (let (f, applied) = mf; blockers = scope_blockers rule f selectedStoreId; insufficient = scope_insufficient rule f
      in if applied then
           Some (blockers @ (if get_or (lf_durationMinutes f) 0 = 0 then [OUT_OF_WINDOW] else []), insufficient)
         else
           (case evaluate_guest_game_period zdb rule (fact_time f) (ledger_fact_time_zone rule f) of
              None \<Rightarrow> None
            | Some (b, i) \<Rightarrow> Some (blockers @ b, insufficient @ i)))"

section \<open>Facts of a session\<close>

text \<open>The facts with the minutes inside an OVERLAP window in place of their duration.\<close>

definition overlap_fact :: "zone_db \<Rightarrow> ledger_rule \<Rightarrow> ledger_fact \<Rightarrow> marked_fact option" where
  "overlap_fact zdb rule f =
     (let conditions = rule_conditions rule; metric = rule_metric rule;
          spec = guest_game_window_spec metric conditions; zone = ledger_fact_time_zone rule f
      in if guest_game_window_match metric conditions \<noteq> OVERLAP then Some (f, False)
         else (case lf_happenedAt f of
            None \<Rightarrow> Some (f, False)
          | Some endedAt \<Rightarrow>
              if \<not> contains_text ''PLAY_TIME'' (lf_factType f) \<or> get_or (lf_durationMinutes f) 0 \<le> 0 \<or>
                 guest_game_window_is_restricted spec \<and> zone = None
              then Some (f, False)
              else (case session_minutes_inside_window zdb (At endedAt) (get_or (lf_durationMinutes f) 0) spec zone of
                 None \<Rightarrow> None
               | Some m \<Rightarrow> Some (f\<lparr>lf_durationMinutes := Some m\<rparr>, True))))"

definition apply_ledger_window_overlap ::
  "zone_db \<Rightarrow> ledger_rule \<Rightarrow> ledger_fact list \<Rightarrow> marked_fact list option" where
  "apply_ledger_window_overlap zdb rule facts = those (map (overlap_fact zdb rule) facts)"

definition ledger_aggregation :: "string option \<Rightarrow> string option \<Rightarrow> aggregation" where
  "ledger_aggregation configured progressUnit =
     (let v = normalize_ledger_token configured; unit = normalize_ledger_token progressUnit
      in if v = ''distinctdays'' \<or> v = ''distinct_days'' then AGG_DISTINCT_DAYS
         else if v = ''sum'' then AGG_SUM else if v = ''duration'' then AGG_DURATION
         else if v = ''exists'' then AGG_EXISTS else if v = ''streak'' then AGG_STREAK
         else if unit \<in> set [''minute'', ''minutes'', ''hour'', ''hours''] then AGG_DURATION
         else if unit \<in> set [''rub'', ''ruble'', ''rubles''] then AGG_SUM
         else if unit \<in> set [''day'', ''days''] then AGG_DISTINCT_DAYS
         else AGG_COUNT)"

definition ledger_session_fact :: "ledger_fact \<Rightarrow> bool" where
  "ledger_session_fact f \<longleftrightarrow>
     contains_text ''SESSION'' (lf_factType f) \<or> contains_text ''PLAY_TIME'' (lf_factType f) \<or>
     lf_factType f = ''PACKAGE_OR_SUBSCRIPTION_USED''"

definition ledger_fact_score :: "aggregation \<Rightarrow> ledger_fact \<Rightarrow> int list" where
  "ledger_fact_score agg f =
     [if lf_confidence f = ''EXACT'' then 1 else 0,
      if lf_factType f = ''SESSION_STARTED'' then 1 else 0,
      if agg = AGG_DURATION then minutes_of f else 0,
      fact_time f, lf_createdAt f]"

fun compare_scores :: "int list \<Rightarrow> int list \<Rightarrow> int" where
  "compare_scores (a # as) (b # bs) = (if a - b \<noteq> 0 then a - b else compare_scores as bs)"
| "compare_scores _ _ = 0"

definition compare_ledger_session_facts ::
  "(string \<Rightarrow> string \<Rightarrow> int) \<Rightarrow> aggregation \<Rightarrow> ledger_fact \<Rightarrow> ledger_fact \<Rightarrow> int" where
  "compare_ledger_session_facts locale_compare agg left right =
     (let difference = compare_scores (ledger_fact_score agg left) (ledger_fact_score agg right)
      in if difference \<noteq> 0 then difference else locale_compare (lf_id left) (lf_id right))"

text \<open>The key of a physical session: \<open>None\<close> for the facts that are kept \<open>unkeyed\<close>.\<close>

definition ledger_session_key :: "ledger_fact \<Rightarrow> string option" where
  "ledger_session_key f =
     (if \<not> ledger_session_fact f then None
      else (case or_else (nullable_text (lf_sessionExternalId f)) (nullable_text (lf_sourceExternalId f)) of
         None \<Rightarrow> None
       | Some identity \<Rightarrow>
           Some (get_or (or_else (nullable_text (lf_externalDomain f)) (nullable_text (lf_storeId f))) [] @
             CHR 0x00 # identity)))"

text \<open>The loop over the facts with their positions: the selected fact of every key.\<close>

fun select_sessions ::
  "(string \<Rightarrow> string \<Rightarrow> int) \<Rightarrow> aggregation \<Rightarrow> (nat \<times> ledger_fact) list \<Rightarrow>
   (string \<times> nat \<times> ledger_fact) list \<Rightarrow> (string \<times> nat \<times> ledger_fact) list" where
  "select_sessions lc agg [] selected = selected"
| "select_sessions lc agg ((i, f) # fs) selected =
     select_sessions lc agg fs
       (case ledger_session_key f of
          None \<Rightarrow> selected
        | Some k \<Rightarrow>
            (case map_of selected k of
               None \<Rightarrow> AList.update k (i, f) selected
             | Some (j, current) \<Rightarrow>
                 if 0 < compare_ledger_session_facts lc agg f current
                 then AList.update k (i, f) selected else selected))"

definition dedupe_ledger_session_facts ::
  "(string \<Rightarrow> string \<Rightarrow> int) \<Rightarrow> aggregation \<Rightarrow> ledger_fact list \<Rightarrow> ledger_fact list" where
  "dedupe_ledger_session_facts lc agg facts =
     (if agg \<notin> set [AGG_COUNT, AGG_DURATION, AGG_DISTINCT_DAYS, AGG_STREAK] then facts
      else
        (let indexed = enumerate 0 facts;
             retained = map (fst \<circ> snd) (select_sessions lc agg indexed [])
         in map snd (filter (\<lambda>(i, f). ledger_session_key f = None \<or> i \<in> set retained) indexed)))"

section \<open>Progress\<close>

definition active_ledger_day_streak :: "civil list \<Rightarrow> rat \<Rightarrow> civil option \<Rightarrow> int" where
  "active_ledger_day_streak keys target reference_key =
     (let days = js_sort (\<lambda>a b. a - b) (map day_start (js_uniq keys));
          (longest, current) = streak_loop days 0 0 None
      in if target \<le> of_int longest then longest
         else (case reference_key of
            None \<Rightarrow> 0
          | Some r \<Rightarrow> if days = [] \<or> 86400000 < day_start r - last days then 0 else current))"

text \<open>\<open>facts.map((fact) => localFactDateKey(rule, fact)!)\<close>: called when every fact has a key.\<close>

definition fact_date_keys :: "zone_db \<Rightarrow> ledger_rule \<Rightarrow> ledger_fact list \<Rightarrow> civil list" where
  "fact_date_keys zdb rule facts = List.map_filter (local_fact_date_key zdb rule) facts"

definition ledger_progress_value ::
  "zone_db \<Rightarrow> aggregation \<Rightarrow> ledger_fact list \<Rightarrow> ledger_rule \<Rightarrow> rat \<Rightarrow> int \<Rightarrow> rat" where
  "ledger_progress_value zdb agg facts rule target evaluatedAt =
     (case agg of
        AGG_EXISTS \<Rightarrow> if 0 < length facts then 1 else 0
      | AGG_SUM \<Rightarrow> round_progress (fold (\<lambda>f sum. sum + max 0 (decimal_number (lf_amount f))) facts 0)
      | AGG_DURATION \<Rightarrow> of_int (fold (\<lambda>f sum. sum + minutes_of f) facts 0)
      | AGG_DISTINCT_DAYS \<Rightarrow> of_nat (length (js_uniq (fact_date_keys zdb rule facts)))
      | AGG_STREAK \<Rightarrow>
          of_int (active_ledger_day_streak (fact_date_keys zdb rule facts) target
            (ledger_reference_date_key zdb rule facts evaluatedAt))
      | AGG_COUNT \<Rightarrow> of_nat (length facts))"

definition ledger_target :: "rat \<Rightarrow> string option \<Rightarrow> rat" where
  "ledger_target v unit = (if normalize_ledger_token unit \<in> set [''hour'', ''hours''] then v * 60 else v)"

definition ledger_progress_unit :: "aggregation \<Rightarrow> string option \<Rightarrow> string option" where
  "ledger_progress_unit agg configured =
     (if agg = AGG_DURATION then Some ''minute'' else if agg = AGG_SUM then Some ''rub'' else configured)"

text \<open>\<open>new Date(ms)\<close> of a number: truncated towards zero, invalid out of range.\<close>

definition date_of_number :: "rat \<Rightarrow> jsdate" where
  "date_of_number ms =
     (let t = (if ms < 0 then \<lceil>ms\<rceil> else \<lfloor>ms\<rfloor>) in if in_date_range t then At t else Invalid_Date)"

text \<open>The amounts a rule asks for, and the number of the configured top-up.\<close>

definition amount_comparison :: "ledger_rule \<Rightarrow> string" where
  "amount_comparison rule =
     normalize_ledger_token (progress_string (setting (rule_metric rule) (rule_conditions rule) ''amountComparison''))"

definition configured_amount :: "ledger_rule \<Rightarrow> rat option" where
  "configured_amount rule =
     (let metric = rule_metric rule; conditions = rule_conditions rule
      in progress_number (js_or (setting metric conditions ''topupAmount'') (setting metric conditions ''amount'')))"

definition exact_required_amount :: "ledger_rule \<Rightarrow> bool \<Rightarrow> rat option" where
  "exact_required_amount rule topup =
     or_else (progress_number (setting (rule_metric rule) (rule_conditions rule) ''exactSpendAmount''))
       (if topup \<and> amount_comparison rule \<in> set [''exact'', ''equal'', ''equals'']
        then configured_amount rule else None)"

definition min_spend_amount :: "ledger_rule \<Rightarrow> rat option" where
  "min_spend_amount rule =
     or_else (progress_number (setting (rule_metric rule) (rule_conditions rule) ''minSpendAmount''))
       (if amount_comparison rule \<in> set [''at_least'', ''minimum'', ''min''] then configured_amount rule else None)"

definition min_session_minutes :: "ledger_rule \<Rightarrow> rat option" where
  "min_session_minutes rule =
     progress_number (setting (rule_metric rule) (rule_conditions rule) ''minSessionMinutes'')"

definition window_days :: "ledger_rule \<Rightarrow> rat option" where
  "window_days rule = progress_number (setting (rule_metric rule) (rule_conditions rule) ''windowDays'')"

definition window_start :: "ledger_rule \<Rightarrow> int \<Rightarrow> jsdate option" where
  "window_start rule evaluatedAt =
     (case window_days rule of
        None \<Rightarrow> None
      | Some days \<Rightarrow> if 0 < days then Some (date_of_number (of_int evaluatedAt - days * 24 * 60 * 60 * 1000)) else None)"

definition ledger_blocked_evaluation ::
  "ledger_reason \<Rightarrow> ledger_fact list \<Rightarrow> ledger_progress option \<Rightarrow> ledger_evaluation" where
  "ledger_blocked_evaluation blocker facts p =
     \<lparr>le_status = BLOCKED, le_blockers = [blocker], le_facts = facts, le_progress = p\<rparr>"

text \<open>A limit of the rule keeps the facts that meet it, and blocks when there are none.\<close>

definition apply_limit ::
  "rat option \<Rightarrow> (rat \<Rightarrow> ledger_reason) \<Rightarrow> (rat \<Rightarrow> ledger_fact \<Rightarrow> bool) \<Rightarrow> ledger_fact list \<Rightarrow> ledger_fact list \<Rightarrow>
   ledger_evaluation + ledger_fact list" where
  "apply_limit limit reason P facts qualified =
     (case limit of
        None \<Rightarrow> Inr qualified
      | Some x \<Rightarrow>
          (let kept = filter (P x) qualified
           in if kept = [] then Inl (ledger_blocked_evaluation (reason x) facts None) else Inr kept))"

definition recent_facts :: "ledger_rule \<Rightarrow> ledger_fact list \<Rightarrow> int \<Rightarrow> ledger_fact list" where
  "recent_facts rule facts evaluatedAt =
     (case window_start rule evaluatedAt of
        None \<Rightarrow> facts
      | Some start \<Rightarrow> filter (\<lambda>f. case start of At t \<Rightarrow> t \<le> fact_time f | Invalid_Date \<Rightarrow> False) facts)"

text \<open>The facts that meet every limit of a rule, with the coverage blocker, or an early return.\<close>

definition qualify_ledger_facts ::
  "(string \<Rightarrow> string \<Rightarrow> int) \<Rightarrow> ledger_rule \<Rightarrow> aggregation \<Rightarrow> ledger_fact list \<Rightarrow> int \<Rightarrow>
   ledger_evaluation + ledger_fact list \<times> ledger_reason option" where
  "qualify_ledger_facts lc rule agg facts evaluatedAt =
     (let recent = dedupe_ledger_session_facts lc agg (recent_facts rule facts evaluatedAt)
      in if window_start rule evaluatedAt \<noteq> None \<and> recent = []
         then Inl (ledger_blocked_evaluation NO_RECENT_FACTS facts None)
         else (case filter_ledger_product_facts recent (rule_conditions rule) (rule_metric rule) of
            PF_INSUFFICIENT r \<Rightarrow>
              Inl \<lparr>le_status = INSUFFICIENT_DATA, le_blockers = [r], le_facts = recent, le_progress = None\<rparr>
          | PF_BLOCKED r \<Rightarrow> Inl (ledger_blocked_evaluation r recent None)
          | PF_MATCHED products coverage \<Rightarrow>
              and_then (apply_limit (min_session_minutes rule) NO_LONG_SESSION
                (\<lambda>x f. x \<le> of_int (minutes_of f)) facts products) (\<lambda>long.
              and_then (apply_limit
                (exact_required_amount rule (list_ex (\<lambda>f. lf_factType f = ''BALANCE_TOPUP'') long)) NO_EXACT_AMOUNT
                (\<lambda>x f. \<bar>decimal_number (lf_amount f) - x\<bar> < 5 / 1000) facts long) (\<lambda>exact.
              and_then (apply_limit (min_spend_amount rule) NO_MIN_AMOUNT
                (\<lambda>x f. x \<le> decimal_number (lf_amount f)) facts exact) (\<lambda>qualified.
              Inr (qualified, coverage))))))"

definition explicit_target :: "ledger_rule \<Rightarrow> rat option" where
  "explicit_target rule =
     or_else (progress_number (js_prop (rule_metric rule) ''target''))
       (or_else (progress_number (js_prop (rule_conditions rule) ''progressTarget'')) (lr_progressTarget rule))"

definition has_progress_definition :: "ledger_rule \<Rightarrow> bool" where
  "has_progress_definition rule \<longleftrightarrow>
     rule_metric rule \<noteq> [] \<or> (case explicit_target rule of None \<Rightarrow> False | Some t \<Rightarrow> 1 < t) \<or>
     normalize_ledger_token (lr_progressUnit rule) \<in>
       set [''minute'', ''minutes'', ''hour'', ''hours'', ''purchase'', ''rub'', ''day'']"

definition rule_aggregation :: "ledger_rule \<Rightarrow> aggregation" where
  "rule_aggregation rule =
     ledger_aggregation (or_else (progress_string (js_prop (rule_metric rule) ''aggregation''))
       (progress_string (js_prop (rule_conditions rule) ''aggregation''))) (lr_progressUnit rule)"

definition ledger_progress_of ::
  "zone_db \<Rightarrow> ledger_rule \<Rightarrow> ledger_fact list \<Rightarrow> int \<Rightarrow> ledger_progress" where
  "ledger_progress_of zdb rule qualified evaluatedAt =
     (let agg = rule_aggregation rule; target = ledger_target (get_or (explicit_target rule) 1) (lr_progressUnit rule)
      in \<lparr>lp_aggregation = agg,
          lp_current = ledger_progress_value zdb agg qualified rule target evaluatedAt,
          lp_target = target, lp_unit = ledger_progress_unit agg (lr_progressUnit rule),
          lp_matchedFacts = length qualified\<rparr>)"

definition evaluate_ledger_progress ::
  "zone_db \<Rightarrow> (string \<Rightarrow> string \<Rightarrow> int) \<Rightarrow> ledger_rule \<Rightarrow> ledger_fact list \<Rightarrow> int \<Rightarrow> ledger_evaluation" where
  "evaluate_ledger_progress zdb lc rule facts evaluatedAt =
     (case qualify_ledger_facts lc rule (rule_aggregation rule) facts evaluatedAt of
        Inl early \<Rightarrow> early
      | Inr (qualified, coverage) \<Rightarrow>
          if rule_aggregation rule \<in> set [AGG_DISTINCT_DAYS, AGG_STREAK] \<and>
             list_ex (\<lambda>f. local_fact_date_key zdb rule f = None) qualified
          then \<lparr>le_status = INSUFFICIENT_DATA, le_blockers = [LOCAL_DAY_TIMEZONE_MISSING],
                le_facts = qualified, le_progress = None\<rparr>
          else if \<not> has_progress_definition rule then
            (case coverage of
               Some r \<Rightarrow> ledger_blocked_evaluation r qualified None
             | None \<Rightarrow> \<lparr>le_status = MATCHED, le_blockers = [], le_facts = qualified, le_progress = None\<rparr>)
          else
            (let p = ledger_progress_of zdb rule qualified evaluatedAt
             in if lp_current p < lp_target p
                then ledger_blocked_evaluation (TARGET_NOT_REACHED (lp_current p) (lp_target p)) qualified (Some p)
                else (case coverage of
                  Some r \<Rightarrow> ledger_blocked_evaluation r qualified (Some p)
                | None \<Rightarrow> \<lparr>le_status = MATCHED, le_blockers = [], le_facts = qualified, le_progress = Some p\<rparr>)))"

section \<open>Event parity\<close>

definition evaluate_event_parity_anchor_constraints ::
  "ledger_rule \<Rightarrow> ledger_fact \<Rightarrow> int \<Rightarrow> ledger_reason list \<times> ledger_reason list" where
  "evaluate_event_parity_anchor_constraints rule anchor evaluatedAt =
     (let products = filter_ledger_product_facts [anchor] (rule_conditions rule) (rule_metric rule)
      in ((case window_days rule of
             None \<Rightarrow> []
           | Some days \<Rightarrow>
               if 0 < days \<and> of_int (fact_time anchor) < of_int evaluatedAt - days * 86400000
               then [OUTSIDE_LAST_DAYS days] else []) @
          (case products of PF_BLOCKED r \<Rightarrow> [r] | _ \<Rightarrow> []) @
          (case min_session_minutes rule of
             None \<Rightarrow> [] | Some x \<Rightarrow> if of_int (minutes_of anchor) < x then [SESSION_SHORT x] else []) @
          (case exact_required_amount rule (lf_factType anchor = ''BALANCE_TOPUP'') of
             None \<Rightarrow> []
           | Some x \<Rightarrow> if 5 / 1000 \<le> \<bar>decimal_number (lf_amount anchor) - x\<bar> then [AMOUNT_NOT_EXACT x] else []) @
          (case min_spend_amount rule of
             None \<Rightarrow> [] | Some x \<Rightarrow> if decimal_number (lf_amount anchor) < x then [AMOUNT_BELOW x] else []),
          (case products of PF_INSUFFICIENT r \<Rightarrow> [r] | _ \<Rightarrow> [])))"

definition ledger_trigger_matches_source_event :: "string option \<Rightarrow> string \<Rightarrow> bool" where
  "ledger_trigger_matches_source_event triggerKind sourceEventType \<longleftrightarrow>
     guest_game_trigger_matches triggerKind (Some sourceEventType) \<or>
     (let trigger = js_upper (normalize_ledger_token triggerKind);
          sourceEvent = js_upper (normalize_ledger_token (Some sourceEventType))
      in contains_any [''PLAY_TIME'', ''TIME_PLAYED''] trigger \<and>
         sourceEvent \<in> set [''PLAY_HOUR'', ''SESSION_STOP''])"

definition source_identifiers :: "ledger_context \<Rightarrow> string list" where
  "source_identifiers context =
     List.map_filter nullable_text [lc_sourceFactId context, lc_sourceExternalId context,
       lc_sourceSessionExternalId context]"

definition strong_fact_identifiers :: "ledger_fact \<Rightarrow> string list" where
  "strong_fact_identifiers f =
     List.map_filter (\<lambda>v. v)
       [nullable_text (lf_sourceExternalId f), nullable_text (lf_sessionExternalId f),
        evidence_text f ''sourceFactId'', evidence_text f ''sourceExternalId'',
        evidence_text f ''sessionExternalId'', evidence_text f ''externalId'', evidence_text f ''sessionId'']"

definition ledger_fact_correlates_with_current_event :: "ledger_fact \<Rightarrow> ledger_context \<Rightarrow> bool" where
  "ledger_fact_correlates_with_current_event f context =
     (let ids = source_identifiers context; strong = strong_fact_identifiers f;
          originKey = nullable_text (lc_sourceOriginKey context)
      in if lf_id f \<in> set ids \<or> list_ex (\<lambda>v. v \<in> set ids) strong then True
         else if originKey \<noteq> None \<and> originKey = evidence_text f ''originKey'' then True
         else if strong \<noteq> [] then False
         else (case lc_occurredAt context of
            Some (At t) \<Rightarrow> \<bar>fact_time f - t\<bar> \<le> max 0 (get_or (lc_correlationWindowMs context) 90000)
          | _ \<Rightarrow> False))"

definition ledger_event_parity_blocked :: "ledger_reason \<Rightarrow> ledger_evaluation" where
  "ledger_event_parity_blocked reason =
     \<lparr>le_status = BLOCKED, le_blockers = [reason], le_facts = [], le_progress = None\<rparr>"

text \<open>The scope of an anchor with its constraints; the anchors without blockers and missing data.\<close>

definition anchor_scope ::
  "zone_db \<Rightarrow> ledger_rule \<Rightarrow> string option \<Rightarrow> int \<Rightarrow> marked_fact \<Rightarrow> (ledger_reason list \<times> ledger_reason list) option" where
  "anchor_scope zdb rule selectedStoreId evaluatedAt anchor =
     (case evaluate_ledger_fact_scope zdb rule anchor selectedStoreId of
        None \<Rightarrow> None
      | Some (b, i) \<Rightarrow>
          (let (cb, ci) = evaluate_event_parity_anchor_constraints rule (fst anchor) evaluatedAt
           in Some (b @ cb, i @ ci)))"

text \<open>
  The loop that both evaluations make over their facts: the facts that pass, and the sets of blockers and
  of missing data of the others.
\<close>

definition pass_facts ::
  "(marked_fact \<Rightarrow> (ledger_reason list \<times> ledger_reason list) option) \<Rightarrow> marked_fact list \<Rightarrow>
   (marked_fact list \<times> ledger_reason list \<times> ledger_reason list) option" where
  "pass_facts scope facts =
     map_option (\<lambda>results.
       (map fst (filter (\<lambda>(_, b, i). b = [] \<and> i = []) (zip facts results)),
        js_uniq (concat (map fst results)), js_uniq (concat (map snd results))))
       (those (map scope facts))"

definition prepare_event_parity_candidates ::
  "zone_db \<Rightarrow> ledger_rule \<Rightarrow> marked_fact list \<Rightarrow> string option \<Rightarrow> int \<Rightarrow> ledger_context \<Rightarrow>
   (ledger_evaluation + marked_fact list) option" where
  "prepare_event_parity_candidates zdb rule candidates selectedStoreId evaluatedAt context =
     (if lc_mode context \<noteq> EVENT_PARITY then Some (Inr candidates)
      else (case nullable_text (lc_sourceEventType context) of
         None \<Rightarrow> Some (Inl (ledger_event_parity_blocked PARITY_SOURCE_EVENT_MISSING))
       | Some sourceEventType \<Rightarrow>
           if \<not> ledger_trigger_matches_source_event (lr_triggerKind rule) sourceEventType
           then Some (Inl (ledger_event_parity_blocked PARITY_TRIGGER_MISMATCH))
           else if candidates = [] then Some (Inr candidates)
           else
             (let anchors = filter (\<lambda>(f, _). ledger_fact_correlates_with_current_event f context) candidates
              in if anchors = [] then
                   Some (Inl \<lparr>le_status = NO_MATCH, le_blockers = [PARITY_CURRENT_FACT_NOT_FOUND],
                             le_facts = [], le_progress = None\<rparr>)
                 else (case pass_facts (anchor_scope zdb rule selectedStoreId evaluatedAt) anchors of
                    None \<Rightarrow> None
                  | Some (scoped, blockers, insufficient) \<Rightarrow>
                      if scoped = [] then
                        Some (Inl \<lparr>le_status = (if blockers = [] \<and> insufficient \<noteq> [] then INSUFFICIENT_DATA else BLOCKED),
                                  le_blockers = PARITY_CURRENT_FACT_OUT_OF_SCOPE # blockers @ insufficient,
                                  le_facts = map fst anchors, le_progress = None\<rparr>)
                      else Some (Inr (if guest_game_ledger_rule_is_cumulative rule then candidates else scoped))))))"

section \<open>The evaluation\<close>

definition ledger_relevant_facts :: "ledger_rule \<Rightarrow> ledger_fact list \<Rightarrow> ledger_fact list" where
  "ledger_relevant_facts rule facts =
     filter (\<lambda>f. lf_factType f \<in> set (relevant_guest_game_facts (lr_triggerKind rule) (lr_sessionType rule))) facts"

definition evaluate_ledger_candidates ::
  "zone_db \<Rightarrow> (string \<Rightarrow> string \<Rightarrow> int) \<Rightarrow> ledger_rule \<Rightarrow> marked_fact list \<Rightarrow> string option \<Rightarrow> int \<Rightarrow>
   ledger_evaluation option" where
  "evaluate_ledger_candidates zdb lc rule candidates selectedStoreId evaluatedAt =
     (if candidates = [] then
        Some \<lparr>le_status = NO_MATCH,
              le_blockers = [NO_FACTS (relevant_guest_game_facts (lr_triggerKind rule) (lr_sessionType rule))],
              le_facts = [], le_progress = None\<rparr>
      else (case pass_facts (\<lambda>f. evaluate_ledger_fact_scope zdb rule f selectedStoreId) candidates of
         None \<Rightarrow> None
       | Some (matched, blockers, insufficient) \<Rightarrow>
           Some (if matched \<noteq> [] then evaluate_ledger_progress zdb lc rule (map fst matched) evaluatedAt
                 else if insufficient \<noteq> [] \<and> blockers = [] then
                   \<lparr>le_status = INSUFFICIENT_DATA, le_blockers = insufficient,
                    le_facts = map fst candidates, le_progress = None\<rparr>
                 else
                   \<lparr>le_status = BLOCKED, le_blockers = blockers @ insufficient,
                    le_facts = map fst candidates, le_progress = None\<rparr>)))"

text \<open>A result of \<open>evaluateLedgerProgress\<close> is returned as it is: a MATCHED one only gets its texts.\<close>

definition evaluate_guest_game_ledger_rule ::
  "zone_db \<Rightarrow> (string \<Rightarrow> string \<Rightarrow> int) \<Rightarrow> ledger_rule \<Rightarrow> ledger_fact list \<Rightarrow> string option \<Rightarrow> int \<Rightarrow>
   ledger_context \<Rightarrow> ledger_evaluation option" where
  "evaluate_guest_game_ledger_rule zdb lc rule facts selectedStoreId evaluatedAt context =
     (case apply_ledger_window_overlap zdb rule (ledger_relevant_facts rule facts) of
        None \<Rightarrow> None
      | Some relevantCandidates \<Rightarrow>
          (case prepare_event_parity_candidates zdb rule relevantCandidates selectedStoreId evaluatedAt context of
             None \<Rightarrow> None
           | Some (Inl evaluation) \<Rightarrow> Some evaluation
           | Some (Inr candidates) \<Rightarrow>
               evaluate_ledger_candidates zdb lc rule candidates selectedStoreId evaluatedAt))"

end
