(* ===== verification/Ledger_Sessions.thy ===== *)
theory Ledger_Sessions
  imports Ledger_Rule
begin

text \<open>
  The facts of the ledger that are kept for one physical session (\<open>dedupeLedgerSessionFacts\<close>): exactly one
  for every session, a best one in the order of \<open>compareLedgerSessionFacts\<close>, and every fact without identity.
\<close>

section \<open>The order of the facts\<close>

lemma compare_scores_flip: "compare_scores b a = - compare_scores a b"
  by (induction a b rule: compare_scores.induct) auto

lemma compare_scores_trans:
  assumes "length a = length b" and "length b = length c"
    and "compare_scores a b \<le> 0" and "compare_scores b c \<le> 0"
  shows "compare_scores a c \<le> 0 \<and>
    (compare_scores a c = 0 \<longrightarrow> compare_scores a b = 0 \<and> compare_scores b c = 0)"
  using assms
proof (induction a arbitrary: b c)
  case Nil
  then show ?case by (cases b; cases c) auto
next
  case (Cons x a)
  then obtain y b' z c' where "b = y # b'" "c = z # c'"
    by (metis length_Suc_conv)
  then show ?case using Cons.prems Cons.IH [of b' c'] by (auto split: if_splits)
qed

lemma length_score [simp]: "length (ledger_fact_score agg f) = 5"
  by (simp add: ledger_fact_score_def)

lemma compare_facts_comparator:
  assumes "js_comparator lc"
  shows "js_comparator (compare_ledger_session_facts lc agg)"
proof
  let ?score = "\<lambda>f. ledger_fact_score agg f"
  show "sgn (compare_ledger_session_facts lc agg b a) = - sgn (compare_ledger_session_facts lc agg a b)" for a b
    using js_comparator.cmp_flip [OF assms, of "lf_id a" "lf_id b"] compare_scores_flip [of "?score b" "?score a"]
    by (simp add: compare_ledger_session_facts_def Let_def)
  show "compare_ledger_session_facts lc agg a b \<le> 0 \<Longrightarrow> compare_ledger_session_facts lc agg b c \<le> 0 \<Longrightarrow>
      compare_ledger_session_facts lc agg a c \<le> 0" for a b c
    using js_comparator.cmp_trans [OF assms, of "lf_id a" "lf_id b" "lf_id c"]
      compare_scores_trans [of "?score a" "?score b" "?score c"]
    by (auto simp: compare_ledger_session_facts_def Let_def split: if_splits)
qed

section \<open>The loop\<close>

text \<open>The entry of a key is a best one of the facts with the key that the loop has seen.\<close>

definition best_of ::
  "(string \<Rightarrow> string \<Rightarrow> int) \<Rightarrow> aggregation \<Rightarrow> (nat \<times> ledger_fact) set \<Rightarrow> string \<Rightarrow> (nat \<times> ledger_fact) option \<Rightarrow> bool" where
  "best_of lc agg seen k entry \<longleftrightarrow>
     (case entry of
        None \<Rightarrow> \<forall>x\<in>seen. ledger_session_key (snd x) \<noteq> Some k
      | Some x \<Rightarrow> x \<in> seen \<and> ledger_session_key (snd x) = Some k \<and>
          (\<forall>y\<in>seen. ledger_session_key (snd y) = Some k \<longrightarrow>
             compare_ledger_session_facts lc agg (snd y) (snd x) \<le> 0))"

lemma compare_self: "js_comparator lc \<Longrightarrow> compare_ledger_session_facts lc agg f f = 0"
  by (rule js_comparator.cmp_self [OF compare_facts_comparator])

lemma best_of_add:
  assumes lc: "js_comparator lc" and key: "ledger_session_key f = Some k"
    and best: "best_of lc agg seen k entry"
    and better: "case entry of None \<Rightarrow> True | Some (j, g) \<Rightarrow> 0 < compare_ledger_session_facts lc agg f g"
  shows "best_of lc agg (insert (i, f) seen) k (Some (i, f))"
proof -
  have "compare_ledger_session_facts lc agg (snd y) f \<le> 0"
    if y: "y \<in> seen" "ledger_session_key (snd y) = Some k" for y
  proof -
    obtain j g where entry: "entry = Some (j, g)"
      using best y by (cases entry) (auto simp: best_of_def)
    have "compare_ledger_session_facts lc agg (snd y) g \<le> 0"
      using best y entry by (auto simp: best_of_def)
    moreover have "compare_ledger_session_facts lc agg g f \<le> 0"
      using better entry js_comparator.cmp_less_flip [OF compare_facts_comparator [OF lc], of agg g f] by simp
    ultimately show ?thesis
      by (rule js_comparator.cmp_trans [OF compare_facts_comparator [OF lc]])
  qed
  then show ?thesis using key compare_self [OF lc, of agg f] by (auto simp: best_of_def)
qed

lemma best_of_keep:
  assumes "best_of lc agg seen k entry"
    and "ledger_session_key f = Some k \<longrightarrow>
      (\<exists>j g. entry = Some (j, g) \<and> compare_ledger_session_facts lc agg f g \<le> 0)"
  shows "best_of lc agg (insert (i, f) seen) k entry"
  using assms by (auto simp: best_of_def split: option.splits)

lemma select_sessions_best:
  assumes lc: "js_comparator lc"
    and "distinct (map fst selected)" and "\<And>k. best_of lc agg seen k (map_of selected k)"
  shows "distinct (map fst (select_sessions lc agg fs selected))"
    and "best_of lc agg (seen \<union> set fs) k (map_of (select_sessions lc agg fs selected) k)"
proof -
  have "distinct (map fst (select_sessions lc agg fs selected)) \<and>
    (\<forall>k. best_of lc agg (seen \<union> set fs) k (map_of (select_sessions lc agg fs selected) k))"
    using assms(2,3)
  proof (induction fs arbitrary: selected seen)
    case Nil
    then show ?case by simp
  next
    case (Cons x fs)
    obtain i f where x: "x = (i, f)" by (cases x)
    define next_selected where "next_selected =
      (case ledger_session_key f of
          None \<Rightarrow> selected
        | Some k \<Rightarrow>
            (case map_of selected k of
               None \<Rightarrow> AList.update k (i, f) selected
             | Some (j, current) \<Rightarrow>
                 if 0 < compare_ledger_session_facts lc agg f current
                 then AList.update k (i, f) selected else selected))"
    have "distinct (map fst next_selected)"
      using Cons.prems(1) by (auto simp: next_selected_def distinct_update split: option.split)
    moreover have "best_of lc agg (insert x seen) k (map_of next_selected k)" for k
    proof (cases "ledger_session_key f = Some k")
      case False
      then have "map_of next_selected k = map_of selected k"
        by (auto simp: next_selected_def update_conv' split: option.split)
      then show ?thesis
        using best_of_keep [OF Cons.prems(2) [of k], of f i] False x by simp
    next
      case True
      show ?thesis
      proof (cases "case map_of selected k of None \<Rightarrow> True
          | Some (j, g) \<Rightarrow> 0 < compare_ledger_session_facts lc agg f g")
        case better: True
        then have "map_of next_selected k = Some (i, f)"
          using True by (auto simp: next_selected_def update_conv' split: option.splits)
        then show ?thesis
          using best_of_add [OF lc True Cons.prems(2) better] x by simp
      next
        case worse: False
        then obtain j g where g: "map_of selected k = Some (j, g)" "\<not> 0 < compare_ledger_session_facts lc agg f g"
          by (auto split: option.splits)
        then have "next_selected = selected" using True by (simp add: next_selected_def)
        then show ?thesis
          using best_of_keep [OF Cons.prems(2) [of k], of f i] g x by simp
      qed
    qed
    ultimately show ?case
      using Cons.IH [of next_selected "insert x seen"] by (simp add: x next_selected_def)
  qed
  then show "distinct (map fst (select_sessions lc agg fs selected))"
    and "best_of lc agg (seen \<union> set fs) k (map_of (select_sessions lc agg fs selected) k)" by blast+
qed

section \<open>The facts that are kept\<close>

lemma enumerate_distinct: "distinct (enumerate n xs)"
  by (rule distinct_enumerate)

lemma filter_one: "distinct xs \<Longrightarrow> x \<in> set xs \<Longrightarrow> filter (\<lambda>y. y = x) xs = [x]"
  by (induction xs) (auto simp: filter_empty_conv)

lemma filter_key_snd: "filter P (map snd xs) = map snd (filter (\<lambda>x. P (snd x)) xs)"
  by (simp add: filter_map comp_def)

definition counts_sessions :: "aggregation \<Rightarrow> bool" where
  "counts_sessions agg \<longleftrightarrow> agg \<in> set [AGG_COUNT, AGG_DURATION, AGG_DISTINCT_DAYS, AGG_STREAK]"

lemma dedupe_unkeyed:
  "filter (\<lambda>f. ledger_session_key f = None) (dedupe_ledger_session_facts lc agg facts) =
     filter (\<lambda>f. ledger_session_key f = None) facts"
proof -
  have "filter (\<lambda>f. ledger_session_key f = None) facts =
      map snd (filter (\<lambda>x. ledger_session_key (snd x) = None) (enumerate 0 facts))"
    using filter_key_snd [of "\<lambda>f. ledger_session_key f = None" "enumerate 0 facts"]
    by (simp only: map_snd_enumerate)
  moreover have "filter (\<lambda>x. ledger_session_key (snd x) = None)
      (filter (\<lambda>(i, f). ledger_session_key f = None \<or> i \<in> R) (enumerate 0 facts)) =
      filter (\<lambda>x. ledger_session_key (snd x) = None) (enumerate 0 facts)" for R
    by (auto intro: filter_cong)
  ultimately show ?thesis
    by (simp add: dedupe_ledger_session_facts_def Let_def filter_key_snd)
qed

lemma indexed_fact: "f \<in> set facts \<Longrightarrow> \<exists>i. (i, f) \<in> set (enumerate 0 facts)"
proof -
  assume "f \<in> set facts"
  then have "f \<in> set (map snd (enumerate 0 facts))" by (simp only: map_snd_enumerate)
  then have "f \<in> snd ` set (enumerate 0 facts)" by (simp only: set_map)
  then show ?thesis by (elim imageE) (metis prod.collapse)
qed

lemma fact_of_index: "(i, f) \<in> set (enumerate 0 facts) \<Longrightarrow> f \<in> set facts"
  by (auto simp: in_set_enumerate_eq)

lemma index_unique: "(i, f) \<in> set (enumerate 0 facts) \<Longrightarrow> (i, g) \<in> set (enumerate 0 facts) \<Longrightarrow> f = g"
  by (auto simp: in_set_enumerate_eq)

lemma dedupe_subset: "set (dedupe_ledger_session_facts lc agg facts) \<subseteq> set facts"
  by (auto simp: dedupe_ledger_session_facts_def Let_def dest: fact_of_index)

lemma dedupe_session:
  assumes lc: "js_comparator lc" and agg: "counts_sessions agg"
    and some: "f0 \<in> set facts" "ledger_session_key f0 = Some k"
  obtains f where "filter (\<lambda>g. ledger_session_key g = Some k) (dedupe_ledger_session_facts lc agg facts) = [f]"
    and "f \<in> set facts" and "ledger_session_key f = Some k"
    and "\<And>g. g \<in> set facts \<Longrightarrow> ledger_session_key g = Some k \<Longrightarrow> compare_ledger_session_facts lc agg g f \<le> 0"
proof -
  let ?indexed = "enumerate 0 facts"
  let ?selected = "select_sessions lc agg ?indexed []"
  have empty: "best_of lc agg {} k (map_of [] k)" for k by (simp add: best_of_def)
  note best = select_sessions_best [OF lc _ empty, where fs = ?indexed, simplified]
  obtain i0 where i0: "(i0, f0) \<in> set ?indexed"
    using indexed_fact [OF some(1)] by blast
  obtain i f where sel: "map_of ?selected k = Some (i, f)"
  proof (cases "map_of ?selected k")
    case None
    then show ?thesis using best(2) [of k] i0 some(2) by (force simp: best_of_def)
  next
    case (Some x)
    then show ?thesis using that by (cases x) auto
  qed
  have f: "(i, f) \<in> set ?indexed" "ledger_session_key f = Some k"
    and max: "\<And>y. y \<in> set ?indexed \<Longrightarrow> ledger_session_key (snd y) = Some k \<Longrightarrow>
      compare_ledger_session_facts lc agg (snd y) f \<le> 0"
    using best(2) [of k] sel by (auto simp: best_of_def)
  have only: "x = (i, f)" if x: "x \<in> set ?indexed" "ledger_session_key (snd x) = Some k"
      "fst x \<in> set (map (fst \<circ> snd) ?selected)" for x
  proof -
    obtain k' f' where entry: "(k', fst x, f') \<in> set ?selected" using x(3) by auto
    then have "map_of ?selected k' = Some (fst x, f')" using best(1) by simp
    then have "(fst x, f') \<in> set ?indexed" "ledger_session_key f' = Some k'"
      using best(2) [of k'] by (auto simp: best_of_def)
    then have "f' = snd x" using x(1) by (metis index_unique prod.collapse)
    then have "k' = k" using \<open>ledger_session_key f' = Some k'\<close> x(2) by simp
    then show ?thesis
      using \<open>map_of ?selected k' = Some (fst x, f')\<close> sel \<open>f' = snd x\<close> by simp
  qed
  have chosen: "i \<in> set (map (fst \<circ> snd) ?selected)"
    using map_of_SomeD [OF sel] by force
  have "(ledger_session_key (snd x) = None \<or> fst x \<in> set (map (fst \<circ> snd) ?selected)) \<and>
      ledger_session_key (snd x) = Some k \<longleftrightarrow> x = (i, f)" if x: "x \<in> set ?indexed" for x
  proof
    assume a: "(ledger_session_key (snd x) = None \<or> fst x \<in> set (map (fst \<circ> snd) ?selected)) \<and>
      ledger_session_key (snd x) = Some k"
    then have key: "ledger_session_key (snd x) = Some k" by (rule conjunct2)
    from a have "fst x \<in> set (map (fst \<circ> snd) ?selected)"
      unfolding key by (simp only: option.distinct simp_thms)
    with x key show "x = (i, f)" by (rule only)
  next
    assume "x = (i, f)"
    then show "(ledger_session_key (snd x) = None \<or> fst x \<in> set (map (fst \<circ> snd) ?selected)) \<and>
      ledger_session_key (snd x) = Some k"
      using chosen f(2) by (simp only: fst_conv snd_conv simp_thms)
  qed
  then have "filter (\<lambda>x. (ledger_session_key (snd x) = None \<or> fst x \<in> set (map (fst \<circ> snd) ?selected)) \<and>
      ledger_session_key (snd x) = Some k) ?indexed = filter (\<lambda>x. x = (i, f)) ?indexed"
    by (rule filter_cong [OF HOL.refl])
  also have "\<dots> = [(i, f)]" using f(1) by (intro filter_one) simp_all
  finally have "filter (\<lambda>g. ledger_session_key g = Some k) (dedupe_ledger_session_facts lc agg facts) = [f]"
    using agg
    by (simp add: dedupe_ledger_session_facts_def counts_sessions_def Let_def filter_key_snd case_prod_beta del: set_map)
  moreover have "f \<in> set facts" using f(1) by (rule fact_of_index)
  moreover have "compare_ledger_session_facts lc agg g f \<le> 0"
    if g: "g \<in> set facts" "ledger_session_key g = Some k" for g
  proof -
    obtain j where "(j, g) \<in> set ?indexed"
      using indexed_fact [OF g(1)] by blast
    from max [OF this] g(2) show ?thesis by simp
  qed
  ultimately show thesis using f(2) that by blast
qed

lemma dedupe_not_empty:
  assumes lc: "js_comparator lc" and "facts \<noteq> []"
  shows "dedupe_ledger_session_facts lc agg facts \<noteq> []"
proof (cases "counts_sessions agg")
  case False
  then show ?thesis using assms by (auto simp: dedupe_ledger_session_facts_def counts_sessions_def)
next
  case True
  obtain f where f: "f \<in> set facts" using assms(2) by (meson last_in_set)
  show ?thesis
  proof (cases "ledger_session_key f")
    case None
    then have "f \<in> set (filter (\<lambda>f. ledger_session_key f = None) (dedupe_ledger_session_facts lc agg facts))"
      using f by (simp add: dedupe_unkeyed)
    then show ?thesis by auto
  next
    case (Some k)
    show ?thesis by (rule dedupe_session [OF lc True f Some]) auto
  qed
qed

lemma dedupe_session_once:
  assumes lc: "js_comparator lc" and agg: "counts_sessions agg"
  shows "length (filter (\<lambda>g. ledger_session_key g = Some k) (dedupe_ledger_session_facts lc agg facts)) \<le> 1"
proof (cases "\<exists>f\<in>set facts. ledger_session_key f = Some k")
  case True
  then obtain f where "f \<in> set facts" "ledger_session_key f = Some k" by blast
  then show ?thesis by (rule dedupe_session [OF lc agg]) simp
next
  case False
  then have "filter (\<lambda>g. ledger_session_key g = Some k) (dedupe_ledger_session_facts lc agg facts) = []"
    using dedupe_subset [of lc agg facts] by (auto simp: filter_empty_conv)
  then show ?thesis by simp
qed

section \<open>Properties\<close>

text \<open>
  C40: A physical session counts once in a ledger evaluation. When a goal counts facts, minutes or days, the
  evaluation keeps, for every session that has a fact, exactly one of its facts, and none of its facts is
  better in the order of the code: exact before inexact, the session start before a marker, then, for
  minutes, the longer one, then the latest. Facts without a session identity are all kept, in their order.
\<close>

theorem ledger_sessions_count_once:
  assumes "js_comparator lc" and "agg \<in> {AGG_COUNT, AGG_DURATION, AGG_DISTINCT_DAYS, AGG_STREAK}"
  shows "set (dedupe_ledger_session_facts lc agg facts) \<subseteq> set facts \<and>
    filter (\<lambda>f. ledger_session_key f = None) (dedupe_ledger_session_facts lc agg facts) =
      filter (\<lambda>f. ledger_session_key f = None) facts \<and>
    (\<forall>k. (\<exists>f\<in>set facts. ledger_session_key f = Some k) \<longrightarrow>
      (\<exists>f\<in>set facts.
        filter (\<lambda>g. ledger_session_key g = Some k) (dedupe_ledger_session_facts lc agg facts) = [f] \<and>
        (\<forall>g\<in>set facts. ledger_session_key g = Some k \<longrightarrow> compare_ledger_session_facts lc agg g f \<le> 0)))"
proof -
  have counts: "counts_sessions agg" using assms(2) by (simp add: counts_sessions_def)
  have "\<exists>f\<in>set facts. filter (\<lambda>g. ledger_session_key g = Some k) (dedupe_ledger_session_facts lc agg facts) = [f] \<and>
      (\<forall>g\<in>set facts. ledger_session_key g = Some k \<longrightarrow> compare_ledger_session_facts lc agg g f \<le> 0)"
    if "f0 \<in> set facts" "ledger_session_key f0 = Some k" for f0 k
    using dedupe_session [OF assms(1) counts that] by metis
  then show ?thesis using dedupe_subset dedupe_unkeyed by blast
qed

text \<open>Two facts of one session, and the session of another club: the exact fact wins.\<close>

definition sample_fact :: "string \<Rightarrow> string \<Rightarrow> string \<Rightarrow> string \<Rightarrow> int \<Rightarrow> int \<Rightarrow> ledger_fact" where
  "sample_fact i confidence session store t minutes =
     \<lparr>lf_id = i, lf_factType = ''SESSION_PLAY_TIME_ACCUMULATED'', lf_confidence = confidence,
      lf_happenedAt = Some t, lf_createdAt = t, lf_storeId = Some store, lf_externalDomain = None,
      lf_amount = None, lf_durationMinutes = Some minutes, lf_evidence = JNull,
      lf_storeTimeZone = Some ''Europe/Moscow'', lf_sourceExternalId = None,
      lf_sessionExternalId = Some session\<rparr>"

definition sample_facts :: "ledger_fact list" where
  "sample_facts =
     [sample_fact ''f1'' ''EXACT'' ''77'' ''club1'' 1790000000000 30,
      sample_fact ''f2'' ''DERIVED'' ''77'' ''club1'' 1790000600000 40,
      sample_fact ''f3'' ''EXACT'' ''77'' ''club2'' 1790003600000 30]"

lemma code_unit_order: "js_comparator code_unit_compare"
  using code_units.js_total_comparator_axioms by (simp add: js_total_comparator_def)

theorem ledger_sessions_count_once_witness:
  "map lf_id (dedupe_ledger_session_facts code_unit_compare AGG_DURATION sample_facts) = [''f1'', ''f3''] \<and>
   set (dedupe_ledger_session_facts code_unit_compare AGG_DURATION sample_facts) \<subseteq> set sample_facts"
proof
  show "map lf_id (dedupe_ledger_session_facts code_unit_compare AGG_DURATION sample_facts) = [''f1'', ''f3'']"
    by code_simp
  show "set (dedupe_ledger_session_facts code_unit_compare AGG_DURATION sample_facts) \<subseteq> set sample_facts"
    using ledger_sessions_count_once [OF code_unit_order, of AGG_DURATION sample_facts] by simp
qed

end
