(* ===== verification/Ledger_Guarantees.thy ===== *)
theory Ledger_Guarantees
  imports Ledger_Sessions
begin

text \<open>
  What a ledger evaluation promises: its progress is that of the live evaluation on the same actions, a match
  is never vacuous and only built from facts in the scope of the rule, and in EVENT_PARITY mode only from
  the event that is being evaluated, unless the rule accumulates.
\<close>

section \<open>Agreement with the live evaluation\<close>

text \<open>A fact that records the action of a live event, in a club of the zone.\<close>

definition records_action :: "ledger_rule \<Rightarrow> string \<Rightarrow> ledger_fact \<Rightarrow> progress_event \<Rightarrow> bool" where
  "records_action rule zone f e \<longleftrightarrow>
     ledger_fact_time_zone rule f = Some zone \<and> fact_time f = pe_occurredAt e \<and>
     minutes_of f = session_minutes_of e \<and> max 0 (decimal_number (lf_amount f)) = spend_amount_of e"

lemma round_progress_int [simp]: "round_progress (of_int n) = of_int n"
proof -
  have "js_round (of_int n * 100) = n * 100"
    using floor_eq_iff [of "of_int n * 100 + 1 / 2 :: rat" "n * 100"] by (simp add: js_round_def)
  then show ?thesis by (simp add: round_progress_def)
qed

lemma fold_int_rat: "fold (\<lambda>f sum. sum + of_int (g f)) xs (of_int a) = (of_int (fold (\<lambda>f sum. sum + g f) xs a) :: rat)"
  by (induction xs arbitrary: a) (simp_all flip: of_int_add)

lemma same_folds:
  assumes "list_all2 (\<lambda>f e. g f = h e) fs es"
  shows "fold (\<lambda>f sum. sum + g f) fs a = fold (\<lambda>e sum. sum + h e) es (a :: 'a :: monoid_add)"
  using assms by (induction fs es arbitrary: a rule: list_all2_induct) simp_all

lemma same_date_keys:
  assumes "list_all2 (records_action rule zone) facts events" and "zdb zone \<noteq> None"
  shows "fact_date_keys zdb rule facts = map (\<lambda>e. local_date_key zdb (Some zone) (pe_occurredAt e)) events"
  using assms(1)
  by (induction facts events rule: list_all2_induct)
    (simp_all add: fact_date_keys_def List.map_filter_simps local_fact_date_key_def records_action_def assms(2))

lemma latest_fact_in: "\<exists>f. latest_fact (Some l) facts = Some f \<and> (f = l \<or> f \<in> set facts)"
proof (induction facts arbitrary: l)
  case (Cons a facts)
  then show ?case by (simp split: if_splits) metis
qed simp

lemma same_reference:
  assumes "list_all2 (records_action rule zone) facts events" and "zdb zone \<noteq> None" and "facts \<noteq> []"
  shows "ledger_reference_date_key zdb rule facts evaluatedAt = Some (local_date_key zdb (Some zone) evaluatedAt)"
proof -
  obtain f where f: "latest_fact None facts = Some f" "f \<in> set facts"
  proof (cases facts)
    case (Cons l fs)
    then show ?thesis using latest_fact_in [of l fs] that by auto
  qed (simp add: assms(3))
  then have "ledger_fact_time_zone rule f = Some zone"
    using assms(1) by (auto simp: list_all2_conv_all_nth in_set_conv_nth records_action_def)
  then show ?thesis using f assms(2) by (simp add: ledger_reference_date_key_def)
qed

lemma ledger_streak_active:
  "active_ledger_day_streak keys target (Some r) = active_day_streak keys target r"
  by (simp add: active_ledger_day_streak_def active_day_streak_def Let_def split: prod.split)

lemma ledger_streak_none: "active_ledger_day_streak [] target r = active_day_streak [] target r'"
  by (simp add: active_ledger_day_streak_def active_day_streak_def js_uniq_def split: option.split)

text \<open>
  C39: The ledger cross-check measures what the live evaluation measures. When the facts record the actions of
  the events one by one - the same instants, minutes and amounts, in clubs of the zone of the rule - every
  aggregation has the same value in \<open>ledgerProgressValue\<close> and in \<open>progressValue\<close>, although the two are
  written separately, round differently and find the reference day of a streak in different ways.
\<close>

theorem ledger_progress_agrees_with_live:
  assumes same: "list_all2 (records_action rule zone) facts events" and zone: "zdb zone \<noteq> None"
  shows "ledger_progress_value zdb agg facts rule target evaluatedAt =
    progress_value zdb agg events (Some zone) target (local_date_key zdb (Some zone) evaluatedAt)"
proof -
  have len: "length facts = length events" using same by (rule list_all2_lengthD)
  have minutes: "fold (\<lambda>f sum. sum + minutes_of f) facts 0 = fold (\<lambda>e sum. sum + session_minutes_of e) events 0"
    and amounts: "fold (\<lambda>f sum. sum + max 0 (decimal_number (lf_amount f))) facts 0 =
      fold (\<lambda>e sum. sum + spend_amount_of e) events 0"
    using same by (auto intro!: same_folds elim!: list_all2_mono simp: records_action_def)
  note keys = same_date_keys [of rule zone facts events zdb, OF same zone]
  show ?thesis
  proof (cases agg)
    case AGG_DURATION
    then show ?thesis
      using fold_int_rat [of session_minutes_of events 0]
      by (simp add: ledger_progress_value_def progress_value_def minutes)
  next
    case AGG_STREAK
    show ?thesis
    proof (cases "facts = []")
      case True
      then have "events = []" using len by simp
      then show ?thesis
        using True AGG_STREAK ledger_streak_none
        by (simp add: ledger_progress_value_def progress_value_def fact_date_keys_def List.map_filter_simps)
    next
      case False
      then show ?thesis
        using AGG_STREAK same_reference [of rule zone facts events zdb, OF same zone]
        by (simp add: ledger_progress_value_def progress_value_def keys ledger_streak_active)
    qed
  qed (simp_all add: ledger_progress_value_def progress_value_def len amounts keys)
qed

section \<open>Facts that qualify\<close>

lemma those_Some: "those xs = Some ys \<longleftrightarrow> xs = map Some ys"
proof (induction xs arbitrary: ys)
  case (Cons x xs)
  then show ?case by (cases x; cases ys) auto
qed auto

definition selects_from :: "ledger_fact list \<Rightarrow> ledger_fact list \<Rightarrow> bool" where
  "selects_from kept facts \<longleftrightarrow> (\<exists>P. kept = filter P facts) \<and> (facts \<noteq> [] \<longrightarrow> kept \<noteq> [])"

lemma selects_from_refl [simp]: "selects_from facts facts"
  by (auto simp: selects_from_def intro!: exI [of _ "\<lambda>_. True"])

lemma selects_from_trans: "selects_from a b \<Longrightarrow> selects_from b c \<Longrightarrow> selects_from a c"
  by (auto simp: selects_from_def)

lemma selects_from_filter: "filter P facts \<noteq> [] \<Longrightarrow> selects_from (filter P facts) facts"
  by (auto simp: selects_from_def)

lemma selects_from_subset: "selects_from a b \<Longrightarrow> f \<in> set a \<Longrightarrow> f \<in> set b"
  by (auto simp: selects_from_def)

lemma products_select:
  "filter_ledger_product_facts facts conditions metric = PF_MATCHED ps c \<Longrightarrow> selects_from ps facts"
  by (auto simp: filter_ledger_product_facts_def Let_def split: if_splits
      intro!: selects_from_filter)

lemma limit_select: "apply_limit limit reason P facts qualified = Inr kept \<Longrightarrow> selects_from kept qualified"
  by (auto simp: apply_limit_def Let_def selects_from_filter split: option.splits if_splits)

lemma limit_met: "apply_limit limit reason P facts qualified = Inr kept \<Longrightarrow> limit = Some x \<Longrightarrow> f \<in> set kept \<Longrightarrow> P x f"
  by (auto simp: apply_limit_def Let_def split: if_splits)

lemma limit_blocks: "apply_limit limit reason P facts qualified = Inl ev \<Longrightarrow> le_status ev = BLOCKED"
  by (auto simp: apply_limit_def Let_def ledger_blocked_evaluation_def split: option.splits if_splits)

lemma blocked_status [simp]: "le_status (ledger_blocked_evaluation r facts p) = BLOCKED"
  by (simp add: ledger_blocked_evaluation_def)

text \<open>The limits that a rule puts on a fact.\<close>

definition meets_limits :: "ledger_rule \<Rightarrow> int \<Rightarrow> ledger_fact \<Rightarrow> bool" where
  "meets_limits rule evaluatedAt f \<longleftrightarrow>
     (\<forall>start. window_start rule evaluatedAt = Some start \<longrightarrow> (\<exists>t. start = At t \<and> t \<le> fact_time f)) \<and>
     (\<forall>x. min_session_minutes rule = Some x \<longrightarrow> x \<le> of_int (minutes_of f)) \<and>
     (\<forall>x. exact_required_amount rule (lf_factType f = ''BALANCE_TOPUP'') = Some x \<longrightarrow>
        \<bar>decimal_number (lf_amount f) - x\<bar> < 5 / 1000) \<and>
     (\<forall>x. min_spend_amount rule = Some x \<longrightarrow> x \<le> decimal_number (lf_amount f))"

lemma recent_facts_in_window:
  assumes "f \<in> set (recent_facts rule facts evaluatedAt)" and "window_start rule evaluatedAt = Some start"
  shows "\<exists>t. start = At t \<and> t \<le> fact_time f"
  using assms by (auto simp: recent_facts_def split: jsdate.splits)

lemma recent_facts_subset: "set (recent_facts rule facts evaluatedAt) \<subseteq> set facts"
  by (auto simp: recent_facts_def split: option.splits)

lemma exact_required_mono:
  "exact_required_amount rule b = Some x \<Longrightarrow> (b \<Longrightarrow> c) \<Longrightarrow> exact_required_amount rule c = Some x"
  by (cases "progress_number (setting (rule_metric rule) (rule_conditions rule) ''exactSpendAmount'')")
    (auto simp: exact_required_amount_def split: if_splits)

lemma qualified_facts:
  assumes lc: "js_comparator lc" and facts: "facts \<noteq> []"
    and q: "qualify_ledger_facts lc rule agg facts evaluatedAt = Inr (qualified, coverage)"
  shows "selects_from qualified (dedupe_ledger_session_facts lc agg (recent_facts rule facts evaluatedAt))"
    and "qualified \<noteq> []"
    and "f \<in> set qualified \<Longrightarrow> f \<in> set facts \<and> meets_limits rule evaluatedAt f"
proof -
  let ?recent = "dedupe_ledger_session_facts lc agg (recent_facts rule facts evaluatedAt)"
  obtain products long exact where products: "filter_ledger_product_facts ?recent (rule_conditions rule) (rule_metric rule) =
        PF_MATCHED products coverage"
    and long: "apply_limit (min_session_minutes rule) NO_LONG_SESSION
        (\<lambda>x f. x \<le> of_int (minutes_of f)) facts products = Inr long"
    and exact: "apply_limit
        (exact_required_amount rule (list_ex (\<lambda>f. lf_factType f = ''BALANCE_TOPUP'') long)) NO_EXACT_AMOUNT
        (\<lambda>x f. \<bar>decimal_number (lf_amount f) - x\<bar> < 5 / 1000) facts long = Inr exact"
    and spend: "apply_limit (min_spend_amount rule) NO_MIN_AMOUNT
        (\<lambda>x f. x \<le> decimal_number (lf_amount f)) facts exact = Inr qualified"
    and some: "window_start rule evaluatedAt = None \<or> ?recent \<noteq> []"
    using q by (auto simp: qualify_ledger_facts_def Let_def split: if_splits product_filter.splits)
  note sel = products_select [OF products] limit_select [OF long] limit_select [OF exact] limit_select [OF spend]
  show all: "selects_from qualified ?recent"
    using sel by (metis selects_from_trans)
  have "?recent \<noteq> []"
  proof (cases "window_start rule evaluatedAt")
    case None
    then show ?thesis using facts lc by (simp add: recent_facts_def dedupe_not_empty)
  next
    case (Some start)
    then show ?thesis using some by simp
  qed
  then show "qualified \<noteq> []" using all by (simp add: selects_from_def)
  assume f: "f \<in> set qualified"
  note in_exact = selects_from_subset [OF sel(4) f]
  note in_long = selects_from_subset [OF sel(3) in_exact]
  have recent: "f \<in> set (recent_facts rule facts evaluatedAt)"
    using selects_from_subset [OF all f] dedupe_subset by blast
  have "exact_required_amount rule (list_ex (\<lambda>f. lf_factType f = ''BALANCE_TOPUP'') long) = Some x"
    if "exact_required_amount rule (lf_factType f = ''BALANCE_TOPUP'') = Some x" for x
    using that in_long by (elim exact_required_mono) (auto simp: list_ex_iff)
  then show "f \<in> set facts \<and> meets_limits rule evaluatedAt f"
    using limit_met [OF long _ in_long] limit_met [OF exact _ in_exact] limit_met [OF spend _ f]
      recent_facts_in_window [OF recent] recent recent_facts_subset
    unfolding meets_limits_def by blast
qed

lemma early_return_not_matched:
  "qualify_ledger_facts lc rule agg facts evaluatedAt = Inl ev \<Longrightarrow> le_status ev \<noteq> MATCHED"
  by (auto simp: qualify_ledger_facts_def Let_def and_then_Inl split: if_splits product_filter.splits
      dest!: limit_blocks)

lemma matched_progress:
  assumes lc: "js_comparator lc" and facts: "facts \<noteq> []"
    and ev: "evaluate_ledger_progress zdb lc rule facts evaluatedAt = ev" "le_status ev = MATCHED"
  shows "le_facts ev \<noteq> []" and "f \<in> set (le_facts ev) \<Longrightarrow> f \<in> set facts \<and> meets_limits rule evaluatedAt f"
    and "counts_sessions (rule_aggregation rule) \<Longrightarrow>
      length (filter (\<lambda>f. ledger_session_key f = Some k) (le_facts ev)) \<le> 1"
    and "le_progress ev = Some p \<Longrightarrow>
      p = ledger_progress_of zdb rule (le_facts ev) evaluatedAt \<and> lp_target p \<le> lp_current p"
proof -
  obtain q c where q: "qualify_ledger_facts lc rule (rule_aggregation rule) facts evaluatedAt = Inr (q, c)"
    and le: "le_facts ev = q"
    and p: "\<forall>p. le_progress ev = Some p \<longrightarrow>
      p = ledger_progress_of zdb rule q evaluatedAt \<and> lp_target p \<le> lp_current p"
    using ev early_return_not_matched
    by (auto simp: evaluate_ledger_progress_def Let_def not_less split: sum.splits if_splits option.splits)
  note facts_ok = qualified_facts [OF lc facts q]
  show "le_facts ev \<noteq> []" using facts_ok(2) le by simp
  show "f \<in> set facts \<and> meets_limits rule evaluatedAt f" if "f \<in> set (le_facts ev)"
    using facts_ok(3) that le by simp
  show "p = ledger_progress_of zdb rule (le_facts ev) evaluatedAt \<and> lp_target p \<le> lp_current p"
    if "le_progress ev = Some p" using p that unfolding le by blast
  let ?recent = "dedupe_ledger_session_facts lc (rule_aggregation rule) (recent_facts rule facts evaluatedAt)"
  assume counts: "counts_sessions (rule_aggregation rule)"
  obtain P where P: "q = filter P ?recent" using facts_ok(1) by (auto simp: selects_from_def)
  have "length (filter (\<lambda>f. ledger_session_key f = Some k) q) \<le> length (filter (\<lambda>f. ledger_session_key f = Some k) ?recent)"
    unfolding P filter_filter
    by (rule order_trans [OF _ length_filter_le [of P]]) (simp add: conj_commute)
  also have "\<dots> \<le> 1" by (rule dedupe_session_once [OF lc counts])
  finally show "length (filter (\<lambda>f. ledger_session_key f = Some k) (le_facts ev)) \<le> 1" using le by simp
qed

section \<open>Facts in scope\<close>

definition ledger_in_scope :: "ledger_rule \<Rightarrow> string option \<Rightarrow> ledger_fact \<Rightarrow> bool" where
  "ledger_in_scope rule selectedStoreId f \<longleftrightarrow>
     lr_activatedAt rule \<le> fact_time f \<and>
     (\<forall>p. lr_periodFrom rule = Some p \<longrightarrow> p \<le> fact_time f) \<and>
     (\<forall>p. lr_periodTo rule = Some p \<longrightarrow> fact_time f \<le> p) \<and>
     (\<forall>s t. truthy selectedStoreId = Some s \<longrightarrow> truthy (lf_storeId f) = Some t \<longrightarrow> s = t) \<and>
     (lr_storeIds rule \<noteq> [] \<longrightarrow>
        (if domain_scoped_fact f
         then \<exists>d. truthy (lf_externalDomain f) = Some d \<and> d \<in> set (lr_externalDomains rule)
         else \<exists>s. truthy (lf_storeId f) = Some s \<and> s \<in> set (lr_storeIds rule)))"

definition in_rule_window :: "zone_db \<Rightarrow> ledger_rule \<Rightarrow> marked_fact \<Rightarrow> bool" where
  "in_rule_window zdb rule mf \<longleftrightarrow>
     (if snd mf then get_or (lf_durationMinutes (fst mf)) 0 \<noteq> 0
      else evaluate_guest_game_period zdb rule (fact_time (fst mf)) (ledger_fact_time_zone rule (fst mf)) = Some ([], []))"

lemma no_scope_reasons:
  assumes "scope_blockers rule f selectedStoreId = []" and "scope_insufficient rule f = []"
  shows "ledger_in_scope rule selectedStoreId f"
proof -
  note parts = assms [unfolded scope_blockers_def scope_insufficient_def append_is_Nil_conv]
  have "lr_storeIds rule \<noteq> [] \<longrightarrow>
        (if domain_scoped_fact f
         then \<exists>d. truthy (lf_externalDomain f) = Some d \<and> d \<in> set (lr_externalDomains rule)
         else \<exists>s. truthy (lf_storeId f) = Some s \<and> s \<in> set (lr_storeIds rule))"
    using parts(1) [THEN conjunct2, THEN conjunct2, THEN conjunct2, THEN conjunct2] parts(2)
    by (cases "domain_scoped_fact f") (auto split: if_splits option.splits)
  moreover have "\<forall>s t. truthy selectedStoreId = Some s \<longrightarrow> truthy (lf_storeId f) = Some t \<longrightarrow> s = t"
    using parts(1) [THEN conjunct2, THEN conjunct2, THEN conjunct2, THEN conjunct1] by (auto split: if_splits)
  moreover have "lr_activatedAt rule \<le> fact_time f"
    using parts(1) [THEN conjunct1] by (simp split: if_splits)
  moreover have "\<forall>p. lr_periodFrom rule = Some p \<longrightarrow> p \<le> fact_time f"
    using parts(1) [THEN conjunct2, THEN conjunct1] by (auto split: if_splits)
  moreover have "\<forall>p. lr_periodTo rule = Some p \<longrightarrow> fact_time f \<le> p"
    using parts(1) [THEN conjunct2, THEN conjunct2, THEN conjunct1] by (auto split: if_splits)
  ultimately show ?thesis unfolding ledger_in_scope_def by blast
qed

lemma scope_clean:
  assumes "evaluate_ledger_fact_scope zdb rule (f, applied) selectedStoreId = Some ([], [])"
  shows "ledger_in_scope rule selectedStoreId f" and "in_rule_window zdb rule (f, applied)"
  using assms
  by (auto simp: evaluate_ledger_fact_scope_def Let_def in_rule_window_def
      split: if_splits option.splits intro!: no_scope_reasons)

lemma overlap_fact_same:
  assumes "overlap_fact zdb rule f0 = Some (f, b)"
  shows "f = f0\<lparr>lf_durationMinutes := lf_durationMinutes f\<rparr>"
  using assms by (auto simp: overlap_fact_def Let_def split: if_splits option.splits)

lemma duration_update [simp]:
  "fact_time (f\<lparr>lf_durationMinutes := m\<rparr>) = fact_time f"
  "evidence_text (f\<lparr>lf_durationMinutes := m\<rparr>) = evidence_text f"
  by (simp_all add: fact_time_def evidence_text_def [abs_def])

lemma duration_update_id: "lf_id (f\<lparr>lf_durationMinutes := m\<rparr>) = lf_id f"
  by simp

lemma duration_update_strong [simp]:
  "strong_fact_identifiers (f\<lparr>lf_durationMinutes := m\<rparr>) = strong_fact_identifiers f"
  unfolding strong_fact_identifiers_def by simp

lemma overlap_keeps:
  assumes "overlap_fact zdb rule f0 = Some (f, b)"
  shows "fact_time f = fact_time f0" and "lf_factType f = lf_factType f0" and "lf_id f = lf_id f0"
    and "ledger_in_scope rule selectedStoreId f \<longleftrightarrow> ledger_in_scope rule selectedStoreId f0"
    and "ledger_fact_correlates_with_current_event f context \<longleftrightarrow> ledger_fact_correlates_with_current_event f0 context"
proof -
  note same = overlap_fact_same [OF assms]
  show "fact_time f = fact_time f0" and "lf_factType f = lf_factType f0" and "lf_id f = lf_id f0"
    and "ledger_in_scope rule selectedStoreId f \<longleftrightarrow> ledger_in_scope rule selectedStoreId f0"
    by (subst same, simp add: ledger_in_scope_def domain_scoped_fact_def)+
  show "ledger_fact_correlates_with_current_event f context \<longleftrightarrow> ledger_fact_correlates_with_current_event f0 context"
    by (subst same) (simp only: ledger_fact_correlates_with_current_event_def duration_update duration_update_id
        duration_update_strong)
qed

lemma passed_facts:
  assumes "pass_facts scope facts = Some (ok, bs, is)" and "x \<in> set ok"
  shows "x \<in> set facts \<and> scope x = Some ([], [])"
proof -
  obtain results where results: "map scope facts = map Some results"
    and ok: "ok = map fst (filter (\<lambda>(_, b, i). b = [] \<and> i = []) (zip facts results))"
    using assms(1) by (auto simp: pass_facts_def those_Some)
  have len: "length results = length facts" using results by (metis length_map)
  obtain j where "j < length facts" "x = facts ! j" "results ! j = ([], [])"
    using assms(2) len by (auto simp: ok in_set_zip)
  then show ?thesis using results len by (metis nth_map nth_mem)
qed

lemma overlap_candidates:
  assumes "apply_ledger_window_overlap zdb rule facts = Some candidates" and "mf \<in> set candidates"
  shows "\<exists>f0\<in>set facts. overlap_fact zdb rule f0 = Some mf"
  using assms unfolding apply_ledger_window_overlap_def those_Some
  by (metis (no_types, opaque_lifting) imageE imageI list.set_map)

section \<open>The evaluation\<close>

lemma parity_candidates:
  assumes "prepare_event_parity_candidates zdb rule cs selectedStoreId evaluatedAt context = Some (Inr candidates)"
    and "candidates \<noteq> []"
  shows "set candidates \<subseteq> set cs"
    and "lc_mode context = EVENT_PARITY \<Longrightarrow>
      (\<exists>t. nullable_text (lc_sourceEventType context) = Some t \<and>
           ledger_trigger_matches_source_event (lr_triggerKind rule) t) \<and>
      (\<exists>mf\<in>set cs. ledger_fact_correlates_with_current_event (fst mf) context \<and>
         anchor_scope zdb rule selectedStoreId evaluatedAt mf = Some ([], [])) \<and>
      (\<not> guest_game_ledger_rule_is_cumulative rule \<longrightarrow>
         (\<forall>mf\<in>set candidates. ledger_fact_correlates_with_current_event (fst mf) context))"
proof -
  let ?anchors = "filter (\<lambda>(f, _). ledger_fact_correlates_with_current_event f context) cs"
  have "candidates = cs" if "lc_mode context \<noteq> EVENT_PARITY"
    using assms(1) that by (simp add: prepare_event_parity_candidates_def)
  moreover have parity: "(\<exists>t. nullable_text (lc_sourceEventType context) = Some t \<and>
           ledger_trigger_matches_source_event (lr_triggerKind rule) t) \<and>
      (\<exists>ok bs is. pass_facts (anchor_scope zdb rule selectedStoreId evaluatedAt) ?anchors = Some (ok, bs, is) \<and>
         ok \<noteq> [] \<and> candidates = (if guest_game_ledger_rule_is_cumulative rule then cs else ok))"
    if "lc_mode context = EVENT_PARITY"
    using assms that
    by (auto simp: prepare_event_parity_candidates_def Let_def split: if_splits option.splits prod.splits)
  moreover have anchors: "mf \<in> set cs \<and> ledger_fact_correlates_with_current_event (fst mf) context \<and>
      anchor_scope zdb rule selectedStoreId evaluatedAt mf = Some ([], [])"
    if "pass_facts (anchor_scope zdb rule selectedStoreId evaluatedAt) ?anchors = Some (ok, bs, is)" "mf \<in> set ok"
    for ok bs "is" mf
    using passed_facts [OF that] by auto
  ultimately show "set candidates \<subseteq> set cs" by (cases "lc_mode context") (auto split: if_splits)
  assume mode: "lc_mode context = EVENT_PARITY"
  obtain ok bs "is" where ok: "pass_facts (anchor_scope zdb rule selectedStoreId evaluatedAt) ?anchors = Some (ok, bs, is)"
    "ok \<noteq> []" "candidates = (if guest_game_ledger_rule_is_cumulative rule then cs else ok)"
    using parity [OF mode] by blast
  obtain mf where "mf \<in> set ok" using ok(2) by (meson last_in_set)
  then show "(\<exists>t. nullable_text (lc_sourceEventType context) = Some t \<and>
           ledger_trigger_matches_source_event (lr_triggerKind rule) t) \<and>
      (\<exists>mf\<in>set cs. ledger_fact_correlates_with_current_event (fst mf) context \<and>
         anchor_scope zdb rule selectedStoreId evaluatedAt mf = Some ([], [])) \<and>
      (\<not> guest_game_ledger_rule_is_cumulative rule \<longrightarrow>
         (\<forall>mf\<in>set candidates. ledger_fact_correlates_with_current_event (fst mf) context))"
    using parity [OF mode, THEN conjunct1] anchors [OF ok(1)] ok(3) by (metis (no_types, lifting))
qed

lemma parity_stop_not_matched:
  "prepare_event_parity_candidates zdb rule cs selectedStoreId evaluatedAt context = Some (Inl ev) \<Longrightarrow>
     le_status ev \<noteq> MATCHED"
  by (auto simp: prepare_event_parity_candidates_def ledger_event_parity_blocked_def Let_def
      split: if_splits option.splits prod.splits)

text \<open>The way of a match through the evaluation.\<close>

lemma ledger_match:
  assumes "evaluate_guest_game_ledger_rule zdb lc rule facts selectedStoreId evaluatedAt context = Some ev"
    and "le_status ev = MATCHED"
  obtains cs candidates matched bs "is"
  where "apply_ledger_window_overlap zdb rule (ledger_relevant_facts rule facts) = Some cs"
    and "prepare_event_parity_candidates zdb rule cs selectedStoreId evaluatedAt context = Some (Inr candidates)"
    and "candidates \<noteq> []"
    and "pass_facts (\<lambda>f. evaluate_ledger_fact_scope zdb rule f selectedStoreId) candidates = Some (matched, bs, is)"
    and "matched \<noteq> []"
    and "ev = evaluate_ledger_progress zdb lc rule (map fst matched) evaluatedAt"
  using assms
  by (auto simp: evaluate_guest_game_ledger_rule_def evaluate_ledger_candidates_def
      dest: parity_stop_not_matched split: if_splits option.splits sum.splits)

lemma relevant_candidate:
  assumes "apply_ledger_window_overlap zdb rule (ledger_relevant_facts rule facts) = Some cs" and "mf \<in> set cs"
  shows "\<exists>f0\<in>set facts. overlap_fact zdb rule f0 = Some mf \<and>
    lf_factType f0 \<in> set (relevant_guest_game_facts (lr_triggerKind rule) (lr_sessionType rule))"
  using overlap_candidates [OF assms] by (auto simp: ledger_relevant_facts_def)

section \<open>Properties\<close>

text \<open>
  C37: A MATCHED ledger evaluation is justified. It has at least one fact; each comes from a given fact of a
  type that the trigger asks for, which happened after the activation and in the period of the rule, in the
  selected club and in the clubs (for a top-up without club: the domains) of the rule, inside its time
  window, and meets its limits on age, minutes and amounts; a session is among them once, when the goal
  counts facts, minutes or days; and a reported progress is that of these facts and reaches the target.
\<close>

theorem ledger_match_justified:
  assumes lc: "js_comparator lc"
    and ev: "evaluate_guest_game_ledger_rule zdb lc rule facts selectedStoreId evaluatedAt context = Some ev"
    and matched: "le_status ev = MATCHED"
  shows "le_facts ev \<noteq> [] \<and>
    (\<forall>f\<in>set (le_facts ev). \<exists>f0\<in>set facts. \<exists>applied.
      overlap_fact zdb rule f0 = Some (f, applied) \<and>
      lf_factType f0 \<in> set (relevant_guest_game_facts (lr_triggerKind rule) (lr_sessionType rule)) \<and>
      ledger_in_scope rule selectedStoreId f0 \<and> in_rule_window zdb rule (f, applied) \<and>
      meets_limits rule evaluatedAt f) \<and>
    (rule_aggregation rule \<notin> {AGG_SUM, AGG_EXISTS} \<longrightarrow>
      (\<forall>k. length (filter (\<lambda>f. ledger_session_key f = Some k) (le_facts ev)) \<le> 1)) \<and>
    (\<forall>p. le_progress ev = Some p \<longrightarrow>
      p = ledger_progress_of zdb rule (le_facts ev) evaluatedAt \<and> lp_target p \<le> lp_current p)"
proof -
  obtain cs candidates ms bs "is"
    where cs: "apply_ledger_window_overlap zdb rule (ledger_relevant_facts rule facts) = Some cs"
      and candidates: "prepare_event_parity_candidates zdb rule cs selectedStoreId evaluatedAt context = Some (Inr candidates)"
        "candidates \<noteq> []"
      and pass: "pass_facts (\<lambda>f. evaluate_ledger_fact_scope zdb rule f selectedStoreId) candidates = Some (ms, bs, is)"
      and some: "ms \<noteq> []"
      and progress: "ev = evaluate_ledger_progress zdb lc rule (map fst ms) evaluatedAt"
    by (rule ledger_match [OF ev matched])
  have "map fst ms \<noteq> []" using some by simp
  note result = matched_progress [OF lc this progress [symmetric] matched]
  have "\<exists>f0\<in>set facts. \<exists>applied.
      overlap_fact zdb rule f0 = Some (f, applied) \<and>
      lf_factType f0 \<in> set (relevant_guest_game_facts (lr_triggerKind rule) (lr_sessionType rule)) \<and>
      ledger_in_scope rule selectedStoreId f0 \<and> in_rule_window zdb rule (f, applied) \<and>
      meets_limits rule evaluatedAt f" if f: "f \<in> set (le_facts ev)" for f
  proof -
    obtain applied where "(f, applied) \<in> set ms" using result(2) [OF f] by auto
    note mf = passed_facts [OF pass this]
    note scope = scope_clean [OF conjunct2 [OF mf]]
    have "(f, applied) \<in> set cs" using mf parity_candidates(1) [OF candidates] by blast
    from relevant_candidate [OF cs this] obtain f0 where "f0 \<in> set facts"
      and f0: "overlap_fact zdb rule f0 = Some (f, applied)"
      and "lf_factType f0 \<in> set (relevant_guest_game_facts (lr_triggerKind rule) (lr_sessionType rule))" by blast
    moreover have "ledger_in_scope rule selectedStoreId f0" using scope(1) overlap_keeps(4) [OF f0] by blast
    ultimately show ?thesis using scope(2) result(2) [OF f] by blast
  qed
  moreover have "counts_sessions (rule_aggregation rule)" if "rule_aggregation rule \<notin> {AGG_SUM, AGG_EXISTS}"
    using that by (cases "rule_aggregation rule") (simp_all add: counts_sessions_def)
  ultimately show ?thesis using result(1,3,4) by blast
qed

text \<open>
  C38: In EVENT_PARITY mode a rule is only ever matched by the event under evaluation: its type satisfies the
  trigger, and the ledger holds a fact correlated with it - by an identifier, by the origin key, or, for a
  fact without identifiers, by the instant - that is in the scope and the window of the rule and meets the
  limits itself. Unless the rule accumulates, no other fact is part of the match: history alone unlocks nothing.
\<close>

theorem parity_match_is_current:
  assumes lc: "js_comparator lc" and parity: "lc_mode context = EVENT_PARITY"
    and ev: "evaluate_guest_game_ledger_rule zdb lc rule facts selectedStoreId evaluatedAt context = Some ev"
    and matched: "le_status ev = MATCHED"
  shows "(\<exists>t. nullable_text (lc_sourceEventType context) = Some t \<and>
         ledger_trigger_matches_source_event (lr_triggerKind rule) t) \<and>
    (\<exists>f0\<in>set facts. \<exists>f applied.
      ledger_fact_correlates_with_current_event f0 context \<and>
      overlap_fact zdb rule f0 = Some (f, applied) \<and> ledger_in_scope rule selectedStoreId f0 \<and>
      in_rule_window zdb rule (f, applied) \<and>
      evaluate_event_parity_anchor_constraints rule f evaluatedAt = ([], [])) \<and>
    (\<not> guest_game_ledger_rule_is_cumulative rule \<longrightarrow>
      (\<forall>f\<in>set (le_facts ev). ledger_fact_correlates_with_current_event f context))"
proof -
  obtain cs candidates ms bs "is"
    where cs: "apply_ledger_window_overlap zdb rule (ledger_relevant_facts rule facts) = Some cs"
      and candidates: "prepare_event_parity_candidates zdb rule cs selectedStoreId evaluatedAt context = Some (Inr candidates)"
        "candidates \<noteq> []"
      and pass: "pass_facts (\<lambda>f. evaluate_ledger_fact_scope zdb rule f selectedStoreId) candidates = Some (ms, bs, is)"
      and some: "ms \<noteq> []"
      and progress: "ev = evaluate_ledger_progress zdb lc rule (map fst ms) evaluatedAt"
    by (rule ledger_match [OF ev matched])
  note current = parity_candidates(2) [OF candidates parity]
  have "map fst ms \<noteq> []" using some by simp
  note result = matched_progress(2) [OF lc this progress [symmetric] matched]
  obtain f applied where mf: "(f, applied) \<in> set cs" and anchor: "ledger_fact_correlates_with_current_event f context"
    and scope: "anchor_scope zdb rule selectedStoreId evaluatedAt (f, applied) = Some ([], [])"
    using current by auto
  have clean: "evaluate_ledger_fact_scope zdb rule (f, applied) selectedStoreId = Some ([], [])"
    and constraints: "evaluate_event_parity_anchor_constraints rule f evaluatedAt = ([], [])"
    using scope by (auto simp: anchor_scope_def split: option.splits prod.splits)
  from relevant_candidate [OF cs mf] obtain f0 where "f0 \<in> set facts"
    and f0: "overlap_fact zdb rule f0 = Some (f, applied)" by blast
  then have "\<exists>f0\<in>set facts. \<exists>f applied.
      ledger_fact_correlates_with_current_event f0 context \<and>
      overlap_fact zdb rule f0 = Some (f, applied) \<and> ledger_in_scope rule selectedStoreId f0 \<and>
      in_rule_window zdb rule (f, applied) \<and>
      evaluate_event_parity_anchor_constraints rule f evaluatedAt = ([], [])"
    using anchor constraints scope_clean [OF clean] overlap_keeps(4,5) [OF f0] by blast
  moreover have "ledger_fact_correlates_with_current_event f context"
    if "\<not> guest_game_ledger_rule_is_cumulative rule" "f \<in> set (le_facts ev)" for f
    using result [OF that(2)] passed_facts [OF pass] current that(1) by fastforce
  ultimately show ?thesis using current by blast
qed

section \<open>An hour of play\<close>

text \<open>A goal over play time in two clubs of one zone, and the stop of the last session as the current event.\<close>

definition sample_ledger_rule :: "js_value \<Rightarrow> rat \<Rightarrow> string \<Rightarrow> ledger_rule" where
  "sample_ledger_rule conditions target unit =
     \<lparr>lr_triggerKind = Some ''PLAY_TIME'', lr_sessionType = None, lr_activatedAt = 1780000000000,
      lr_periodFrom = None, lr_periodTo = None, lr_periodRules = conditions,
      lr_storeIds = [''club1'', ''club2''], lr_externalDomains = [], lr_domainTimeZones = [],
      lr_progressTarget = Some target, lr_progressUnit = Some unit\<rparr>"

definition sample_context :: "evaluation_mode \<Rightarrow> ledger_context" where
  "sample_context mode =
     \<lparr>lc_mode = mode, lc_sourceEventType = Some ''SESSION_STOP'', lc_sourceFactId = Some ''f3'',
      lc_sourceExternalId = None, lc_sourceOriginKey = None, lc_sourceSessionExternalId = None,
      lc_occurredAt = Some (At 1790003600000), lc_correlationWindowMs = None\<rparr>"

definition ledger_outcome :: "evaluation_mode \<Rightarrow> ledger_rule \<Rightarrow> (ledger_status \<times> string list \<times> rat option) option" where
  "ledger_outcome mode rule =
     map_option (\<lambda>ev. (le_status ev, map lf_id (le_facts ev), map_option lp_current (le_progress ev)))
       (evaluate_guest_game_ledger_rule moscow_db code_unit_compare rule sample_facts None 1790007200000
         (sample_context mode))"

lemma sample_outcomes:
  "ledger_outcome EVENT_PARITY (sample_ledger_rule JNull 60 ''minute'') = Some (MATCHED, [''f1'', ''f3''], Some 60)"
  "ledger_outcome EVENT_PARITY (sample_ledger_rule JNull 1 ''visit'') = Some (MATCHED, [''f3''], None)"
  by code_simp+

text \<open>
  A goal of one hour in hours is not recognised as cumulative, because its target is not more than one: what is
  matched from history, and as 60 minutes by the current event, is refused by the current event.
\<close>

lemma hour_goal_is_not_cumulative:
  "ledger_outcome HISTORICAL_RECOVERY (sample_ledger_rule JNull 1 ''hour'') = Some (MATCHED, [''f1'', ''f3''], Some 60)"
  "ledger_outcome EVENT_PARITY (sample_ledger_rule JNull 1 ''hour'') = Some (BLOCKED, [''f3''], Some 30)"
  by code_simp+

lemma ledger_outcome_matched:
  assumes "ledger_outcome mode rule = Some (MATCHED, ids, current)"
  obtains ev where "evaluate_guest_game_ledger_rule moscow_db code_unit_compare rule sample_facts None 1790007200000
      (sample_context mode) = Some ev" and "le_status ev = MATCHED" and "map lf_id (le_facts ev) = ids"
  using assms by (auto simp: ledger_outcome_def)

theorem ledger_match_justified_witness:
  "\<exists>ev. evaluate_guest_game_ledger_rule moscow_db code_unit_compare (sample_ledger_rule JNull 60 ''minute'')
      sample_facts None 1790007200000 (sample_context EVENT_PARITY) = Some ev \<and>
    le_status ev = MATCHED \<and> map lf_id (le_facts ev) = [''f1'', ''f3''] \<and> le_facts ev \<noteq> []"
proof -
  obtain ev where ev: "evaluate_guest_game_ledger_rule moscow_db code_unit_compare (sample_ledger_rule JNull 60 ''minute'')
      sample_facts None 1790007200000 (sample_context EVENT_PARITY) = Some ev" "le_status ev = MATCHED"
    "map lf_id (le_facts ev) = [''f1'', ''f3'']"
    by (rule ledger_outcome_matched [OF sample_outcomes(1)])
  with ledger_match_justified [OF code_unit_order ev(1,2), THEN conjunct1] show ?thesis
    by (intro exI [of _ ev] conjI)
qed

theorem parity_match_is_current_witness:
  "\<exists>ev. evaluate_guest_game_ledger_rule moscow_db code_unit_compare (sample_ledger_rule JNull 1 ''visit'')
      sample_facts None 1790007200000 (sample_context EVENT_PARITY) = Some ev \<and>
    le_status ev = MATCHED \<and> map lf_id (le_facts ev) = [''f3''] \<and>
    (\<exists>f0\<in>set sample_facts. ledger_fact_correlates_with_current_event f0 (sample_context EVENT_PARITY))"
proof -
  obtain ev where ev: "evaluate_guest_game_ledger_rule moscow_db code_unit_compare (sample_ledger_rule JNull 1 ''visit'')
      sample_facts None 1790007200000 (sample_context EVENT_PARITY) = Some ev" "le_status ev = MATCHED"
    and ids: "map lf_id (le_facts ev) = [''f3'']"
    by (rule ledger_outcome_matched [OF sample_outcomes(2)])
  have "lc_mode (sample_context EVENT_PARITY) = EVENT_PARITY" by (simp add: sample_context_def)
  from parity_match_is_current [OF code_unit_order this ev, THEN conjunct2, THEN conjunct1]
  have "\<exists>f0\<in>set sample_facts. ledger_fact_correlates_with_current_event f0 (sample_context EVENT_PARITY)"
    by (elim bexE exE conjE) (rule bexI)
  with ev ids show ?thesis by (intro exI [of _ ev] conjI)
qed

definition sample_play :: "int \<Rightarrow> int \<Rightarrow> progress_event" where
  "sample_play t minutes =
     \<lparr>pe_eventType = ''SESSION_STOP'', pe_occurredAt = t, pe_sourceFactId = None, pe_externalProvider = None,
      pe_sourceKind = None, pe_sessionExternalId = None, pe_storeId = Some ''club1'', pe_externalDomain = None,
      pe_sessionType = None, pe_sessionPacket = None, pe_sessionMinutes = Some minutes, pe_spendAmount = None,
      pe_tariffGroupId = None, pe_tariffPeriodId = None, pe_tariffTypeId = None, pe_guestLogType = None,
      pe_productId = None, pe_externalProductId = None, pe_externalCategoryKey = None,
      pe_categoryId = None, pe_categoryName = None\<rparr>"

definition sample_plays :: "progress_event list" where
  "sample_plays = [sample_play 1790000000000 30, sample_play 1790000600000 40, sample_play 1790003600000 30]"

lemma sample_records: "list_all2 (records_action (sample_ledger_rule JNull 60 ''minute'') ''Europe/Moscow'') sample_facts sample_plays"
  by code_simp

theorem ledger_progress_agrees_with_live_witness:
  "ledger_progress_value moscow_db AGG_DURATION sample_facts (sample_ledger_rule JNull 60 ''minute'') 60 1790007200000 = 100 \<and>
   progress_value moscow_db AGG_DURATION sample_plays (Some ''Europe/Moscow'') 60
     (local_date_key moscow_db (Some ''Europe/Moscow'') 1790007200000) = 100"
proof -
  have "ledger_progress_value moscow_db AGG_DURATION sample_facts (sample_ledger_rule JNull 60 ''minute'') 60 1790007200000 = 100"
    by code_simp
  then show ?thesis
    using ledger_progress_agrees_with_live [OF sample_records, of moscow_db AGG_DURATION 60 1790007200000]
    by (simp add: moscow_db_def)
qed

end
