(* ===== verification/Spec2Isabelle.thy ===== *)
theory Spec2Isabelle
  imports Execution_Admission Http_Policy Background_Policy Access_Window Entitlement_Profile Fresh_Scope
    Leaderboard_Guarantees Leaderboard_Cache Game_Result Ledger_Guarantees
begin

text \<open>
  LeetPlus is a multi-tenant service for networks of computer clubs: a NestJS application over one
  PostgreSQL database (\<open>apps/api\<close>), a Next.js front end (\<open>apps/web\<close>) and a large body of release tooling.
  This development models the parts of the application that decide: who may do what, and what a guest
  has earned. Every definition is executable and follows one function, method or type of the source.

  \<^bold>\<open>1. Tenant execution\<close> (\<open>apps/api/src/tenancy\<close>, \<open>apps/api/src/admin\<close>)

  \<^item> \<open>Tenant_Model\<close>: the tenant and entitlement rows, dates, and the database trigger that advances the
    execution revision (\<open>migration.sql\<close> of the revision fence).
  \<^item> \<open>Execution_Policy\<close> (\<open>tenant-execution-policy.service.ts\<close>): the decisions for sessions, invites,
    activation and modules. The locale \<open>admission_gate\<close> states what a gate owes; the four decisions
    interpret it. The module gate is proved to refine an abstract specification.
  \<^item> \<open>Execution_Admission\<close> (\<open>tenant-execution-admission.service.ts\<close>): batches of requirements and permits.
    A permit that is still accepted proves that nothing relevant has changed since it was issued.
  \<^item> \<open>Http_Policy\<close> (\<open>tenant-execution-http-policy.ts\<close>), \<open>Background_Policy\<close>
    (\<open>tenant-background-execution-policy.ts\<close>): which module and action a request or a job needs.
  \<^item> \<open>Audited_Command\<close>: the locale of a command with request id, digest, compare-and-set and audit row;
    \<open>Access_Window\<close> (\<open>tenant-access-window.ts\<close>, \<open>tenant-access-window.service.ts\<close>) and
    \<open>Entitlement_Profile\<close> (\<open>tenant-entitlement-profile.service.ts\<close>) interpret it: no lost update, replay
    without effect, round trip of the stored record.

  \<^bold>\<open>2. Authority of a user\<close> (\<open>apps/api/src/auth\<close>, \<open>apps/api/src/tenancy\<close>)

  \<^item> \<open>Capabilities\<close> (\<open>capabilities.ts\<close>), \<open>Auth_User\<close> (\<open>auth.types.ts\<close>), \<open>Roles_Guard\<close> (\<open>roles.guard.ts\<close>),
    \<open>Jwt_Guard\<close> (\<open>jwt-auth.guard.ts\<close>): what a stored account may do, and what both guards together admit.
    Part 1 is called by the guard: an admitted request is entitled to its module.
  \<^item> \<open>Access_Scope\<close> (\<open>access-scope.service.ts\<close>), \<open>Fresh_Scope\<close> (\<open>fresh-store-scope.service.ts\<close>): the stores
    a user reaches, delegation, and the check of a request against the database as it is now.

  \<^bold>\<open>3. The guest leaderboard\<close> (\<open>apps/api/src/guest-leaderboard\<close>)

  \<^item> \<open>Leaderboard_Config\<close>, \<open>Leaderboard_Core\<close>, \<open>Leaderboard_Period\<close> (\<open>guest-leaderboard-core.ts\<close>): settings,
    totals, ranking, the target of a guest, the visible rows, the months in the zone of a network.
  \<^item> \<open>Leaderboard_Activity\<close>, \<open>Leaderboard_View\<close>, \<open>Leaderboard_Cache\<close> (\<open>guest-leaderboard-read.service.ts\<close>):
    the activity query against its meaning, what a guest is shown, and the cache as a step system.
  \<^item> \<open>Leaderboard_Settlement\<close> (\<open>guest-leaderboard-settlement.service.ts\<close>): freezing of the month and
    issue of the prizes, every call with its outcome. \<open>Leaderboard_Payout\<close> makes it a transition system
    of any number of workers with the invariant \<open>settle_inv\<close>; \<open>Leaderboard_Guarantees\<close> draws the
    conclusions: a prize at most once, results frozen for good, a queue that drains.

  \<^bold>\<open>4. Progress of a guest\<close> (\<open>apps/api/src/guest-gamification\<close>)

  \<^item> \<open>Session_Window\<close> (\<open>guest-game-session-window.ts\<close>): the minutes of a session inside a window. The loop
    over the edges is shown to end within its guard and to measure exactly the allowed instants.
  \<^item> \<open>Origin_Key\<close> (\<open>guest-game-origin-key.ts\<close>): the keys of physical actions; a key determines its session.
  \<^item> \<open>Game_Progress\<close> (\<open>guest-game-progress.ts\<close>): the reduction of events to actions, the conditions of a
    rule, the aggregations and the evaluation. \<open>Game_Streak\<close>: streaks and active days as runs of day
    numbers. \<open>Game_Dedupe\<close>: every action counts once. \<open>Game_Result\<close>: bounds of the result, and no event
    earns twice.
  \<^item> \<open>Ledger_Rule\<close> (\<open>guest-game-rule-evaluator.ts\<close>): the second evaluation of a rule, on the facts of the activity
    ledger: the scope of a fact, the purchase filter, the anchors of the current event, the progress.
    \<open>Ledger_Sessions\<close>: a session counts once, with its best fact. \<open>Ledger_Guarantees\<close>: a match is justified by
    its facts, in EVENT_PARITY mode by the current event, and its progress is that of \<open>Game_Progress\<close>.

  \<^bold>\<open>The language.\<close> \<open>Js_Prelude\<close>, \<open>Js_Sort\<close>, \<open>Js_Date\<close>, \<open>Js_Json\<close>, \<open>Js_Number\<close> and \<open>Time_Zone\<close> model what the
  source uses of JavaScript: trimming, insertion ordered maps, the stable sort under a comparison function
  (locales \<open>js_comparator\<close>, \<open>js_total_comparator\<close>), ISO dates, \<open>JSON.stringify\<close>, number literals, calendar
  arithmetic. A thrown error is the left side of a sum or \<open>None\<close>; a JSON document is a \<open>js_value\<close>. Numbers
  are integers or rationals: the sources compute with safe integers and with amounts of two decimals, and
  the rounding of doubles is not modelled. Texts are sequences of ASCII characters.

  \<^bold>\<open>Parameters.\<close> Code outside the repository is an argument: the time zone data (\<open>zone_db\<close>), the collation
  \<open>localeCompare\<close>, SHA-256, the verification of a token, the host name of a URL, the legacy formats of
  \<open>Date.parse\<close>, and of the database the outcome of each call. Theorems that need a property of one name it:
  a steady clock (no change of the clock in the period at hand), no collision of two digests, a comparison
  function that orders, legacy dates within the range of a date.

  \<^bold>\<open>Bounds.\<close> Recursions are structural, but for two: the loop over window edges has the fuel of the code
  (1000 rounds), and \<open>guard_covers\<close> states for which sessions that is enough, for two configured windows
  sessions of up to 88 days; the decimal printer of \<open>Js_Number\<close> recurses on the quotient by ten.

  \<^bold>\<open>What modelling showed.\<close> The settlement records an issued prize as failed when the audit write after the
  grant fails, and takes the home club of a late prize from the wrong month;
  \<open>granted_prize_recorded_as_failed\<close> in \<open>Leaderboard_Guarantees\<close> exhibits the first. The ledger evaluation does
  not recognise a goal of one hour as cumulative: \<open>hour_goal_is_not_cumulative\<close> in \<open>Ledger_Guarantees\<close>.

  \<^bold>\<open>Not modelled.\<close> The remaining services (guest portal, staff, guests, marketing, reports, integrations, the
  ledgers and schedulers of the gamification) are workflows of database queries, provider calls and
  messages: their behaviour is that of SQL and of external systems, which the sources only call. The web
  application is presentation. The release tooling drives servers. Of the two large services that
  modelled code calls, only the called operation is modelled (\<open>createReward\<close> for the leaderboard). Log lines,
  texts shown to people and dependency injection are left out everywhere.
\<close>

end
